theory Spec2Isabelle
  imports Main "HOL-Library.Word"
begin

unbundle bit_operations_syntax

section \<open>The TDM slave of \<^verbatim>\<open>modules/i2s\<close>: data model\<close>

text \<open>
  The driver runs on the 32-bit xcore: \<^verbatim>\<open>size_t\<close>, \<^verbatim>\<open>uint32_t\<close>,
  \<^verbatim>\<open>int32_t\<close> (as a bit pattern) and \<^verbatim>\<open>port_timestamp_t\<close> are 32-bit words, and
  all arithmetic on them wraps. Ports and clock blocks are resource handles.
\<close>

type_synonym u32 = "32 word"
type_synonym port_t = nat
type_synonym xclock_t = nat

definition TDM_MAX_CHANS :: nat where
  "TDM_MAX_CHANS = 16"

definition TDM_MAX_PORTS :: nat where
  "TDM_MAX_PORTS = 4"

definition TDM_PORT_BUFFER_BITS :: u32 where
  "TDM_PORT_BUFFER_BITS = 32"

datatype tdm_slave_bclk_polarity_t =
  TDM_SLAVE_SAMPLE_ON_BCLK_RISING | TDM_SLAVE_SAMPLE_ON_BCLK_FALLING

record tdm_config_t =
  mclk_bclk_ratio :: u32
  slave_bclk_polarity :: tdm_slave_bclk_polarity_t
  offset :: u32

datatype tdm_restart_t = TDM_NO_RESTART | TDM_RESTART | TDM_SHUTDOWN

text \<open>
  \<^verbatim>\<open>tdm_sample_buffer_t\<close> is \<^verbatim>\<open>line[TDM_MAX_PORTS].channel[TDM_MAX_CHANS]\<close>. A buffer is
  a function of line and channel; C does not check the indices, so the accessors below
  do, and an access outside the array is the trap \<open>Out_of_bounds\<close>.
\<close>

type_synonym tdm_sample_buffer_t = "nat \<Rightarrow> nat \<Rightarrow> u32"

datatype trap = Assertion_failed | Out_of_bounds

definition channel_read :: "tdm_sample_buffer_t \<Rightarrow> nat \<Rightarrow> nat \<Rightarrow> trap + u32" where
  "channel_read b l c =
     (if l < TDM_MAX_PORTS \<and> c < TDM_MAX_CHANS then Inr (b l c) else Inl Out_of_bounds)"

definition channel_write ::
  "tdm_sample_buffer_t \<Rightarrow> nat \<Rightarrow> nat \<Rightarrow> u32 \<Rightarrow> trap + tdm_sample_buffer_t" where
  "channel_write b l c v =
     (if l < TDM_MAX_PORTS \<and> c < TDM_MAX_CHANS then Inr (b(l := (b l)(c := v)))
      else Inl Out_of_bounds)"

text \<open>
  The two \<^verbatim>\<open>tdm_sample_double_buffer_t\<close> locals of \<^verbatim>\<open>tdm_main_loop\<close> are \<open>In_s\<close> and
  \<open>Out_s\<close>; a \<^verbatim>\<open>tdm_sample_buffer_t *\<close> is the double buffer it points into and the
  index of the element of \<^verbatim>\<open>buffer[2]\<close>.
\<close>

datatype dbuf = In_s | Out_s

type_synonym buf_ptr = "dbuf \<times> nat"

text \<open>
  The callbacks receive the application data and return it updated. \<^verbatim>\<open>init\<close> fills the
  configuration it is handed; \<^verbatim>\<open>process\<close> is handed both sample buffers by pointer and
  may write either.
\<close>

record 'a tdm_callback_group_t =
  init :: "'a \<Rightarrow> tdm_config_t \<Rightarrow> 'a \<times> tdm_config_t"
  restart_check :: "'a \<Rightarrow> 'a \<times> tdm_restart_t"
  process :: "'a \<Rightarrow> u32 \<Rightarrow> u32 \<Rightarrow> u32 \<Rightarrow> u32 \<Rightarrow> tdm_sample_buffer_t \<Rightarrow> tdm_sample_buffer_t
                \<Rightarrow> 'a \<times> tdm_sample_buffer_t \<times> tdm_sample_buffer_t"

text \<open>
  Every call into the port and clock library and every callback is logged in order, and
  so is every entry into \<^verbatim>\<open>commit_buffers\<close> and \<^verbatim>\<open>preload_data\<close>.
  \<open>Port_in p w\<close> logs the word \<open>w\<close> read from \<open>p\<close>, \<open>Port_out_at_time p t w\<close> the
  word \<open>w\<close> queued on \<open>p\<close> for the port time \<open>t\<close>, \<open>Call_process rx tx\<close> the two
  pointers passed.
\<close>

datatype event =
    Clock_enable xclock_t
  | Port_reset port_t
  | Clock_set_source_port xclock_t port_t
  | Port_set_clock port_t xclock_t
  | Port_enable port_t
  | Port_start_buffered port_t nat
  | Port_clear_buffer port_t
  | Port_out port_t u32
  | Port_in port_t u32
  | Port_out_at_time port_t u32 u32
  | Port_set_trigger_time port_t u32
  | Port_clear_trigger_time port_t
  | Port_in_when_pinseq port_t u32
  | Port_set_invert port_t
  | Port_set_no_invert port_t
  | Clock_start xclock_t
  | Triggerable_setup_interrupt_callback port_t
  | Triggerable_enable_trigger port_t
  | Triggerable_disable_trigger port_t
  | Interrupt_mask_all
  | Interrupt_unmask_all
  | Call_init
  | Call_restart_check tdm_restart_t
  | Call_process buf_ptr buf_ptr
  | Enter_commit_buffers
  | Enter_preload_data

text \<open>
  The machine state: the fields of \<^verbatim>\<open>tdm_slave_loop_args_t\<close> and
  \<^verbatim>\<open>tdm_interrupt_data_t\<close>, the locals of \<^verbatim>\<open>tdm_main_loop\<close>, the function-static
  \<^verbatim>\<open>current_buf_no\<close> of \<^verbatim>\<open>commit_buffers\<close>, the store \<open>mem\<close> holding \<^verbatim>\<open>in_s\<close> and
  \<^verbatim>\<open>out_s\<close>, and the hardware: each port's timestamp register \<open>ptime\<close>, the frame-sync
  edges (\<open>fsync_edge k\<close> is the port time of the \<open>k\<close>-th awaited edge) and the words
  arriving on the input ports (\<open>din p k\<close> is the \<open>k\<close>-th word read from \<open>p\<close>).
\<close>

record 'a tdm_state =
  tdm_cbg :: "'a tdm_callback_group_t"
  p_dout :: "nat \<Rightarrow> port_t"
  num_out :: u32
  p_din :: "nat \<Rightarrow> port_t"
  num_in :: u32
  num_chans :: u32
  num_data_bits :: u32
  frame_len :: u32
  p_bclk :: port_t
  p_fsync :: port_t
  bclk :: xclock_t
  num_bclk_cycles_offset :: u32
  working_in_buffer :: buf_ptr
  working_out_buffer :: buf_ptr
  fsync_time :: u32
  first_time :: bool
  app_data :: 'a
  tdm_config :: tdm_config_t
  safe_in_buffer :: buf_ptr
  safe_out_buffer :: buf_ptr
  restart :: tdm_restart_t
  mem :: "dbuf \<Rightarrow> nat \<Rightarrow> tdm_sample_buffer_t"
  current_buf_no :: "8 word"
  ptime :: "port_t \<Rightarrow> u32"
  waits :: nat
  reads :: "port_t \<Rightarrow> nat"
  fsync_edge :: "nat \<Rightarrow> u32"
  din :: "port_t \<Rightarrow> nat \<Rightarrow> u32"
  trace :: "event list"

definition emit :: "event \<Rightarrow> 'a tdm_state \<Rightarrow> 'a tdm_state" where
  "emit e st = st\<lparr>trace := trace st @ [e]\<rparr>"

definition deref :: "'a tdm_state \<Rightarrow> buf_ptr \<Rightarrow> trap + tdm_sample_buffer_t" where
  "deref st p = (if snd p < 2 then Inr (mem st (fst p) (snd p)) else Inl Out_of_bounds)"

definition store :: "buf_ptr \<Rightarrow> tdm_sample_buffer_t \<Rightarrow> 'a tdm_state \<Rightarrow> 'a tdm_state" where
  "store p b st = st\<lparr>mem := (mem st)(fst p := (mem st (fst p))(snd p := b))\<rparr>"

section \<open>The port library, as the driver uses it\<close>

text \<open>
  Modelled from the spec: the port and clock library (\<^verbatim>\<open>xcore/port.h\<close>,
  \<^verbatim>\<open>xcore/triggerable.h\<close>) is not part of the repository. Section 6 of the
  specification lists what it provides: setting the time at which a port triggers, reading the
  last trigger timestamp, an unbuffered wait for a level on a port that returns the
  timestamp of the transition, reading a word, writing a word at a given time. A port
  that triggers at the time it was set to holds that time in its timestamp register.
\<close>

definition port_set_trigger_time :: "port_t \<Rightarrow> u32 \<Rightarrow> 'a tdm_state \<Rightarrow> 'a tdm_state" where
  "port_set_trigger_time p t st = emit (Port_set_trigger_time p t) (st\<lparr>ptime := (ptime st)(p := t)\<rparr>)"

definition port_get_trigger_time :: "port_t \<Rightarrow> 'a tdm_state \<Rightarrow> u32" where
  "port_get_trigger_time p st = ptime st p"

definition port_in :: "port_t \<Rightarrow> 'a tdm_state \<Rightarrow> u32 \<times> 'a tdm_state" where
  "port_in p st =
     (let w = din st p (reads st p)
      in (w, emit (Port_in p w) (st\<lparr>reads := (reads st)(p := Suc (reads st p))\<rparr>)))"

definition port_in_when_pinseq :: "port_t \<Rightarrow> u32 \<Rightarrow> 'a tdm_state \<Rightarrow> 'a tdm_state" where
  "port_in_when_pinseq p v st =
     emit (Port_in_when_pinseq p v)
       (st\<lparr>ptime := (ptime st)(p := fsync_edge st (waits st)), waits := Suc (waits st)\<rparr>)"

section \<open>The bit packer\<close>

text \<open>
  \<^verbatim>\<open>zip d, e, s\<close> interleaves the chunks of \<open>2 ^ s\<close> bits of its two operands into a
  64-bit value, the chunks of \<open>d\<close> in the odd places, and leaves the upper half in \<open>d\<close>
  and the lower half in \<open>e\<close>; \<^verbatim>\<open>unzip\<close> is the converse on the 64-bit value \<open>d:e\<close>;
  \<^verbatim>\<open>bitrev\<close> reverses the 32 bits of a word. The comments on the macros in the source
  fix the operand order: \<^verbatim>\<open>OUT16\<close> of \<^verbatim>\<open>X = ABCD, Y = EFGH\<close> leaves \<^verbatim>\<open>Y = bitrev(CDGH)\<close>.
\<close>

definition bitrev :: "u32 \<Rightarrow> u32" where
  "bitrev w = word_reverse w"

definition chunk :: "nat \<Rightarrow> nat \<Rightarrow> 64 word \<Rightarrow> 64 word" where
  "chunk s i t = take_bit (2 ^ s) (drop_bit (i * 2 ^ s) t)"

definition zip64 :: "u32 \<Rightarrow> u32 \<Rightarrow> nat \<Rightarrow> 64 word" where
  "zip64 d e s =
     fold (\<lambda>i acc. acc OR push_bit ((2 * i + 1) * 2 ^ s) (chunk s i (ucast d))
                        OR push_bit (2 * i * 2 ^ s) (chunk s i (ucast e)))
          [0 ..< 32 div 2 ^ s] 0"

definition zip_insn :: "u32 \<Rightarrow> u32 \<Rightarrow> nat \<Rightarrow> u32 \<times> u32" where
  "zip_insn d e s = (let t = zip64 d e s in (ucast (drop_bit 32 t), ucast t))"

definition unzip_insn :: "u32 \<Rightarrow> u32 \<Rightarrow> nat \<Rightarrow> u32 \<times> u32" where
  "unzip_insn d e s =
     (let t = push_bit 32 (ucast d) OR ucast e :: 64 word;
          odds = fold (\<lambda>i acc. acc OR push_bit (i * 2 ^ s) (chunk s (2 * i + 1) t))
                   [0 ..< 32 div 2 ^ s] 0;
          evens = fold (\<lambda>i acc. acc OR push_bit (i * 2 ^ s) (chunk s (2 * i) t))
                   [0 ..< 32 div 2 ^ s] 0
      in (ucast odds, ucast evens))"

text \<open>\<^verbatim>\<open>OUT16(X, Y)\<close>: \<^verbatim>\<open>zip %0, %1, 4; bitrev %1, %1\<close> with \<^verbatim>\<open>%0 = X\<close>, \<^verbatim>\<open>%1 = Y\<close>.\<close>

definition OUT16 :: "u32 \<Rightarrow> u32 \<Rightarrow> u32 \<times> u32" where
  "OUT16 X Y = (let (X1, Y1) = zip_insn X Y 4 in (X1, bitrev Y1))"

text \<open>\<^verbatim>\<open>IN16(X, Y)\<close>: \<^verbatim>\<open>bitrev %1, %1; unzip %0, %1, 4\<close>.\<close>

definition IN16 :: "u32 \<Rightarrow> u32 \<Rightarrow> u32 \<times> u32" where
  "IN16 X Y = unzip_insn X (bitrev Y) 4"

section \<open>The engine\<close>

text \<open>
  A \<^verbatim>\<open>for\<close> loop over the lines \<open>i, i + 1, ...\<close> with \<open>n\<close> iterations left; the body
  says whether it ended in \<^verbatim>\<open>break\<close>.
\<close>

datatype flow = Continue | Break

fun for_lines :: "(nat \<Rightarrow> 's \<Rightarrow> trap + flow \<times> 's) \<Rightarrow> nat \<Rightarrow> nat \<Rightarrow> 's \<Rightarrow> trap + 's" where
  "for_lines body i 0 s = Inr s"
| "for_lines body i (Suc n) s =
     (case body i s of
        Inl e \<Rightarrow> Inl e
      | Inr (Break, s') \<Rightarrow> Inr s'
      | Inr (Continue, s') \<Rightarrow> for_lines body (Suc i) n s')"

definition commit_buffers :: "dbuf \<Rightarrow> dbuf \<Rightarrow> 'a tdm_state \<Rightarrow> 'a tdm_state" where
  "commit_buffers in_buffer out_buffer st =
     (let st1 = emit Enter_commit_buffers st;
          st2 = st1\<lparr>working_in_buffer := (in_buffer, unat (current_buf_no st1))\<rparr>;
          st3 = st2\<lparr>working_out_buffer := (out_buffer, unat (current_buf_no st2))\<rparr>;
          st4 = st3\<lparr>current_buf_no := current_buf_no st3 XOR 1\<rparr>;
          st5 = st4\<lparr>safe_in_buffer := (in_buffer, unat (current_buf_no st4))\<rparr>
      in st5\<lparr>safe_out_buffer := (out_buffer, unat (current_buf_no st5))\<rparr>)"

definition tdm_slave_init_ports :: "'a tdm_state \<Rightarrow> 'a tdm_state" where
  "tdm_slave_init_ports st =
     (let st1 = emit (Port_set_clock (p_fsync st) (bclk st))
                  (emit (Port_enable (p_fsync st))
                  (emit (Port_set_clock (p_bclk st) (bclk st))
                  (emit (Clock_set_source_port (bclk st) (p_bclk st))
                  (emit (Port_reset (p_bclk st))
                  (emit (Clock_enable (bclk st)) st)))));
          st2 = fold (\<lambda>output_line s.
                    emit (Port_out (p_dout s output_line) 0)
                      (emit (Port_clear_buffer (p_dout s output_line))
                      (emit (Port_set_clock (p_dout s output_line) (bclk s))
                      (emit (Port_start_buffered (p_dout s output_line) 32) s))))
                  [0 ..< unat (num_out st1)] st1
      in fold (\<lambda>input_line s.
                 emit (Port_clear_buffer (p_din s input_line))
                   (emit (Port_set_clock (p_din s input_line) (bclk s))
                   (emit (Port_start_buffered (p_din s input_line) 32) s)))
              [0 ..< unat (num_in st2)] st2)"

definition write_working_in :: "nat \<Rightarrow> nat \<Rightarrow> u32 \<Rightarrow> 'a tdm_state \<Rightarrow> trap + 'a tdm_state" where
  "write_working_in l c v st =
     (case deref st (working_in_buffer st) of
        Inl e \<Rightarrow> Inl e
      | Inr b \<Rightarrow>
          (case channel_write b l c v of
             Inl e \<Rightarrow> Inl e
           | Inr b' \<Rightarrow> Inr (store (working_in_buffer st) b' st)))"

definition read_working_out :: "nat \<Rightarrow> nat \<Rightarrow> 'a tdm_state \<Rightarrow> trap + u32" where
  "read_working_out l c st =
     (case deref st (working_out_buffer st) of
        Inl e \<Rightarrow> Inl e
      | Inr b \<Rightarrow> channel_read b l c)"

text \<open>
  \<^verbatim>\<open>tdm_isr\<close> interrupts the main loop at the time the bit-clock port triggers. It is a
  function on the state it shares with the main loop, and what is proved of it holds for
  a firing in any state. The body of its loop ends in \<^verbatim>\<open>break\<close>.
\<close>

definition tdm_isr_line :: "nat \<Rightarrow> 'a tdm_state \<Rightarrow> trap + flow \<times> 'a tdm_state" where
  "tdm_isr_line in_line st =
     (let d0 = 0;
          (d1, st1) = port_in (p_din st in_line) st;
          (d0, d1) = IN16 d0 d1
      in case write_working_in in_line 0 d0 st1 of
           Inl e \<Rightarrow> Inl e
         | Inr st2 \<Rightarrow>
             (case write_working_in in_line 1 d1 st2 of
                Inl e \<Rightarrow> Inl e
              | Inr st3 \<Rightarrow> Inr (Break, st3)))"

definition tdm_isr :: "'a tdm_state \<Rightarrow> trap + 'a tdm_state" where
  "tdm_isr st =
     (let st1 = emit (Triggerable_disable_trigger (p_bclk st)) st;
          now = port_get_trigger_time (p_bclk st1) st1;
          st2 = emit (Port_clear_trigger_time (p_bclk st1)) st1
      in case for_lines tdm_isr_line 0 (unat (num_in st2)) st2 of
           Inl e \<Rightarrow> Inl e
         | Inr st3 \<Rightarrow>
             Inr (emit (Triggerable_enable_trigger (p_bclk st3))
                    (port_set_trigger_time (p_bclk st3) (now + frame_len st3) st3)))"

definition preload_line :: "nat \<Rightarrow> 'a tdm_state \<Rightarrow> trap + flow \<times> 'a tdm_state" where
  "preload_line out_line st =
     (case read_working_out out_line 1 st of
        Inl e \<Rightarrow> Inl e
      | Inr out \<Rightarrow>
          (case read_working_out out_line 0 st of
             Inl e \<Rightarrow> Inl e
           | Inr tmp \<Rightarrow>
               (let (tmp, out) = OUT16 tmp out
                in Inr (Continue,
                     emit (Port_out_at_time (p_dout st out_line)
                             (fsync_time st + frame_len st + num_bclk_cycles_offset st) out) st))))"

definition preload_data :: "'a tdm_state \<Rightarrow> trap + 'a tdm_state" where
  "preload_data st =
     (let st1 = emit Enter_preload_data st
      in for_lines preload_line 0 (unat (num_out st1)) st1)"

definition hold_for_frame_sync :: "port_t \<Rightarrow> 'a tdm_state \<Rightarrow> u32 \<times> 'a tdm_state" where
  "hold_for_frame_sync p st =
     (let st1 = port_in_when_pinseq p 1 st in (port_get_trigger_time p st1, st1))"

definition call_process :: "'a tdm_state \<Rightarrow> trap + 'a tdm_state" where
  "call_process st =
     (case deref st (safe_in_buffer st) of
        Inl e \<Rightarrow> Inl e
      | Inr rx \<Rightarrow>
          (case deref st (safe_out_buffer st) of
             Inl e \<Rightarrow> Inl e
           | Inr tx \<Rightarrow>
               (let (a, rx', tx') =
                      process (tdm_cbg st) (app_data st) (num_out st) (num_in st)
                        (num_chans st) (num_data_bits st) rx tx
                in Inr (store (safe_out_buffer st) tx'
                         (store (safe_in_buffer st) rx'
                           (emit (Call_process (safe_in_buffer st) (safe_out_buffer st))
                              (st\<lparr>app_data := a\<rparr>)))))))"

text \<open>
  The body of the outer loop of \<^verbatim>\<open>tdm_main_loop\<close> up to the inner loop, in the order of
  the source: the callback \<^verbatim>\<open>init\<close>, the polarity and the offset (\<open>init_config\<close>), the
  call of \<^verbatim>\<open>process\<close> guarded by \<^verbatim>\<open>num_out > 0\<close> (\<open>init_prime\<close>), the commit, the wait
  for frame sync, the arming of the interrupt and of the ports (\<open>init_arm\<close>), and the first
  preload.
\<close>

definition arm_inputs :: "'a tdm_state \<Rightarrow> 'a tdm_state" where
  "arm_inputs st =
     fold (\<lambda>input_line s.
             port_set_trigger_time (p_din s input_line)
               (fsync_time s + frame_len s + num_bclk_cycles_offset s + TDM_PORT_BUFFER_BITS)
               (emit (Port_clear_buffer (p_din s input_line)) s))
          [0 ..< unat (num_in st)] st"

definition clear_outputs :: "'a tdm_state \<Rightarrow> 'a tdm_state" where
  "clear_outputs st =
     fold (\<lambda>out_line s. emit (Port_clear_buffer (p_dout s out_line)) s)
          [0 ..< unat (num_out st)] st"

definition init_config :: "'a tdm_state \<Rightarrow> 'a tdm_state" where
  "init_config st =
     (let st1 = emit Interrupt_mask_all st;
          (a, cfg) = init (tdm_cbg st1) (app_data st1) (tdm_config st1);
          st2 = emit Call_init (st1\<lparr>app_data := a, tdm_config := cfg\<rparr>);
          st3 = (if slave_bclk_polarity (tdm_config st2) = TDM_SLAVE_SAMPLE_ON_BCLK_FALLING
                 then emit (Port_set_invert (p_bclk st2)) st2
                 else emit (Port_set_no_invert (p_bclk st2)) st2)
      in st3\<lparr>num_bclk_cycles_offset := offset (tdm_config st3)\<rparr>)"

definition init_prime :: "'a tdm_state \<Rightarrow> trap + 'a tdm_state" where
  "init_prime st =
     (let st4 = init_config st
      in if 0 < num_out st4 then call_process st4 else Inr st4)"

definition init_arm :: "'a tdm_state \<Rightarrow> 'a tdm_state" where
  "init_arm st5 =
     (let st6 = commit_buffers In_s Out_s st5;
          st7 = emit (Clock_start (bclk st6)) (emit (Port_clear_buffer (p_fsync st6)) st6);
          (t, st8) = hold_for_frame_sync (p_fsync st7) st7;
          st9 = st8\<lparr>fsync_time := t\<rparr>;
          st10 = emit (Triggerable_setup_interrupt_callback (p_bclk st9)) st9;
          st11 = port_set_trigger_time (p_bclk st10)
                   (fsync_time st10 + frame_len st10 + num_bclk_cycles_offset st10
                      + TDM_PORT_BUFFER_BITS) st10;
          st12 = emit Interrupt_unmask_all (emit (Triggerable_enable_trigger (p_bclk st11)) st11)
      in clear_outputs (arm_inputs st12))"

definition init_phase :: "'a tdm_state \<Rightarrow> trap + 'a tdm_state" where
  "init_phase st =
     (case init_prime st of
        Inl e \<Rightarrow> Inl e
      | Inr st5 \<Rightarrow> preload_data (init_arm st5))"

text \<open>
  The body of the inner loop, one frame: the wait for frame sync and the callback
  \<^verbatim>\<open>restart_check\<close>, then \<^verbatim>\<open>process\<close>, the commit and the preload.
\<close>

definition frame_check :: "'a tdm_state \<Rightarrow> 'a tdm_state" where
  "frame_check st =
     (let (t, st1) = hold_for_frame_sync (p_fsync st) st;
          st2 = st1\<lparr>fsync_time := t\<rparr>;
          (a, r) = restart_check (tdm_cbg st2) (app_data st2)
      in emit (Call_restart_check r) (st2\<lparr>app_data := a, restart := r\<rparr>))"

definition frame_body :: "'a tdm_state \<Rightarrow> trap + 'a tdm_state" where
  "frame_body st =
     (case call_process (frame_check st) of
        Inl e \<Rightarrow> Inl e
      | Inr st4 \<Rightarrow> preload_data (commit_buffers In_s Out_s st4))"

text \<open>
  The two loops may run forever, so they take fuel: one unit for each iteration of either
  loop. A run ends because the loops were left (\<open>Returned\<close>), because a trap stopped it,
  or because the fuel ran out; the state reached is returned in each case.
\<close>

datatype outcome = Returned | Trapped trap | Out_of_fuel

fun running_loop :: "nat \<Rightarrow> 'a tdm_state \<Rightarrow> outcome \<times> 'a tdm_state" where
  "running_loop 0 st =
     (if restart st = TDM_NO_RESTART then (Out_of_fuel, st) else (Returned, st))"
| "running_loop (Suc n) st =
     (if restart st = TDM_NO_RESTART then
        (case frame_body st of
           Inl e \<Rightarrow> (Trapped e, st)
         | Inr st' \<Rightarrow> running_loop n st')
      else (Returned, st))"

fun outer_loop :: "nat \<Rightarrow> 'a tdm_state \<Rightarrow> outcome \<times> 'a tdm_state" where
  "outer_loop 0 st =
     (if restart st \<noteq> TDM_SHUTDOWN then (Out_of_fuel, st) else (Returned, st))"
| "outer_loop (Suc n) st =
     (if restart st \<noteq> TDM_SHUTDOWN then
        (case init_phase st of
           Inl e \<Rightarrow> (Trapped e, st)
         | Inr st1 \<Rightarrow>
             (case running_loop n st1 of
                (Returned, st2) \<Rightarrow> outer_loop n st2
              | (r, st2) \<Rightarrow> (r, st2)))
      else (Returned, st))"

text \<open>
  A call of \<^verbatim>\<open>tdm_slave\<close>: the arguments, the application data, the hardware, and
  what the call finds in the static \<^verbatim>\<open>current_buf_no\<close> of \<^verbatim>\<open>commit_buffers\<close>. That
  variable belongs to the program, not to the call: it is 0 when the program starts,
  every commit XORs it with 1 and nothing else writes it, and it keeps its value when
  \<^verbatim>\<open>tdm_slave\<close> returns. So a call finds 0 or 1 there, and \<open>buf_no_flipped\<close> says that
  it finds 1, which is the case when the earlier calls of \<^verbatim>\<open>tdm_slave\<close> in the program
  made an odd number of commits.

  The state at the call: the locals get the values \<^verbatim>\<open>tdm_main_loop\<close> gives them before
  its loop, at every call: everything zeroed, \<^verbatim>\<open>first_time\<close> set, the working pointers
  at \<^verbatim>\<open>buffer[1]\<close> and the safe pointers at \<^verbatim>\<open>buffer[0]\<close>. The static is not among
  them.
\<close>

record 'a tdm_slave_call =
  arg_tdm_cbg :: "'a tdm_callback_group_t"
  arg_p_dout :: "nat \<Rightarrow> port_t"
  arg_num_out :: u32
  arg_p_din :: "nat \<Rightarrow> port_t"
  arg_num_in :: u32
  arg_num_chans :: u32
  arg_num_data_bits :: u32
  arg_p_bclk :: port_t
  arg_p_fsync :: port_t
  arg_bclk :: xclock_t
  the_app_data :: 'a
  hw_ptime :: "port_t \<Rightarrow> u32"
  hw_fsync_edge :: "nat \<Rightarrow> u32"
  hw_din :: "port_t \<Rightarrow> nat \<Rightarrow> u32"
  buf_no_flipped :: bool

definition entry_state :: "'a tdm_slave_call \<Rightarrow> 'a tdm_state" where
  "entry_state c =
     \<lparr> tdm_cbg = arg_tdm_cbg c, p_dout = arg_p_dout c, num_out = arg_num_out c,
       p_din = arg_p_din c, num_in = arg_num_in c, num_chans = arg_num_chans c,
       num_data_bits = arg_num_data_bits c,
       frame_len = arg_num_chans c * arg_num_data_bits c,
       p_bclk = arg_p_bclk c, p_fsync = arg_p_fsync c, bclk = arg_bclk c,
       num_bclk_cycles_offset = 0,
       working_in_buffer = (In_s, 1), working_out_buffer = (Out_s, 1),
       fsync_time = 0, first_time = True,
       app_data = the_app_data c,
       tdm_config = \<lparr> mclk_bclk_ratio = 0,
                      slave_bclk_polarity = TDM_SLAVE_SAMPLE_ON_BCLK_RISING, offset = 0 \<rparr>,
       safe_in_buffer = (In_s, 0), safe_out_buffer = (Out_s, 0),
       restart = TDM_NO_RESTART,
       mem = (\<lambda>d i l ch. 0),
       current_buf_no = (if buf_no_flipped c then 1 else 0),
       ptime = hw_ptime c, waits = 0, reads = (\<lambda>p. 0),
       fsync_edge = hw_fsync_edge c, din = hw_din c,
       trace = [] \<rparr>"

definition tdm_main_loop :: "nat \<Rightarrow> 'a tdm_state \<Rightarrow> outcome \<times> 'a tdm_state" where
  "tdm_main_loop n st = outer_loop n st"

definition tdm_slave :: "nat \<Rightarrow> 'a tdm_slave_call \<Rightarrow> outcome \<times> 'a tdm_state" where
  "tdm_slave n c =
     (if \<not> unat (arg_num_chans c) \<le> TDM_MAX_CHANS then (Trapped Assertion_failed, entry_state c)
      else if \<not> unat (arg_num_in c) \<le> TDM_MAX_PORTS then (Trapped Assertion_failed, entry_state c)
      else if \<not> unat (arg_num_out c) \<le> TDM_MAX_PORTS then (Trapped Assertion_failed, entry_state c)
      else tdm_main_loop n (tdm_slave_init_ports (entry_state c)))"

text \<open>
  The call \<open>c\<close> made after an earlier call of \<^verbatim>\<open>tdm_slave\<close> has ended in the state \<open>S\<close>:
  it finds the static as that call left it.
\<close>

definition next_call :: "'a tdm_state \<Rightarrow> 'a tdm_slave_call \<Rightarrow> 'a tdm_slave_call" where
  "next_call S c = c\<lparr>buf_no_flipped := (current_buf_no S = 1)\<rparr>"

section \<open>Closed forms used in the statements\<close>

text \<open>
  The event that iteration \<open>l\<close> of the loop of \<^verbatim>\<open>preload_data\<close> logs: the port of the
  line, the time given to \<^verbatim>\<open>port_out_at_time\<close>, and the word \<^verbatim>\<open>out\<close> left by
  \<^verbatim>\<open>OUT16(tmp, out)\<close> with \<^verbatim>\<open>tmp\<close> read from channel 0 and \<^verbatim>\<open>out\<close> from channel 1.
\<close>

definition preload_event :: "'a tdm_state \<Rightarrow> nat \<Rightarrow> event" where
  "preload_event st l =
     Port_out_at_time (p_dout st l)
       (fsync_time st + frame_len st + num_bclk_cycles_offset st)
       (snd (OUT16 (mem st (fst (working_out_buffer st)) (snd (working_out_buffer st)) l 0)
                   (mem st (fst (working_out_buffer st)) (snd (working_out_buffer st)) l 1)))"

text \<open>
  What holds of the pointers throughout a call of \<^verbatim>\<open>tdm_slave\<close>: the selector is 0 or 1,
  each pointer is at one of the two elements of its own double buffer, working and safe
  are at different elements, and the index is the same in both directions.
\<close>

definition pointers_ok :: "'a tdm_state \<Rightarrow> bool" where
  "pointers_ok st \<longleftrightarrow>
     (current_buf_no st = 0 \<or> current_buf_no st = 1) \<and>
     fst (working_in_buffer st) = In_s \<and> fst (safe_in_buffer st) = In_s \<and>
     fst (working_out_buffer st) = Out_s \<and> fst (safe_out_buffer st) = Out_s \<and>
     snd (working_in_buffer st) < 2 \<and> snd (safe_in_buffer st) < 2 \<and>
     snd (working_in_buffer st) \<noteq> snd (safe_in_buffer st) \<and>
     snd (working_out_buffer st) = snd (working_in_buffer st) \<and>
     snd (safe_out_buffer st) = snd (safe_in_buffer st)"

text \<open>
  What \<^verbatim>\<open>commit_buffers\<close> establishes and keeps true: the selector is 0 or 1, the safe
  pointers are at \<^verbatim>\<open>buffer[current_buf_no]\<close> and the working pointers at the other
  element.
\<close>

definition selector_ok :: "'a tdm_state \<Rightarrow> bool" where
  "selector_ok st \<longleftrightarrow>
     (current_buf_no st = 0 \<or> current_buf_no st = 1) \<and>
     safe_in_buffer st = (In_s, unat (current_buf_no st)) \<and>
     safe_out_buffer st = (Out_s, unat (current_buf_no st)) \<and>
     working_in_buffer st = (In_s, unat (current_buf_no st XOR 1)) \<and>
     working_out_buffer st = (Out_s, unat (current_buf_no st XOR 1))"

text \<open>Successive firings of the interrupt, with nothing else touching the bit-clock port.\<close>

fun fire :: "nat \<Rightarrow> 'a tdm_state \<Rightarrow> trap + 'a tdm_state" where
  "fire 0 st = Inr st"
| "fire (Suc k) st = (case tdm_isr st of Inl e \<Rightarrow> Inl e | Inr st' \<Rightarrow> fire k st')"

text \<open>Reading the log: the callbacks, the calls of \<^verbatim>\<open>process\<close>, the words read.\<close>

fun is_callback :: "event \<Rightarrow> bool" where
  "is_callback Call_init = True"
| "is_callback (Call_restart_check r) = True"
| "is_callback (Call_process rx tx) = True"
| "is_callback e = False"

fun is_process :: "event \<Rightarrow> bool" where
  "is_process (Call_process rx tx) = True"
| "is_process e = False"

fun is_port_in :: "event \<Rightarrow> bool" where
  "is_port_in (Port_in p w) = True"
| "is_port_in e = False"

text \<open>
  The events that carry a port time: an output queued for a time, and a trigger time set
  on a port.
\<close>

fun is_timed :: "event \<Rightarrow> bool" where
  "is_timed (Port_out_at_time p t w) = True"
| "is_timed (Port_set_trigger_time p t) = True"
| "is_timed e = False"

text \<open>An event with its port time moved \<open>N\<close> bit-clock cycles later; any other event unchanged.\<close>

fun shift_time :: "u32 \<Rightarrow> event \<Rightarrow> event" where
  "shift_time N (Port_out_at_time p t w) = Port_out_at_time p (t + N) w"
| "shift_time N (Port_set_trigger_time p t) = Port_set_trigger_time p (t + N)"
| "shift_time N e = e"

section \<open>Two runs that differ in the configured offset\<close>

text \<open>
  The driver takes the offset from the configuration that the callback \<^verbatim>\<open>init\<close> fills
  (\<^verbatim>\<open>args->num_bclk_cycles_offset = tdm_config.offset\<close>). \<open>with_offset N cbg\<close> is the
  application \<open>cbg\<close> made to configure the offset \<open>N\<close>: its \<^verbatim>\<open>init\<close> does what the
  \<^verbatim>\<open>init\<close> of \<open>cbg\<close> does and then writes \<open>N\<close> into the field. The \<^verbatim>\<open>init\<close> of \<open>cbg\<close>
  is handed the configuration with the offset cleared, so that after a restart it cannot
  react to the offset of the pass before. The applications \<open>with_offset N cbg\<close> for
  different \<open>N\<close> differ in the configured offset and in nothing else.
\<close>

definition with_offset :: "u32 \<Rightarrow> 'a tdm_callback_group_t \<Rightarrow> 'a tdm_callback_group_t" where
  "with_offset N cbg =
     cbg\<lparr>init := (\<lambda>a cfg. (fst (init cbg a (cfg\<lparr>offset := 0\<rparr>)),
                            (snd (init cbg a (cfg\<lparr>offset := 0\<rparr>)))\<lparr>offset := N\<rparr>))\<rparr>"

text \<open>The call \<open>c\<close> with its application configuring the offset \<open>N\<close>.\<close>

definition offset_run :: "u32 \<Rightarrow> 'a tdm_slave_call \<Rightarrow> 'a tdm_slave_call" where
  "offset_run N c = c\<lparr>arg_tdm_cbg := with_offset N (arg_tdm_cbg c)\<rparr>"

text \<open>
  Two states that differ in nothing but the offset: \<open>sN\<close> belongs to the run of
  \<open>with_offset N B\<close> and \<open>s0\<close> to the run of \<open>with_offset 0 B\<close>, the log of \<open>sN\<close> is
  the log of \<open>s0\<close> with every port time moved \<open>N\<close> later, and every field is the same
  in both, except for those that hold the offset or a time computed from it: the
  timestamp register of a port holds the same time in both or the time \<open>N\<close> later in
  \<open>sN\<close>, and \<^verbatim>\<open>num_bclk_cycles_offset\<close> and the field \<^verbatim>\<open>offset\<close> of the configuration
  are left open.
\<close>

definition same_but_offset ::
  "u32 \<Rightarrow> 'a tdm_callback_group_t \<Rightarrow> 'a tdm_state \<Rightarrow> 'a tdm_state \<Rightarrow> bool" where
  "same_but_offset N B sN s0 \<longleftrightarrow>
     tdm_cbg sN = with_offset N B \<and> tdm_cbg s0 = with_offset 0 B \<and>
     trace sN = map (shift_time N) (trace s0) \<and>
     (tdm_config sN)\<lparr>offset := 0\<rparr> = (tdm_config s0)\<lparr>offset := 0\<rparr> \<and>
     p_dout sN = p_dout s0 \<and> num_out sN = num_out s0 \<and>
     p_din sN = p_din s0 \<and> num_in sN = num_in s0 \<and>
     num_chans sN = num_chans s0 \<and> num_data_bits sN = num_data_bits s0 \<and>
     frame_len sN = frame_len s0 \<and>
     p_bclk sN = p_bclk s0 \<and> p_fsync sN = p_fsync s0 \<and> bclk sN = bclk s0 \<and>
     working_in_buffer sN = working_in_buffer s0 \<and>
     working_out_buffer sN = working_out_buffer s0 \<and>
     fsync_time sN = fsync_time s0 \<and> first_time sN = first_time s0 \<and>
     app_data sN = app_data s0 \<and>
     safe_in_buffer sN = safe_in_buffer s0 \<and> safe_out_buffer sN = safe_out_buffer s0 \<and>
     restart sN = restart s0 \<and> mem sN = mem s0 \<and>
     current_buf_no sN = current_buf_no s0 \<and>
     waits sN = waits s0 \<and> reads sN = reads s0 \<and>
     fsync_edge sN = fsync_edge s0 \<and> din sN = din s0 \<and>
     (\<forall>p. ptime sN p = ptime s0 p \<or> ptime sN p = ptime s0 p + N)"

section \<open>An application, after the test program\<close>

text \<open>
  The callbacks of \<^verbatim>\<open>tdm_slave_tx16_test.c\<close>, with the frame counter \<^verbatim>\<open>cnt\<close> as the
  application data: \<^verbatim>\<open>tdm_init\<close> sets the offset and the rising polarity,
  \<^verbatim>\<open>tdm_process\<close> copies the test pattern (\<^verbatim>\<open>0x89ABCDEF\<close> on the odd channels,
  \<^verbatim>\<open>0x12345678\<close> on the even ones) into line 0 of the buffer to send, and
  \<^verbatim>\<open>tdm_restart_check\<close> counts the frames. Where the test leaves the program at frame
  \<open>frames\<close>, this application returns \<open>signal\<close>.
\<close>

definition test_data :: "nat \<Rightarrow> u32" where
  "test_data j = (if odd j then 0x89ABCDEF else 0x12345678)"

definition test_cbg :: "u32 \<Rightarrow> nat \<Rightarrow> tdm_restart_t \<Rightarrow> nat tdm_callback_group_t" where
  "test_cbg tx_offset frames signal =
     \<lparr> init = (\<lambda>cnt cfg. (cnt, cfg\<lparr>slave_bclk_polarity := TDM_SLAVE_SAMPLE_ON_BCLK_RISING,
                                    offset := tx_offset\<rparr>)),
       restart_check = (\<lambda>cnt. (Suc cnt, if Suc cnt = frames then signal else TDM_NO_RESTART)),
       process = (\<lambda>cnt n_out n_in n_chans n_bits rx tx.
                    (cnt, rx, tx(0 := (\<lambda>j. if j < unat n_chans then test_data j else tx 0 j)))) \<rparr>"

text \<open>
  A call of \<^verbatim>\<open>tdm_slave\<close> with 16 channels of 16 bits as in the test. Every input port
  delivers the word that the pattern packs to, and the \<open>k\<close>-th frame-sync edge comes at
  port time \<open>first_edge + 256 * k\<close>. It is the first call of the program.
\<close>

definition test_call ::
  "nat tdm_callback_group_t \<Rightarrow> u32 \<Rightarrow> u32 \<Rightarrow> u32 \<Rightarrow> u32 \<Rightarrow> nat tdm_slave_call" where
  "test_call cbg n_out n_in n_chans first_edge =
     \<lparr> arg_tdm_cbg = cbg, arg_p_dout = (\<lambda>l. 10 + l), arg_num_out = n_out,
       arg_p_din = (\<lambda>l. 20 + l), arg_num_in = n_in,
       arg_num_chans = n_chans, arg_num_data_bits = 16,
       arg_p_bclk = 2, arg_p_fsync = 3, arg_bclk = 0,
       the_app_data = 0,
       hw_ptime = (\<lambda>p. 0),
       hw_fsync_edge = (\<lambda>k. first_edge + 256 * of_nat k),
       hw_din = (\<lambda>p k. snd (OUT16 0x12345678 0x89ABCDEF)),
       buf_no_flipped = False \<rparr>"

text \<open>
  The test's configuration: one output line, one input line, 16 channels, offset 0; the
  first frame-sync edge comes at port time \<open>first_edge\<close> and the application gives
  \<open>signal\<close> at the first frame.
\<close>

definition test_run :: "tdm_restart_t \<Rightarrow> u32 \<Rightarrow> nat tdm_slave_call" where
  "test_run signal first_edge = test_call (test_cbg 0 1 signal) 1 1 16 first_edge"

text \<open>The same with two input lines, on the ports 20 and 21.\<close>

definition two_line_run :: "nat tdm_slave_call" where
  "two_line_run = test_call (test_cbg 0 1 TDM_NO_RESTART) 1 2 16 100"

text \<open>
  The same configuration with an application that leaves at the second frame: a call
  that returns after three commits.
\<close>

definition two_frame_run :: "nat tdm_slave_call" where
  "two_frame_run = test_call (test_cbg 0 2 TDM_SHUTDOWN) 1 1 16 100"

section \<open>The bit packer: the 16-bit forms\<close>

lemma upt_0_2: "[0..<2] = [0, Suc 0]"
  by (simp add: upt_rec)

lemma zip_insn_16:
  "zip_insn d e 4 = (push_bit 16 (drop_bit 16 d) OR drop_bit 16 e,
                     push_bit 16 (take_bit 16 d) OR take_bit 16 e)"
proof -
  have hi: "ucast (drop_bit 32 (zip64 d e 4)) = push_bit 16 (drop_bit 16 d) OR drop_bit 16 e"
    unfolding zip64_def chunk_def
    by (simp add: upt_0_2, rule bit_eqI) (auto simp add: bit_simps dest: bit_imp_le_length)
  have lo: "ucast (zip64 d e 4) = push_bit 16 (take_bit 16 d) OR take_bit 16 e"
    unfolding zip64_def chunk_def
    by (simp add: upt_0_2, rule bit_eqI) (auto simp add: bit_simps dest: bit_imp_le_length)
  show ?thesis
    by (simp add: zip_insn_def Let_def hi lo)
qed

lemma unzip_insn_16:
  "unzip_insn d e 4 = (push_bit 16 (drop_bit 16 d) OR drop_bit 16 e,
                       push_bit 16 (take_bit 16 d) OR take_bit 16 e)"
  unfolding unzip_insn_def chunk_def Let_def prod.inject
  apply (simp add: upt_0_2)
  apply (rule conjI)
   apply (rule bit_eqI)
   apply (auto simp add: bit_simps dest: bit_imp_le_length)[1]
  apply (rule bit_eqI)
  apply (auto simp add: bit_simps dest: bit_imp_le_length)[1]
  done

lemma bitrev_bitrev: "bitrev (bitrev w) = w"
  by (simp add: bitrev_def)

lemma OUT16_eq:
  "OUT16 X Y = (push_bit 16 (drop_bit 16 X) OR drop_bit 16 Y,
                bitrev (push_bit 16 (take_bit 16 X) OR take_bit 16 Y))"
  by (simp add: OUT16_def zip_insn_16)

lemma IN16_eq:
  "IN16 X Y = (push_bit 16 (drop_bit 16 X) OR drop_bit 16 (bitrev Y),
               push_bit 16 (take_bit 16 X) OR take_bit 16 (bitrev Y))"
  by (simp add: IN16_def unzip_insn_16)

lemma hi_of_pair: "drop_bit 16 (push_bit 16 (take_bit 16 a) OR take_bit 16 b :: u32) = take_bit 16 a"
  by (rule bit_eqI) (auto simp add: bit_simps dest: bit_imp_le_length)

lemma lo_of_pair: "take_bit 16 (push_bit 16 (take_bit 16 a) OR take_bit 16 b :: u32) = take_bit 16 b"
  by (rule bit_eqI) (auto simp add: bit_simps dest: bit_imp_le_length)

section \<open>The output preload\<close>

lemma preload_line_eq:
  "preload_line l st =
     (if snd (working_out_buffer st) < 2 \<and> l < TDM_MAX_PORTS
      then Inr (Continue, st\<lparr>trace := trace st @ [preload_event st l]\<rparr>)
      else Inl Out_of_bounds)"
  by (simp add: preload_line_def read_working_out_def deref_def channel_read_def
      TDM_MAX_CHANS_def preload_event_def emit_def split: prod.splits)

lemma preload_event_trace [simp]: "preload_event (st\<lparr>trace := t\<rparr>) = preload_event st"
  by (rule ext) (simp add: preload_event_def)

lemma for_lines_preload:
  "for_lines preload_line i n s =
     (if n = 0 \<or> (snd (working_out_buffer s) < 2 \<and> i + n \<le> TDM_MAX_PORTS)
      then Inr (s\<lparr>trace := trace s @ map (preload_event s) [i ..< i + n]\<rparr>)
      else Inl Out_of_bounds)"
proof (induction n arbitrary: i s)
  case 0
  show ?case by simp
next
  case (Suc n)
  show ?case
  proof (cases "snd (working_out_buffer s) < 2 \<and> i < TDM_MAX_PORTS")
    case False
    then have "preload_line i s = Inl Out_of_bounds"
      by (simp add: preload_line_eq)
    with False show ?thesis
      by auto
  next
    case True
    define s' where "s' = s\<lparr>trace := trace s @ [preload_event s i]\<rparr>"
    from True have body: "preload_line i s = Inr (Continue, s')"
      by (simp add: preload_line_eq s'_def)
    have "for_lines preload_line i (Suc n) s = for_lines preload_line (Suc i) n s'"
      by (simp add: body)
    also have "\<dots> = (if n = 0 \<or> (snd (working_out_buffer s') < 2 \<and> Suc i + n \<le> TDM_MAX_PORTS)
      then Inr (s'\<lparr>trace := trace s' @ map (preload_event s') [Suc i ..< Suc i + n]\<rparr>)
      else Inl Out_of_bounds)"
      by (rule Suc.IH)
    finally have step: "for_lines preload_line i (Suc n) s =
      (if n = 0 \<or> (snd (working_out_buffer s') < 2 \<and> Suc i + n \<le> TDM_MAX_PORTS)
      then Inr (s'\<lparr>trace := trace s' @ map (preload_event s') [Suc i ..< Suc i + n]\<rparr>)
      else Inl Out_of_bounds)" .
    have upt: "[i ..< i + Suc n] = i # [Suc i ..< Suc i + n]"
      by (simp add: upt_rec [of i])
    have n0: "n = 0 \<Longrightarrow> i + Suc n \<le> TDM_MAX_PORTS"
      using True by simp
    show ?thesis
      unfolding step upt using True n0 by (simp add: s'_def)
  qed
qed

lemma preload_data_eq:
  "preload_data st =
     (if num_out st = 0 \<or> (snd (working_out_buffer st) < 2 \<and> unat (num_out st) \<le> TDM_MAX_PORTS)
      then Inr (st\<lparr>trace := trace st @ Enter_preload_data #
                     map (preload_event st) [0 ..< unat (num_out st)]\<rparr>)
      else Inl Out_of_bounds)"
  by (simp add: preload_data_def emit_def for_lines_preload unat_eq_0 Let_def)

section \<open>The interrupt handler\<close>

lemma tdm_isr_line_eq:
  "tdm_isr_line l st =
     (if snd (working_in_buffer st) < 2 \<and> l < TDM_MAX_PORTS
      then Inr (Break,
        st\<lparr>mem := (mem st)(fst (working_in_buffer st) :=
                 (mem st (fst (working_in_buffer st)))(snd (working_in_buffer st) :=
                   (mem st (fst (working_in_buffer st)) (snd (working_in_buffer st)))(l :=
                     (mem st (fst (working_in_buffer st)) (snd (working_in_buffer st)) l)
                       (0 := fst (IN16 0 (din st (p_din st l) (reads st (p_din st l)))),
                        1 := snd (IN16 0 (din st (p_din st l) (reads st (p_din st l)))))))),
           reads := (reads st)(p_din st l := Suc (reads st (p_din st l))),
           trace := trace st @ [Port_in (p_din st l) (din st (p_din st l) (reads st (p_din st l)))]\<rparr>)
      else Inl Out_of_bounds)"
  by (simp add: tdm_isr_line_def port_in_def write_working_in_def deref_def channel_write_def
      store_def emit_def TDM_MAX_CHANS_def Let_def split: prod.splits)

lemma for_lines_tdm_isr_line:
  "for_lines tdm_isr_line i (Suc n) s = map_sum id snd (tdm_isr_line i s)"
  by (simp add: tdm_isr_line_eq)

lemma tdm_isr_no_input:
  "num_in st = 0 \<Longrightarrow>
   tdm_isr st =
     Inr (st\<lparr>ptime := (ptime st)(p_bclk st := ptime st (p_bclk st) + frame_len st),
             trace := trace st @
               [Triggerable_disable_trigger (p_bclk st), Port_clear_trigger_time (p_bclk st),
                Port_set_trigger_time (p_bclk st) (ptime st (p_bclk st) + frame_len st),
                Triggerable_enable_trigger (p_bclk st)]\<rparr>)"
  by (simp add: tdm_isr_def emit_def port_get_trigger_time_def port_set_trigger_time_def Let_def)

lemma tdm_isr_input:
  "num_in st \<noteq> 0 \<Longrightarrow>
   tdm_isr st =
     (if snd (working_in_buffer st) < 2 then
     Inr (st\<lparr>mem := (mem st)(fst (working_in_buffer st) :=
                 (mem st (fst (working_in_buffer st)))(snd (working_in_buffer st) :=
                   (mem st (fst (working_in_buffer st)) (snd (working_in_buffer st)))(0 :=
                     (mem st (fst (working_in_buffer st)) (snd (working_in_buffer st)) 0)
                       (0 := fst (IN16 0 (din st (p_din st 0) (reads st (p_din st 0)))),
                        1 := snd (IN16 0 (din st (p_din st 0) (reads st (p_din st 0)))))))),
           reads := (reads st)(p_din st 0 := Suc (reads st (p_din st 0))),
           ptime := (ptime st)(p_bclk st := ptime st (p_bclk st) + frame_len st),
           trace := trace st @
               [Triggerable_disable_trigger (p_bclk st), Port_clear_trigger_time (p_bclk st),
                Port_in (p_din st 0) (din st (p_din st 0) (reads st (p_din st 0))),
                Port_set_trigger_time (p_bclk st) (ptime st (p_bclk st) + frame_len st),
                Triggerable_enable_trigger (p_bclk st)]\<rparr>)
     else Inl Out_of_bounds)"
proof -
  assume "num_in st \<noteq> 0"
  then obtain k where k: "unat (num_in st) = Suc k"
    by (metis not0_implies_Suc unat_eq_0)
  show ?thesis
    by (simp add: tdm_isr_def emit_def port_get_trigger_time_def port_set_trigger_time_def
        Let_def k for_lines_tdm_isr_line tdm_isr_line_eq TDM_MAX_PORTS_def)
qed

section \<open>The buffer rotation\<close>

lemma commit_buffers_eq:
  "commit_buffers ib ob st =
     st\<lparr>working_in_buffer := (ib, unat (current_buf_no st)),
        working_out_buffer := (ob, unat (current_buf_no st)),
        safe_in_buffer := (ib, unat (current_buf_no st XOR 1)),
        safe_out_buffer := (ob, unat (current_buf_no st XOR 1)),
        current_buf_no := current_buf_no st XOR 1,
        trace := trace st @ [Enter_commit_buffers]\<rparr>"
  by (simp add: commit_buffers_def emit_def Let_def)

lemma selector_ok_entry: "\<not> buf_no_flipped c \<Longrightarrow> selector_ok (entry_state c)"
  by (simp add: selector_ok_def entry_state_def)

lemma pointers_ok_entry: "pointers_ok (entry_state c)"
  by (simp add: pointers_ok_def entry_state_def)

lemma selector_ok_pointers_ok: "selector_ok st \<Longrightarrow> pointers_ok st"
  by (auto simp add: selector_ok_def pointers_ok_def)

lemma selector_ok_commit: "pointers_ok st \<Longrightarrow> selector_ok (commit_buffers In_s Out_s st)"
  by (auto simp add: selector_ok_def pointers_ok_def commit_buffers_eq)

lemma pointers_ok_commits: "pointers_ok ((commit_buffers In_s Out_s ^^ n) (entry_state c))"
  by (induction n) (simp_all add: pointers_ok_entry selector_ok_commit selector_ok_pointers_ok)

lemma selector_ok_commits:
  "0 < n \<or> \<not> buf_no_flipped c \<Longrightarrow> selector_ok ((commit_buffers In_s Out_s ^^ n) (entry_state c))"
  by (cases n) (simp_all add: selector_ok_entry selector_ok_commit pointers_ok_commits)

lemma commit_buffers_step:
  assumes "pointers_ok st"
  shows "fst (working_in_buffer (commit_buffers In_s Out_s st)) = In_s"
    and "fst (safe_in_buffer (commit_buffers In_s Out_s st)) = In_s"
    and "fst (working_out_buffer (commit_buffers In_s Out_s st)) = Out_s"
    and "fst (safe_out_buffer (commit_buffers In_s Out_s st)) = Out_s"
    and "snd (working_in_buffer (commit_buffers In_s Out_s st)) < 2"
    and "snd (safe_in_buffer (commit_buffers In_s Out_s st)) < 2"
    and "snd (working_out_buffer (commit_buffers In_s Out_s st)) < 2"
    and "snd (safe_out_buffer (commit_buffers In_s Out_s st)) < 2"
    and "working_in_buffer (commit_buffers In_s Out_s st) \<noteq> safe_in_buffer (commit_buffers In_s Out_s st)"
    and "working_out_buffer (commit_buffers In_s Out_s st) \<noteq> safe_out_buffer (commit_buffers In_s Out_s st)"
    and "snd (working_in_buffer (commit_buffers In_s Out_s st)) = snd (working_out_buffer (commit_buffers In_s Out_s st))"
    and "snd (safe_in_buffer (commit_buffers In_s Out_s st)) = snd (safe_out_buffer (commit_buffers In_s Out_s st))"
    and "current_buf_no (commit_buffers In_s Out_s st) = current_buf_no st XOR 1"
    and "current_buf_no (commit_buffers In_s Out_s st) \<noteq> current_buf_no st"
  using assms by (auto simp add: pointers_ok_def commit_buffers_eq)

lemma commit_buffers_swap:
  assumes "selector_ok st"
  shows "working_in_buffer (commit_buffers In_s Out_s st) = safe_in_buffer st"
    and "safe_in_buffer (commit_buffers In_s Out_s st) = working_in_buffer st"
    and "working_out_buffer (commit_buffers In_s Out_s st) = safe_out_buffer st"
    and "safe_out_buffer (commit_buffers In_s Out_s st) = working_out_buffer st"
  using assms by (auto simp add: selector_ok_def commit_buffers_eq)

section \<open>The loops over the lines, and the callbacks\<close>

lemma fold_emits:
  assumes body: "\<And>l s. body l s = s\<lparr>trace := trace s @ ev s l\<rparr>"
      and ev: "\<And>s t. ev (s\<lparr>trace := t\<rparr>) = ev s"
  shows "fold body ls st = st\<lparr>trace := trace st @ concat (map (ev st) ls)\<rparr>"
proof (induction ls arbitrary: st)
  case Nil
  show ?case by simp
next
  case (Cons l ls)
  have "fold body (l # ls) st = fold body ls (st\<lparr>trace := trace st @ ev st l\<rparr>)"
    by (simp add: body)
  also have "\<dots> = st\<lparr>trace := trace st @ ev st l @ concat (map (ev st) ls)\<rparr>"
    by (simp add: Cons.IH ev)
  finally show ?case by simp
qed

lemma clear_outputs_eq:
  "clear_outputs st =
     st\<lparr>trace := trace st @ map (\<lambda>l. Port_clear_buffer (p_dout st l)) [0 ..< unat (num_out st)]\<rparr>"
proof -
  have "clear_outputs st =
     st\<lparr>trace := trace st @ concat (map (\<lambda>l. [Port_clear_buffer (p_dout st l)]) [0 ..< unat (num_out st)])\<rparr>"
    unfolding clear_outputs_def
    by (rule fold_emits [where ev = "\<lambda>s l. [Port_clear_buffer (p_dout s l)]"])
       (simp_all add: emit_def)
  then show ?thesis
    by (simp add: concat_map_singleton)
qed

lemma fold_arms:
  assumes body: "\<And>l s. body l s =
                   s\<lparr>ptime := (ptime s)(pp s l := tt s), trace := trace s @ ev s l\<rparr>"
      and pp: "\<And>s f t. pp (s\<lparr>ptime := f, trace := t\<rparr>) = pp s"
      and tt: "\<And>s f t. tt (s\<lparr>ptime := f, trace := t\<rparr>) = tt s"
      and ev: "\<And>s f t. ev (s\<lparr>ptime := f, trace := t\<rparr>) = ev s"
  shows "fold body ls st =
           st\<lparr>ptime := fold (\<lambda>l f. f(pp st l := tt st)) ls (ptime st),
              trace := trace st @ concat (map (ev st) ls)\<rparr>"
proof (induction ls arbitrary: st)
  case Nil
  show ?case by simp
next
  case (Cons l ls)
  define st1 where "st1 = st\<lparr>ptime := (ptime st)(pp st l := tt st), trace := trace st @ ev st l\<rparr>"
  have same: "pp st1 = pp st" "tt st1 = tt st" "ev st1 = ev st"
    by (simp_all add: st1_def pp tt ev)
  have fields: "ptime st1 = (ptime st)(pp st l := tt st)" "trace st1 = trace st @ ev st l"
    by (simp_all add: st1_def)
  have upd: "st1\<lparr>ptime := A, trace := B\<rparr> = st\<lparr>ptime := A, trace := B\<rparr>" for A B
    by (simp add: st1_def)
  have "fold body (l # ls) st = fold body ls st1"
    by (simp add: body st1_def)
  also have "\<dots> = st1\<lparr>ptime := fold (\<lambda>l f. f(pp st1 l := tt st1)) ls (ptime st1),
                       trace := trace st1 @ concat (map (ev st1) ls)\<rparr>"
    by (rule Cons.IH)
  also have "\<dots> = st\<lparr>ptime := fold (\<lambda>l f. f(pp st l := tt st)) ls ((ptime st)(pp st l := tt st)),
                      trace := (trace st @ ev st l) @ concat (map (ev st) ls)\<rparr>"
    unfolding same fields by (rule upd)
  finally show ?case
    by (simp del: fun_upd_apply)
qed

lemma arm_inputs_eq:
  "arm_inputs st =
     st\<lparr>ptime := fold (\<lambda>l f. f(p_din st l :=
                fsync_time st + frame_len st + num_bclk_cycles_offset st + TDM_PORT_BUFFER_BITS))
              [0 ..< unat (num_in st)] (ptime st),
        trace := trace st @ concat (map (\<lambda>l.
           [Port_clear_buffer (p_din st l),
            Port_set_trigger_time (p_din st l)
              (fsync_time st + frame_len st + num_bclk_cycles_offset st + TDM_PORT_BUFFER_BITS)])
           [0 ..< unat (num_in st)])\<rparr>"
  unfolding arm_inputs_def
  by (rule fold_arms [where pp = p_din
        and tt = "\<lambda>s. fsync_time s + frame_len s + num_bclk_cycles_offset s + TDM_PORT_BUFFER_BITS"
        and ev = "\<lambda>s l. [Port_clear_buffer (p_din s l),
            Port_set_trigger_time (p_din s l)
              (fsync_time s + frame_len s + num_bclk_cycles_offset s + TDM_PORT_BUFFER_BITS)]"])
     (simp_all add: port_set_trigger_time_def emit_def)

lemma fold_upd_same:
  "fold (\<lambda>l f. f(p l := T)) ls f0 q = (if q \<in> p ` set ls then T else f0 q)"
  by (induction ls arbitrary: f0) auto

lemma tdm_slave_init_ports_eq:
  "tdm_slave_init_ports st =
     st\<lparr>trace := trace st @
        [Clock_enable (bclk st), Port_reset (p_bclk st),
         Clock_set_source_port (bclk st) (p_bclk st), Port_set_clock (p_bclk st) (bclk st),
         Port_enable (p_fsync st), Port_set_clock (p_fsync st) (bclk st)] @
        concat (map (\<lambda>l. [Port_start_buffered (p_dout st l) 32, Port_set_clock (p_dout st l) (bclk st),
                           Port_clear_buffer (p_dout st l), Port_out (p_dout st l) 0])
                  [0 ..< unat (num_out st)]) @
        concat (map (\<lambda>l. [Port_start_buffered (p_din st l) 32, Port_set_clock (p_din st l) (bclk st),
                           Port_clear_buffer (p_din st l)])
                  [0 ..< unat (num_in st)])\<rparr>"
proof -
  have outs: "\<And>s. fold (\<lambda>output_line s.
                    emit (Port_out (p_dout s output_line) 0)
                      (emit (Port_clear_buffer (p_dout s output_line))
                      (emit (Port_set_clock (p_dout s output_line) (bclk s))
                      (emit (Port_start_buffered (p_dout s output_line) 32) s))))
                  ls s =
      s\<lparr>trace := trace s @ concat (map (\<lambda>l. [Port_start_buffered (p_dout s l) 32,
              Port_set_clock (p_dout s l) (bclk s), Port_clear_buffer (p_dout s l),
              Port_out (p_dout s l) 0]) ls)\<rparr>" for ls
    by (rule fold_emits [where ev = "\<lambda>s l. [Port_start_buffered (p_dout s l) 32,
              Port_set_clock (p_dout s l) (bclk s), Port_clear_buffer (p_dout s l),
              Port_out (p_dout s l) 0]"]) (simp_all add: emit_def)
  have ins: "\<And>s. fold (\<lambda>input_line s.
                 emit (Port_clear_buffer (p_din s input_line))
                   (emit (Port_set_clock (p_din s input_line) (bclk s))
                   (emit (Port_start_buffered (p_din s input_line) 32) s)))
              ls s =
      s\<lparr>trace := trace s @ concat (map (\<lambda>l. [Port_start_buffered (p_din s l) 32,
              Port_set_clock (p_din s l) (bclk s), Port_clear_buffer (p_din s l)]) ls)\<rparr>" for ls
    by (rule fold_emits [where ev = "\<lambda>s l. [Port_start_buffered (p_din s l) 32,
              Port_set_clock (p_din s l) (bclk s), Port_clear_buffer (p_din s l)]"])
       (simp_all add: emit_def)
  show ?thesis
    unfolding tdm_slave_init_ports_def Let_def outs ins
    by (simp add: emit_def)
qed

lemma call_process_trap:
  "\<not> (snd (safe_in_buffer st) < 2 \<and> snd (safe_out_buffer st) < 2) \<Longrightarrow>
   call_process st = Inl Out_of_bounds"
  by (auto simp add: call_process_def deref_def)

lemma call_process_shape:
  assumes "call_process st = Inr st'"
  shows "st' = st\<lparr>app_data := app_data st', mem := mem st',
                  trace := trace st @ [Call_process (safe_in_buffer st) (safe_out_buffer st)]\<rparr>"
  using assms
  by (auto simp add: call_process_def deref_def store_def emit_def Let_def
      split: if_splits prod.splits)

lemma call_process_ok:
  "snd (safe_in_buffer st) < 2 \<Longrightarrow> snd (safe_out_buffer st) < 2 \<Longrightarrow>
   \<exists>st'. call_process st = Inr st'"
  by (simp add: call_process_def deref_def Let_def split: prod.splits)

section \<open>The start of a run\<close>

lemma init_config_eq:
  "init_config st =
     st\<lparr>num_bclk_cycles_offset := offset (snd (init (tdm_cbg st) (app_data st) (tdm_config st))),
        app_data := fst (init (tdm_cbg st) (app_data st) (tdm_config st)),
        tdm_config := snd (init (tdm_cbg st) (app_data st) (tdm_config st)),
        trace := trace st @
          [Interrupt_mask_all, Call_init,
           if slave_bclk_polarity (snd (init (tdm_cbg st) (app_data st) (tdm_config st)))
                = TDM_SLAVE_SAMPLE_ON_BCLK_FALLING
           then Port_set_invert (p_bclk st) else Port_set_no_invert (p_bclk st)]\<rparr>"
  by (rule tdm_state.equality) (simp_all add: init_config_def emit_def Let_def split: prod.splits)

lemma init_prime_shape:
  assumes "init_prime st = Inr st'"
  shows "st' = st\<lparr>num_bclk_cycles_offset := offset (snd (init (tdm_cbg st) (app_data st) (tdm_config st))),
                  app_data := app_data st',
                  tdm_config := snd (init (tdm_cbg st) (app_data st) (tdm_config st)),
                  mem := mem st',
                  trace := trace st @
                    [Interrupt_mask_all, Call_init,
                     if slave_bclk_polarity (snd (init (tdm_cbg st) (app_data st) (tdm_config st)))
                          = TDM_SLAVE_SAMPLE_ON_BCLK_FALLING
                     then Port_set_invert (p_bclk st) else Port_set_no_invert (p_bclk st)] @
                    (if 0 < num_out st
                     then [Call_process (safe_in_buffer st) (safe_out_buffer st)] else [])\<rparr>"
proof (cases "0 < num_out st")
  case False
  with assms have "st' = init_config st"
    by (simp add: init_prime_def Let_def init_config_eq)
  with False show ?thesis
    by (simp add: init_config_eq)
next
  case True
  with assms have "call_process (init_config st) = Inr st'"
    by (simp add: init_prime_def Let_def init_config_eq)
  then obtain a M where st': "st' = (init_config st)\<lparr>app_data := a, mem := M,
      trace := trace (init_config st) @
        [Call_process (safe_in_buffer (init_config st)) (safe_out_buffer (init_config st))]\<rparr>"
    using call_process_shape by blast
  show ?thesis
    unfolding st' using True by (simp add: init_config_eq)
qed

lemma init_prime_ok:
  "snd (safe_in_buffer st) < 2 \<Longrightarrow> snd (safe_out_buffer st) < 2 \<Longrightarrow> \<exists>st'. init_prime st = Inr st'"
  by (simp add: init_prime_def init_config_eq Let_def call_process_def deref_def split: prod.splits)

lemma init_arm_eq:
  "init_arm st =
     st\<lparr>working_in_buffer := (In_s, unat (current_buf_no st)),
        working_out_buffer := (Out_s, unat (current_buf_no st)),
        fsync_time := fsync_edge st (waits st),
        safe_in_buffer := (In_s, unat (current_buf_no st XOR 1)),
        safe_out_buffer := (Out_s, unat (current_buf_no st XOR 1)),
        current_buf_no := current_buf_no st XOR 1,
        ptime := fold (\<lambda>l f. f(p_din st l :=
                   fsync_edge st (waits st) + frame_len st + num_bclk_cycles_offset st
                     + TDM_PORT_BUFFER_BITS))
                 [0 ..< unat (num_in st)]
                 ((ptime st)(p_fsync st := fsync_edge st (waits st),
                             p_bclk st := fsync_edge st (waits st) + frame_len st
                                + num_bclk_cycles_offset st + TDM_PORT_BUFFER_BITS)),
        waits := Suc (waits st),
        trace := trace st @
          [Enter_commit_buffers, Port_clear_buffer (p_fsync st), Clock_start (bclk st),
           Port_in_when_pinseq (p_fsync st) 1,
           Triggerable_setup_interrupt_callback (p_bclk st),
           Port_set_trigger_time (p_bclk st)
             (fsync_edge st (waits st) + frame_len st + num_bclk_cycles_offset st
                + TDM_PORT_BUFFER_BITS),
           Triggerable_enable_trigger (p_bclk st), Interrupt_unmask_all] @
          concat (map (\<lambda>l. [Port_clear_buffer (p_din st l),
                             Port_set_trigger_time (p_din st l)
                               (fsync_edge st (waits st) + frame_len st + num_bclk_cycles_offset st
                                  + TDM_PORT_BUFFER_BITS)])
                    [0 ..< unat (num_in st)]) @
          map (\<lambda>l. Port_clear_buffer (p_dout st l)) [0 ..< unat (num_out st)]\<rparr>"
  by (rule tdm_state.equality)
     (simp_all add: init_arm_def commit_buffers_eq hold_for_frame_sync_def port_in_when_pinseq_def
      port_get_trigger_time_def port_set_trigger_time_def arm_inputs_eq clear_outputs_eq
      emit_def Let_def)

section \<open>One frame, and one start\<close>

lemma frame_check_eq:
  "frame_check st =
     st\<lparr>fsync_time := fsync_edge st (waits st),
        app_data := fst (restart_check (tdm_cbg st) (app_data st)),
        restart := snd (restart_check (tdm_cbg st) (app_data st)),
        ptime := (ptime st)(p_fsync st := fsync_edge st (waits st)),
        waits := Suc (waits st),
        trace := trace st @
          [Port_in_when_pinseq (p_fsync st) 1,
           Call_restart_check (snd (restart_check (tdm_cbg st) (app_data st)))]\<rparr>"
  by (rule tdm_state.equality)
     (simp_all add: frame_check_def hold_for_frame_sync_def port_in_when_pinseq_def
        port_get_trigger_time_def emit_def Let_def split: prod.splits)

lemma init_phase_shape:
  assumes "init_phase st = Inr st'"
  obtains st5 where "init_prime st = Inr st5"
    and "st' = (init_arm st5)\<lparr>trace := trace (init_arm st5) @ Enter_preload_data #
                  map (preload_event (init_arm st5)) [0 ..< unat (num_out st5)]\<rparr>"
proof -
  from assms obtain st5 where p: "init_prime st = Inr st5"
    and q: "preload_data (init_arm st5) = Inr st'"
    by (auto simp add: init_phase_def split: sum.splits)
  from q have "st' = (init_arm st5)\<lparr>trace := trace (init_arm st5) @ Enter_preload_data #
                  map (preload_event (init_arm st5)) [0 ..< unat (num_out (init_arm st5))]\<rparr>"
    by (simp add: preload_data_eq split: if_splits)
  then have "st' = (init_arm st5)\<lparr>trace := trace (init_arm st5) @ Enter_preload_data #
                  map (preload_event (init_arm st5)) [0 ..< unat (num_out st5)]\<rparr>"
    by (simp add: init_arm_eq)
  with p show ?thesis
    by (rule that)
qed

lemma frame_body_shape:
  assumes "frame_body st = Inr st'"
  obtains a M where
    "st' = (commit_buffers In_s Out_s ((frame_check st)\<lparr>app_data := a, mem := M,
              trace := trace (frame_check st) @
                [Call_process (safe_in_buffer st) (safe_out_buffer st)]\<rparr>))
           \<lparr>trace := trace st @
              [Port_in_when_pinseq (p_fsync st) 1,
               Call_restart_check (snd (restart_check (tdm_cbg st) (app_data st))),
               Call_process (safe_in_buffer st) (safe_out_buffer st),
               Enter_commit_buffers, Enter_preload_data] @
              map (preload_event st') [0 ..< unat (num_out st)]\<rparr>"
proof -
  from assms obtain st4 where p: "call_process (frame_check st) = Inr st4"
    and q: "preload_data (commit_buffers In_s Out_s st4) = Inr st'"
    by (auto simp add: frame_body_def split: sum.splits)
  from p obtain a M where st4: "st4 = (frame_check st)\<lparr>app_data := a, mem := M,
      trace := trace (frame_check st) @
        [Call_process (safe_in_buffer (frame_check st)) (safe_out_buffer (frame_check st))]\<rparr>"
    using call_process_shape by blast
  define st5 where "st5 = commit_buffers In_s Out_s st4"
  from q have st': "st' = st5\<lparr>trace := trace st5 @ Enter_preload_data #
                  map (preload_event st5) [0 ..< unat (num_out st5)]\<rparr>"
    by (simp add: preload_data_eq st5_def split: if_splits)
  have ev: "preload_event st' = preload_event st5"
    unfolding st' by simp
  have "st' = (commit_buffers In_s Out_s ((frame_check st)\<lparr>app_data := a, mem := M,
              trace := trace (frame_check st) @
                [Call_process (safe_in_buffer st) (safe_out_buffer st)]\<rparr>))
           \<lparr>trace := trace st @
              [Port_in_when_pinseq (p_fsync st) 1,
               Call_restart_check (snd (restart_check (tdm_cbg st) (app_data st))),
               Call_process (safe_in_buffer st) (safe_out_buffer st),
               Enter_commit_buffers, Enter_preload_data] @
              map (preload_event st') [0 ..< unat (num_out st)]\<rparr>"
    unfolding ev unfolding st' st5_def st4
    by (simp add: commit_buffers_eq frame_check_eq)
  then show ?thesis
    by (rule that)
qed

lemma selector_ok_ptrs:
  assumes "selector_ok st"
  shows "snd (safe_in_buffer st) < 2" "snd (safe_out_buffer st) < 2"
        "snd (working_in_buffer st) < 2" "snd (working_out_buffer st) < 2"
        "unat (current_buf_no st) < 2"
  using assms by (auto simp add: selector_ok_def)

lemma pointers_ok_ptrs:
  assumes "pointers_ok st"
  shows "snd (safe_in_buffer st) < 2" "snd (safe_out_buffer st) < 2"
        "snd (working_in_buffer st) < 2" "snd (working_out_buffer st) < 2"
        "unat (current_buf_no st) < 2"
  using assms by (auto simp add: pointers_ok_def)

lemma frame_body_ok:
  assumes "pointers_ok st" "unat (num_out st) \<le> TDM_MAX_PORTS"
  shows "\<exists>st'. frame_body st = Inr st'"
proof -
  have "snd (safe_in_buffer (frame_check st)) < 2" "snd (safe_out_buffer (frame_check st)) < 2"
    using pointers_ok_ptrs [OF assms(1)] by (simp_all add: frame_check_eq)
  then obtain st4 where p: "call_process (frame_check st) = Inr st4"
    using call_process_ok by blast
  then obtain a M where st4: "st4 = (frame_check st)\<lparr>app_data := a, mem := M,
      trace := trace (frame_check st) @
        [Call_process (safe_in_buffer (frame_check st)) (safe_out_buffer (frame_check st))]\<rparr>"
    using call_process_shape by blast
  have "snd (working_out_buffer (commit_buffers In_s Out_s st4)) < 2"
       "unat (num_out (commit_buffers In_s Out_s st4)) \<le> TDM_MAX_PORTS"
    using pointers_ok_ptrs [OF assms(1)] assms(2)
    by (simp_all add: st4 commit_buffers_eq frame_check_eq)
  then have "\<exists>st'. preload_data (commit_buffers In_s Out_s st4) = Inr st'"
    by (simp add: preload_data_eq)
  with p show ?thesis
    by (simp add: frame_body_def)
qed

lemma frame_body_keeps:
  assumes "frame_body st = Inr st'"
  shows "num_out st' = num_out st" "num_in st' = num_in st" "frame_len st' = frame_len st"
    and "restart st' = snd (restart_check (tdm_cbg st) (app_data st))"
    and "fsync_time st' = fsync_edge st (waits st)"
    and "num_bclk_cycles_offset st' = num_bclk_cycles_offset st"
    and "tdm_cbg st' = tdm_cbg st"
    and "working_out_buffer st' = (Out_s, unat (current_buf_no st))"
    and "working_in_buffer st' = (In_s, unat (current_buf_no st))"
    and "p_dout st' = p_dout st"
    and "pointers_ok st \<Longrightarrow> selector_ok st'"
proof -
  from assms obtain a M where st': "st' =
      (commit_buffers In_s Out_s ((frame_check st)\<lparr>app_data := a, mem := M,
              trace := trace (frame_check st) @
                [Call_process (safe_in_buffer st) (safe_out_buffer st)]\<rparr>))
           \<lparr>trace := trace st @
              [Port_in_when_pinseq (p_fsync st) 1,
               Call_restart_check (snd (restart_check (tdm_cbg st) (app_data st))),
               Call_process (safe_in_buffer st) (safe_out_buffer st),
               Enter_commit_buffers, Enter_preload_data] @
              map (preload_event st') [0 ..< unat (num_out st)]\<rparr>"
    by (rule frame_body_shape)
  show "num_out st' = num_out st"
    by (subst st') (simp add: commit_buffers_eq frame_check_eq)
  show "num_in st' = num_in st"
    by (subst st') (simp add: commit_buffers_eq frame_check_eq)
  show "frame_len st' = frame_len st"
    by (subst st') (simp add: commit_buffers_eq frame_check_eq)
  show "restart st' = snd (restart_check (tdm_cbg st) (app_data st))"
    by (subst st') (simp add: commit_buffers_eq frame_check_eq)
  show "fsync_time st' = fsync_edge st (waits st)"
    by (subst st') (simp add: commit_buffers_eq frame_check_eq)
  show "num_bclk_cycles_offset st' = num_bclk_cycles_offset st"
    by (subst st') (simp add: commit_buffers_eq frame_check_eq)
  show "tdm_cbg st' = tdm_cbg st"
    by (subst st') (simp add: commit_buffers_eq frame_check_eq)
  show "working_out_buffer st' = (Out_s, unat (current_buf_no st))"
    by (subst st') (simp add: commit_buffers_eq frame_check_eq)
  show "working_in_buffer st' = (In_s, unat (current_buf_no st))"
    by (subst st') (simp add: commit_buffers_eq frame_check_eq)
  show "p_dout st' = p_dout st"
    by (subst st') (simp add: commit_buffers_eq frame_check_eq)
  show "selector_ok st'" if "pointers_ok st"
    using that unfolding selector_ok_def pointers_ok_def
    by (subst (1 2 3 4 5 6 7 8 9 10) st') (auto simp add: commit_buffers_eq frame_check_eq)
qed

lemma frame_body_trace:
  assumes "frame_body st = Inr st'"
  shows "trace st' = trace st @
              [Port_in_when_pinseq (p_fsync st) 1,
               Call_restart_check (snd (restart_check (tdm_cbg st) (app_data st))),
               Call_process (safe_in_buffer st) (safe_out_buffer st),
               Enter_commit_buffers, Enter_preload_data] @
              map (preload_event st') [0 ..< unat (num_out st)]"
proof -
  from assms obtain a M where st': "st' =
      (commit_buffers In_s Out_s ((frame_check st)\<lparr>app_data := a, mem := M,
              trace := trace (frame_check st) @
                [Call_process (safe_in_buffer st) (safe_out_buffer st)]\<rparr>))
           \<lparr>trace := trace st @
              [Port_in_when_pinseq (p_fsync st) 1,
               Call_restart_check (snd (restart_check (tdm_cbg st) (app_data st))),
               Call_process (safe_in_buffer st) (safe_out_buffer st),
               Enter_commit_buffers, Enter_preload_data] @
              map (preload_event st') [0 ..< unat (num_out st)]\<rparr>"
    by (rule frame_body_shape)
  show ?thesis
    by (subst st') simp
qed

lemma init_phase_ok:
  assumes "pointers_ok st" "unat (num_out st) \<le> TDM_MAX_PORTS"
  shows "\<exists>st'. init_phase st = Inr st'"
proof -
  obtain st5 where p: "init_prime st = Inr st5"
    using init_prime_ok pointers_ok_ptrs [OF assms(1)] by blast
  then obtain a M where st5: "st5 =
      st\<lparr>num_bclk_cycles_offset := offset (snd (init (tdm_cbg st) (app_data st) (tdm_config st))),
         app_data := a,
         tdm_config := snd (init (tdm_cbg st) (app_data st) (tdm_config st)),
         mem := M,
         trace := trace st @
           [Interrupt_mask_all, Call_init,
            if slave_bclk_polarity (snd (init (tdm_cbg st) (app_data st) (tdm_config st)))
                 = TDM_SLAVE_SAMPLE_ON_BCLK_FALLING
            then Port_set_invert (p_bclk st) else Port_set_no_invert (p_bclk st)] @
           (if 0 < num_out st
            then [Call_process (safe_in_buffer st) (safe_out_buffer st)] else [])\<rparr>"
    using init_prime_shape by blast
  have "snd (working_out_buffer (init_arm st5)) < 2"
       "unat (num_out (init_arm st5)) \<le> TDM_MAX_PORTS"
    using pointers_ok_ptrs [OF assms(1)] assms(2)
    by (simp_all add: st5 init_arm_eq)
  then have "\<exists>st'. preload_data (init_arm st5) = Inr st'"
    by (simp add: preload_data_eq)
  with p show ?thesis
    by (simp add: init_phase_def)
qed

lemma init_phase_closed:
  assumes "init_phase st = Inr st'"
  obtains a M where
   "st' = (init_arm (st\<lparr>num_bclk_cycles_offset := offset (snd (init (tdm_cbg st) (app_data st) (tdm_config st))),
         app_data := a,
         tdm_config := snd (init (tdm_cbg st) (app_data st) (tdm_config st)),
         mem := M,
         trace := trace st @
           [Interrupt_mask_all, Call_init,
            if slave_bclk_polarity (snd (init (tdm_cbg st) (app_data st) (tdm_config st)))
                 = TDM_SLAVE_SAMPLE_ON_BCLK_FALLING
            then Port_set_invert (p_bclk st) else Port_set_no_invert (p_bclk st)] @
           (if 0 < num_out st
            then [Call_process (safe_in_buffer st) (safe_out_buffer st)] else [])\<rparr>))
       \<lparr>trace := trace st @
           [Interrupt_mask_all, Call_init,
            if slave_bclk_polarity (snd (init (tdm_cbg st) (app_data st) (tdm_config st)))
                 = TDM_SLAVE_SAMPLE_ON_BCLK_FALLING
            then Port_set_invert (p_bclk st) else Port_set_no_invert (p_bclk st)] @
           (if 0 < num_out st
            then [Call_process (safe_in_buffer st) (safe_out_buffer st)] else []) @
           [Enter_commit_buffers, Port_clear_buffer (p_fsync st), Clock_start (bclk st),
            Port_in_when_pinseq (p_fsync st) 1,
            Triggerable_setup_interrupt_callback (p_bclk st),
            Port_set_trigger_time (p_bclk st)
              (fsync_edge st (waits st) + frame_len st
                 + offset (snd (init (tdm_cbg st) (app_data st) (tdm_config st)))
                 + TDM_PORT_BUFFER_BITS),
            Triggerable_enable_trigger (p_bclk st), Interrupt_unmask_all] @
           concat (map (\<lambda>l. [Port_clear_buffer (p_din st l),
                              Port_set_trigger_time (p_din st l)
                                (fsync_edge st (waits st) + frame_len st
                                   + offset (snd (init (tdm_cbg st) (app_data st) (tdm_config st)))
                                   + TDM_PORT_BUFFER_BITS)])
                     [0 ..< unat (num_in st)]) @
           map (\<lambda>l. Port_clear_buffer (p_dout st l)) [0 ..< unat (num_out st)] @
           Enter_preload_data # map (preload_event st') [0 ..< unat (num_out st)]\<rparr>"
proof -
  from assms obtain st5 where p: "init_prime st = Inr st5"
    and st': "st' = (init_arm st5)\<lparr>trace := trace (init_arm st5) @ Enter_preload_data #
                  map (preload_event (init_arm st5)) [0 ..< unat (num_out st5)]\<rparr>"
    by (rule init_phase_shape)
  from p obtain a M where st5: "st5 =
      st\<lparr>num_bclk_cycles_offset := offset (snd (init (tdm_cbg st) (app_data st) (tdm_config st))),
         app_data := a,
         tdm_config := snd (init (tdm_cbg st) (app_data st) (tdm_config st)),
         mem := M,
         trace := trace st @
           [Interrupt_mask_all, Call_init,
            if slave_bclk_polarity (snd (init (tdm_cbg st) (app_data st) (tdm_config st)))
                 = TDM_SLAVE_SAMPLE_ON_BCLK_FALLING
            then Port_set_invert (p_bclk st) else Port_set_no_invert (p_bclk st)] @
           (if 0 < num_out st
            then [Call_process (safe_in_buffer st) (safe_out_buffer st)] else [])\<rparr>"
    using init_prime_shape by blast
  have ev: "preload_event st' = preload_event (init_arm st5)"
    unfolding st' by simp
  show ?thesis
    apply (rule that [where a = a and M = M])
    unfolding ev
    unfolding st'
    unfolding st5
    apply (simp add: init_arm_eq)
    done
qed

lemma init_phase_keeps:
  assumes "init_phase st = Inr st'"
  shows "num_out st' = num_out st"
    and "num_in st' = num_in st"
    and "frame_len st' = frame_len st"
    and "tdm_cbg st' = tdm_cbg st"
    and "restart st' = restart st"
    and "p_bclk st' = p_bclk st"
    and "first_time st' = first_time st"
    and "fsync_time st' = fsync_edge st (waits st)"
    and "tdm_config st' = snd (init (tdm_cbg st) (app_data st) (tdm_config st))"
    and "num_bclk_cycles_offset st' = offset (snd (init (tdm_cbg st) (app_data st) (tdm_config st)))"
    and "ptime st' (p_bclk st) = fsync_edge st (waits st) + frame_len st + offset (snd (init (tdm_cbg st) (app_data st) (tdm_config st))) + TDM_PORT_BUFFER_BITS"
    and "pointers_ok st \<Longrightarrow> selector_ok st'"
proof -
  from assms obtain a M where st': 
   "st' = (init_arm (st\<lparr>num_bclk_cycles_offset := offset (snd (init (tdm_cbg st) (app_data st) (tdm_config st))),
         app_data := a,
         tdm_config := snd (init (tdm_cbg st) (app_data st) (tdm_config st)),
         mem := M,
         trace := trace st @
           [Interrupt_mask_all, Call_init,
            if slave_bclk_polarity (snd (init (tdm_cbg st) (app_data st) (tdm_config st)))
                 = TDM_SLAVE_SAMPLE_ON_BCLK_FALLING
            then Port_set_invert (p_bclk st) else Port_set_no_invert (p_bclk st)] @
           (if 0 < num_out st
            then [Call_process (safe_in_buffer st) (safe_out_buffer st)] else [])\<rparr>))
       \<lparr>trace := trace st @
           [Interrupt_mask_all, Call_init,
            if slave_bclk_polarity (snd (init (tdm_cbg st) (app_data st) (tdm_config st)))
                 = TDM_SLAVE_SAMPLE_ON_BCLK_FALLING
            then Port_set_invert (p_bclk st) else Port_set_no_invert (p_bclk st)] @
           (if 0 < num_out st
            then [Call_process (safe_in_buffer st) (safe_out_buffer st)] else []) @
           [Enter_commit_buffers, Port_clear_buffer (p_fsync st), Clock_start (bclk st),
            Port_in_when_pinseq (p_fsync st) 1,
            Triggerable_setup_interrupt_callback (p_bclk st),
            Port_set_trigger_time (p_bclk st)
              (fsync_edge st (waits st) + frame_len st
                 + offset (snd (init (tdm_cbg st) (app_data st) (tdm_config st)))
                 + TDM_PORT_BUFFER_BITS),
            Triggerable_enable_trigger (p_bclk st), Interrupt_unmask_all] @
           concat (map (\<lambda>l. [Port_clear_buffer (p_din st l),
                              Port_set_trigger_time (p_din st l)
                                (fsync_edge st (waits st) + frame_len st
                                   + offset (snd (init (tdm_cbg st) (app_data st) (tdm_config st)))
                                   + TDM_PORT_BUFFER_BITS)])
                     [0 ..< unat (num_in st)]) @
           map (\<lambda>l. Port_clear_buffer (p_dout st l)) [0 ..< unat (num_out st)] @
           Enter_preload_data # map (preload_event st') [0 ..< unat (num_out st)]\<rparr>"
    by (rule init_phase_closed)
  show "num_out st' = num_out st"
    by (subst st') (simp add: init_arm_eq)
  show "num_in st' = num_in st"
    by (subst st') (simp add: init_arm_eq)
  show "frame_len st' = frame_len st"
    by (subst st') (simp add: init_arm_eq)
  show "tdm_cbg st' = tdm_cbg st"
    by (subst st') (simp add: init_arm_eq)
  show "restart st' = restart st"
    by (subst st') (simp add: init_arm_eq)
  show "p_bclk st' = p_bclk st"
    by (subst st') (simp add: init_arm_eq)
  show "first_time st' = first_time st"
    by (subst st') (simp add: init_arm_eq)
  show "fsync_time st' = fsync_edge st (waits st)"
    by (subst st') (simp add: init_arm_eq)
  show "tdm_config st' = snd (init (tdm_cbg st) (app_data st) (tdm_config st))"
    by (subst st') (simp add: init_arm_eq)
  show "num_bclk_cycles_offset st' = offset (snd (init (tdm_cbg st) (app_data st) (tdm_config st)))"
    by (subst st') (simp add: init_arm_eq)
  show "ptime st' (p_bclk st) = fsync_edge st (waits st) + frame_len st + offset (snd (init (tdm_cbg st) (app_data st) (tdm_config st))) + TDM_PORT_BUFFER_BITS"
    by (subst st') (simp add: init_arm_eq fold_upd_same)
  show "selector_ok st'" if "pointers_ok st"
    using that unfolding selector_ok_def pointers_ok_def
    by (subst (1 2 3 4 5 6 7 8 9 10) st') (auto simp add: init_arm_eq)
qed

lemma init_phase_trace:
  assumes "init_phase st = Inr st'"
  shows "trace st' = trace st @
           [Interrupt_mask_all, Call_init,
            if slave_bclk_polarity (snd (init (tdm_cbg st) (app_data st) (tdm_config st)))
                 = TDM_SLAVE_SAMPLE_ON_BCLK_FALLING
            then Port_set_invert (p_bclk st) else Port_set_no_invert (p_bclk st)] @
           (if 0 < num_out st
            then [Call_process (safe_in_buffer st) (safe_out_buffer st)] else []) @
           [Enter_commit_buffers, Port_clear_buffer (p_fsync st), Clock_start (bclk st),
            Port_in_when_pinseq (p_fsync st) 1,
            Triggerable_setup_interrupt_callback (p_bclk st),
            Port_set_trigger_time (p_bclk st)
              (fsync_edge st (waits st) + frame_len st
                 + offset (snd (init (tdm_cbg st) (app_data st) (tdm_config st)))
                 + TDM_PORT_BUFFER_BITS),
            Triggerable_enable_trigger (p_bclk st), Interrupt_unmask_all] @
           concat (map (\<lambda>l. [Port_clear_buffer (p_din st l),
                              Port_set_trigger_time (p_din st l)
                                (fsync_edge st (waits st) + frame_len st
                                   + offset (snd (init (tdm_cbg st) (app_data st) (tdm_config st)))
                                   + TDM_PORT_BUFFER_BITS)])
                     [0 ..< unat (num_in st)]) @
           map (\<lambda>l. Port_clear_buffer (p_dout st l)) [0 ..< unat (num_out st)] @
           Enter_preload_data # map (preload_event st') [0 ..< unat (num_out st)]"
proof -
  from assms obtain a M where st':
   "st' = (init_arm (st\<lparr>num_bclk_cycles_offset := offset (snd (init (tdm_cbg st) (app_data st) (tdm_config st))),
         app_data := a,
         tdm_config := snd (init (tdm_cbg st) (app_data st) (tdm_config st)),
         mem := M,
         trace := trace st @
           [Interrupt_mask_all, Call_init,
            if slave_bclk_polarity (snd (init (tdm_cbg st) (app_data st) (tdm_config st)))
                 = TDM_SLAVE_SAMPLE_ON_BCLK_FALLING
            then Port_set_invert (p_bclk st) else Port_set_no_invert (p_bclk st)] @
           (if 0 < num_out st
            then [Call_process (safe_in_buffer st) (safe_out_buffer st)] else [])\<rparr>))
       \<lparr>trace := trace st @
           [Interrupt_mask_all, Call_init,
            if slave_bclk_polarity (snd (init (tdm_cbg st) (app_data st) (tdm_config st)))
                 = TDM_SLAVE_SAMPLE_ON_BCLK_FALLING
            then Port_set_invert (p_bclk st) else Port_set_no_invert (p_bclk st)] @
           (if 0 < num_out st
            then [Call_process (safe_in_buffer st) (safe_out_buffer st)] else []) @
           [Enter_commit_buffers, Port_clear_buffer (p_fsync st), Clock_start (bclk st),
            Port_in_when_pinseq (p_fsync st) 1,
            Triggerable_setup_interrupt_callback (p_bclk st),
            Port_set_trigger_time (p_bclk st)
              (fsync_edge st (waits st) + frame_len st
                 + offset (snd (init (tdm_cbg st) (app_data st) (tdm_config st)))
                 + TDM_PORT_BUFFER_BITS),
            Triggerable_enable_trigger (p_bclk st), Interrupt_unmask_all] @
           concat (map (\<lambda>l. [Port_clear_buffer (p_din st l),
                              Port_set_trigger_time (p_din st l)
                                (fsync_edge st (waits st) + frame_len st
                                   + offset (snd (init (tdm_cbg st) (app_data st) (tdm_config st)))
                                   + TDM_PORT_BUFFER_BITS)])
                     [0 ..< unat (num_in st)]) @
           map (\<lambda>l. Port_clear_buffer (p_dout st l)) [0 ..< unat (num_out st)] @
           Enter_preload_data # map (preload_event st') [0 ..< unat (num_out st)]\<rparr>"
    by (rule init_phase_closed)
  show ?thesis
    by (subst st') simp
qed

section \<open>The two loops\<close>

lemma running_loop_inv:
  assumes "pointers_ok st" "unat (num_out st) \<le> TDM_MAX_PORTS"
  shows "(fst (running_loop n st) = Returned \<or> fst (running_loop n st) = Out_of_fuel)
       \<and> pointers_ok (snd (running_loop n st))
       \<and> num_out (snd (running_loop n st)) = num_out st
       \<and> frame_len (snd (running_loop n st)) = frame_len st
       \<and> (fst (running_loop n st) = Returned
            \<longrightarrow> restart (snd (running_loop n st)) \<noteq> TDM_NO_RESTART)"
  using assms
proof (induction n arbitrary: st)
  case 0
  then show ?case by simp
next
  case (Suc n)
  show ?case
  proof (cases "restart st = TDM_NO_RESTART")
    case False
    with Suc.prems show ?thesis by simp
  next
    case True
    from frame_body_ok [OF Suc.prems] obtain st' where fb: "frame_body st = Inr st'"
      by blast
    have "pointers_ok st'" "unat (num_out st') \<le> TDM_MAX_PORTS"
      using frame_body_keeps [OF fb] Suc.prems by (simp_all add: selector_ok_pointers_ok)
    from Suc.IH [OF this] frame_body_keeps(1,3) [OF fb] True fb show ?thesis
      by simp
  qed
qed

lemma outer_loop_inv:
  assumes "pointers_ok st" "unat (num_out st) \<le> TDM_MAX_PORTS"
  shows "(fst (outer_loop n st) = Returned \<or> fst (outer_loop n st) = Out_of_fuel)
       \<and> pointers_ok (snd (outer_loop n st))
       \<and> num_out (snd (outer_loop n st)) = num_out st
       \<and> frame_len (snd (outer_loop n st)) = frame_len st"
  using assms
proof (induction n arbitrary: st)
  case 0
  then show ?case by simp
next
  case (Suc n)
  show ?case
  proof (cases "restart st \<noteq> TDM_SHUTDOWN")
    case False
    with Suc.prems show ?thesis by simp
  next
    case True
    from init_phase_ok [OF Suc.prems] obtain st1 where ip: "init_phase st = Inr st1"
      by blast
    have st1: "pointers_ok st1" "unat (num_out st1) \<le> TDM_MAX_PORTS"
      using init_phase_keeps [OF ip] Suc.prems by (simp_all add: selector_ok_pointers_ok)
    note rl = running_loop_inv [OF st1, of n]
    obtain r st2 where run: "running_loop n st1 = (r, st2)"
      by (cases "running_loop n st1")
    show ?thesis
    proof (cases "r = Returned")
      case False
      with rl run True ip init_phase_keeps(1,3) [OF ip] show ?thesis
        by (cases r) simp_all
    next
      case r: True
      have st2: "pointers_ok st2" "unat (num_out st2) \<le> TDM_MAX_PORTS"
        using rl run st1 by simp_all
      from Suc.IH [OF st2] rl run r True ip init_phase_keeps(1,3) [OF ip] show ?thesis
        by simp
    qed
  qed
qed

section \<open>Successive firings of the interrupt\<close>

lemma tdm_isr_total:
  "snd (working_in_buffer st) < 2 \<Longrightarrow> \<exists>st'. tdm_isr st = Inr st'"
  by (cases "num_in st = 0") (simp_all add: tdm_isr_no_input tdm_isr_input)

lemma tdm_isr_keeps:
  assumes "tdm_isr st = Inr st'"
  shows "ptime st' = (ptime st)(p_bclk st := ptime st (p_bclk st) + frame_len st)"
    and "frame_len st' = frame_len st" and "p_bclk st' = p_bclk st"
    and "working_in_buffer st' = working_in_buffer st"
    and "num_in st' = num_in st"
proof -
  show "ptime st' = (ptime st)(p_bclk st := ptime st (p_bclk st) + frame_len st)"
    using assms
    by (cases "num_in st = 0") (auto simp add: tdm_isr_no_input tdm_isr_input split: if_splits)
  show "frame_len st' = frame_len st"
    using assms
    by (cases "num_in st = 0") (auto simp add: tdm_isr_no_input tdm_isr_input split: if_splits)
  show "p_bclk st' = p_bclk st"
    using assms
    by (cases "num_in st = 0") (auto simp add: tdm_isr_no_input tdm_isr_input split: if_splits)
  show "working_in_buffer st' = working_in_buffer st"
    using assms
    by (cases "num_in st = 0") (auto simp add: tdm_isr_no_input tdm_isr_input split: if_splits)
  show "num_in st' = num_in st"
    using assms
    by (cases "num_in st = 0") (auto simp add: tdm_isr_no_input tdm_isr_input split: if_splits)
qed

lemma fire_trigger:
  "fire k st = Inr st' \<Longrightarrow>
   ptime st' (p_bclk st) = ptime st (p_bclk st) + of_nat k * frame_len st
   \<and> frame_len st' = frame_len st \<and> p_bclk st' = p_bclk st"
proof (induction k arbitrary: st)
  case 0
  then show ?case by simp
next
  case (Suc k)
  from Suc.prems obtain st1 where one: "tdm_isr st = Inr st1" and rest: "fire k st1 = Inr st'"
    by (auto split: sum.splits)
  from Suc.IH [OF rest] tdm_isr_keeps(1,2,3) [OF one] show ?case
    by (simp add: algebra_simps)
qed

lemma fire_total:
  "snd (working_in_buffer st) < 2 \<Longrightarrow> \<exists>st'. fire k st = Inr st'"
proof (induction k arbitrary: st)
  case 0
  show ?case by simp
next
  case (Suc k)
  from tdm_isr_total [OF Suc.prems] obtain st1 where one: "tdm_isr st = Inr st1"
    by blast
  with Suc.prems have "snd (working_in_buffer st1) < 2"
    by (simp add: tdm_isr_keeps(4))
  from Suc.IH [OF this] one show ?case
    by simp
qed

section \<open>The whole run\<close>

lemma running_loop_trace:
  "\<exists>evs. trace (snd (running_loop n st)) = trace st @ evs"
proof (induction n arbitrary: st)
  case 0
  show ?case by simp
next
  case (Suc n)
  show ?case
  proof (cases "frame_body st")
    case (Inl e)
    then show ?thesis by simp
  next
    case (Inr st')
    from Suc.IH [of st'] obtain evs where "trace (snd (running_loop n st')) = trace st' @ evs"
      by blast
    with Inr frame_body_trace [OF Inr] show ?thesis
      by simp
  qed
qed

lemma outer_loop_trace:
  "\<exists>evs. trace (snd (outer_loop n st)) = trace st @ evs"
proof (induction n arbitrary: st)
  case 0
  show ?case by simp
next
  case (Suc n)
  show ?case
  proof (cases "init_phase st")
    case (Inl e)
    then show ?thesis by simp
  next
    case (Inr st1)
    obtain r st2 where run: "running_loop n st1 = (r, st2)"
      by (cases "running_loop n st1")
    from running_loop_trace [of n st1] run obtain evs1 where t2: "trace st2 = trace st1 @ evs1"
      by auto
    from Suc.IH [of st2] obtain evs2 where t3: "trace (snd (outer_loop n st2)) = trace st2 @ evs2"
      by blast
    from init_phase_trace [OF Inr] obtain evs0 where t1: "trace st1 = trace st @ evs0"
      by blast
    show ?thesis
    proof (cases "restart st \<noteq> TDM_SHUTDOWN")
      case False
      then show ?thesis by simp
    next
      case True
      show ?thesis
      proof (cases "r = Returned")
        case True
        with \<open>restart st \<noteq> TDM_SHUTDOWN\<close> Inr run t1 t2 t3 show ?thesis
          by simp
      next
        case False
        with \<open>restart st \<noteq> TDM_SHUTDOWN\<close> Inr run t1 t2 show ?thesis
          by (cases r) simp_all
      qed
    qed
  qed
qed

lemma tdm_slave_rejected:
  "\<not> (unat (arg_num_chans c) \<le> TDM_MAX_CHANS \<and> unat (arg_num_in c) \<le> TDM_MAX_PORTS
       \<and> unat (arg_num_out c) \<le> TDM_MAX_PORTS) \<Longrightarrow>
   tdm_slave n c = (Trapped Assertion_failed, entry_state c)"
  by (auto simp add: tdm_slave_def)

lemma tdm_slave_accepted:
  assumes "unat (arg_num_chans c) \<le> TDM_MAX_CHANS" "unat (arg_num_in c) \<le> TDM_MAX_PORTS"
    "unat (arg_num_out c) \<le> TDM_MAX_PORTS"
  shows "tdm_slave n c = outer_loop n (tdm_slave_init_ports (entry_state c))"
    and "pointers_ok (tdm_slave_init_ports (entry_state c))"
    and "unat (num_out (tdm_slave_init_ports (entry_state c))) \<le> TDM_MAX_PORTS"
proof -
  show "tdm_slave n c = outer_loop n (tdm_slave_init_ports (entry_state c))"
    using assms by (simp add: tdm_slave_def tdm_main_loop_def)
  show "pointers_ok (tdm_slave_init_ports (entry_state c))"
    using pointers_ok_entry [of c]
    by (simp add: pointers_ok_def tdm_slave_init_ports_eq)
  show "unat (num_out (tdm_slave_init_ports (entry_state c))) \<le> TDM_MAX_PORTS"
    using assms(3) by (simp add: tdm_slave_init_ports_eq entry_state_def)
qed

lemma tdm_slave_pointers_ok:
  "pointers_ok (snd (tdm_slave n c))"
proof (cases "unat (arg_num_chans c) \<le> TDM_MAX_CHANS \<and> unat (arg_num_in c) \<le> TDM_MAX_PORTS
       \<and> unat (arg_num_out c) \<le> TDM_MAX_PORTS")
  case False
  then show ?thesis
    by (simp add: tdm_slave_rejected pointers_ok_entry)
next
  case True
  then have a: "unat (arg_num_chans c) \<le> TDM_MAX_CHANS" "unat (arg_num_in c) \<le> TDM_MAX_PORTS"
    "unat (arg_num_out c) \<le> TDM_MAX_PORTS"
    by simp_all
  from outer_loop_inv [OF tdm_slave_accepted(2,3) [OF a], of n] show ?thesis
    by (simp add: tdm_slave_accepted(1) [OF a])
qed

lemma pointers_ok_distinct:
  assumes "pointers_ok st"
  shows "fst (working_in_buffer st) = In_s" "fst (safe_in_buffer st) = In_s"
    "fst (working_out_buffer st) = Out_s" "fst (safe_out_buffer st) = Out_s"
    "working_in_buffer st \<noteq> safe_in_buffer st" "working_out_buffer st \<noteq> safe_out_buffer st"
    "snd (working_in_buffer st) = snd (working_out_buffer st)"
    "snd (safe_in_buffer st) = snd (safe_out_buffer st)"
  using assms by (auto simp add: pointers_ok_def prod_eq_iff)

lemma tdm_slave_frame_len:
  "frame_len (snd (tdm_slave n c)) = arg_num_chans c * arg_num_data_bits c"
proof (cases "unat (arg_num_chans c) \<le> TDM_MAX_CHANS \<and> unat (arg_num_in c) \<le> TDM_MAX_PORTS
       \<and> unat (arg_num_out c) \<le> TDM_MAX_PORTS")
  case False
  then show ?thesis
    by (simp add: tdm_slave_rejected entry_state_def)
next
  case True
  then have a: "unat (arg_num_chans c) \<le> TDM_MAX_CHANS" "unat (arg_num_in c) \<le> TDM_MAX_PORTS"
    "unat (arg_num_out c) \<le> TDM_MAX_PORTS"
    by simp_all
  from outer_loop_inv [OF tdm_slave_accepted(2,3) [OF a], of n] show ?thesis
    by (simp add: tdm_slave_accepted(1) [OF a] tdm_slave_init_ports_eq entry_state_def)
qed

section \<open>The callbacks in the log\<close>

lemma call_process_app:
  assumes "call_process st = Inr st'"
  shows "app_data st' =
    fst (process (tdm_cbg st) (app_data st) (num_out st) (num_in st) (num_chans st)
          (num_data_bits st)
          (mem st (fst (safe_in_buffer st)) (snd (safe_in_buffer st)))
          (mem st (fst (safe_out_buffer st)) (snd (safe_out_buffer st))))"
  using assms
  by (auto simp add: call_process_def deref_def store_def emit_def Let_def
      split: if_splits prod.splits)

lemma frame_body_app:
  assumes "frame_body st = Inr st'"
  shows "app_data st' =
    fst (process (tdm_cbg st) (fst (restart_check (tdm_cbg st) (app_data st)))
          (num_out st) (num_in st) (num_chans st) (num_data_bits st)
          (mem st (fst (safe_in_buffer st)) (snd (safe_in_buffer st)))
          (mem st (fst (safe_out_buffer st)) (snd (safe_out_buffer st))))"
    and "current_buf_no st' = current_buf_no st XOR 1"
proof -
  from assms obtain st4 where p: "call_process (frame_check st) = Inr st4"
    and q: "preload_data (commit_buffers In_s Out_s st4) = Inr st'"
    by (auto simp add: frame_body_def split: sum.splits)
  from q have st': "st' = (commit_buffers In_s Out_s st4)\<lparr>trace := trace st'\<rparr>"
    by (auto simp add: preload_data_eq split: if_splits)
  have a: "app_data st' = app_data st4"
    by (subst st') (simp add: commit_buffers_eq)
  show "app_data st' =
    fst (process (tdm_cbg st) (fst (restart_check (tdm_cbg st) (app_data st)))
          (num_out st) (num_in st) (num_chans st) (num_data_bits st)
          (mem st (fst (safe_in_buffer st)) (snd (safe_in_buffer st)))
          (mem st (fst (safe_out_buffer st)) (snd (safe_out_buffer st))))"
    unfolding a call_process_app [OF p] by (simp add: frame_check_eq)
  from p obtain a M where st4: "st4 = (frame_check st)\<lparr>app_data := a, mem := M,
      trace := trace (frame_check st) @
        [Call_process (safe_in_buffer (frame_check st)) (safe_out_buffer (frame_check st))]\<rparr>"
    using call_process_shape by blast
  show "current_buf_no st' = current_buf_no st XOR 1"
    by (subst st') (simp add: commit_buffers_eq st4 frame_check_eq)
qed

lemma init_phase_app:
  assumes "init_phase st = Inr st'"
  shows "app_data st' =
    (if 0 < num_out st
     then fst (process (tdm_cbg st) (fst (init (tdm_cbg st) (app_data st) (tdm_config st)))
          (num_out st) (num_in st) (num_chans st) (num_data_bits st)
          (mem st (fst (safe_in_buffer st)) (snd (safe_in_buffer st)))
          (mem st (fst (safe_out_buffer st)) (snd (safe_out_buffer st))))
     else fst (init (tdm_cbg st) (app_data st) (tdm_config st)))"
    and "current_buf_no st' = current_buf_no st XOR 1"
proof -
  from assms obtain st5 where p: "init_prime st = Inr st5"
    and st': "st' = (init_arm st5)\<lparr>trace := trace (init_arm st5) @ Enter_preload_data #
                  map (preload_event (init_arm st5)) [0 ..< unat (num_out st5)]\<rparr>"
    by (rule init_phase_shape)
  have a: "app_data st' = app_data st5"
    by (subst st') (simp add: init_arm_eq)
  have b: "current_buf_no st' = current_buf_no st5 XOR 1"
    by (subst st') (simp add: init_arm_eq)
  from p obtain a M where st5: "st5 =
      st\<lparr>num_bclk_cycles_offset := offset (snd (init (tdm_cbg st) (app_data st) (tdm_config st))),
         app_data := a,
         tdm_config := snd (init (tdm_cbg st) (app_data st) (tdm_config st)),
         mem := M,
         trace := trace st @
           [Interrupt_mask_all, Call_init,
            if slave_bclk_polarity (snd (init (tdm_cbg st) (app_data st) (tdm_config st)))
                 = TDM_SLAVE_SAMPLE_ON_BCLK_FALLING
            then Port_set_invert (p_bclk st) else Port_set_no_invert (p_bclk st)] @
           (if 0 < num_out st
            then [Call_process (safe_in_buffer st) (safe_out_buffer st)] else [])\<rparr>"
    using init_prime_shape by blast
  show "current_buf_no st' = current_buf_no st XOR 1"
    unfolding b by (simp add: st5)
  show "app_data st' =
    (if 0 < num_out st
     then fst (process (tdm_cbg st) (fst (init (tdm_cbg st) (app_data st) (tdm_config st)))
          (num_out st) (num_in st) (num_chans st) (num_data_bits st)
          (mem st (fst (safe_in_buffer st)) (snd (safe_in_buffer st)))
          (mem st (fst (safe_out_buffer st)) (snd (safe_out_buffer st))))
     else fst (init (tdm_cbg st) (app_data st) (tdm_config st)))"
  proof (cases "0 < num_out st")
    case False
    with p have "st5 = init_config st"
      by (simp add: init_prime_def Let_def init_config_eq)
    with False show ?thesis
      unfolding a by (simp add: init_config_eq)
  next
    case True
    with p have "call_process (init_config st) = Inr st5"
      by (simp add: init_prime_def Let_def init_config_eq)
    from call_process_app [OF this] True show ?thesis
      unfolding a by (simp add: init_config_eq)
  qed
qed

lemma callbacks_preload [simp]:
  "filter is_callback (map (preload_event s) ls) = []"
  "filter is_process (map (preload_event s) ls) = []"
  by (induction ls) (simp_all add: preload_event_def)

lemma callbacks_arm [simp]:
  "filter is_callback (concat (map (\<lambda>l. [Port_clear_buffer (f l), Port_set_trigger_time (f l) T]) ls)) = []"
  "filter is_process (concat (map (\<lambda>l. [Port_clear_buffer (f l), Port_set_trigger_time (f l) T]) ls)) = []"
  by (induction ls) simp_all

lemma callbacks_clear [simp]:
  "filter is_callback (map (\<lambda>l. Port_clear_buffer (f l)) ls) = []"
  "filter is_process (map (\<lambda>l. Port_clear_buffer (f l)) ls) = []"
  by (induction ls) simp_all

lemma callbacks_init_ports:
  "filter is_callback (trace (tdm_slave_init_ports st)) = filter is_callback (trace st)"
proof -
  have a: "filter is_callback (concat (map (\<lambda>l. [Port_start_buffered (f l) 32, Port_set_clock (f l) b,
                           Port_clear_buffer (f l), Port_out (f l) 0]) ls)) = []" for f b ls
    by (induction ls) simp_all
  have b: "filter is_callback (concat (map (\<lambda>l. [Port_start_buffered (f l) 32, Port_set_clock (f l) b,
                           Port_clear_buffer (f l)]) ls)) = []" for f b ls
    by (induction ls) simp_all
  show ?thesis
    by (simp add: tdm_slave_init_ports_eq a b)
qed

lemma callbacks_init_phase:
  assumes "init_phase st = Inr st'"
  shows "filter is_callback (trace st') = filter is_callback (trace st) @ Call_init #
           (if 0 < num_out st then [Call_process (safe_in_buffer st) (safe_out_buffer st)] else [])"
    and "filter is_process (drop (length (trace st)) (trace st')) =
           (if 0 < num_out st then [Call_process (safe_in_buffer st) (safe_out_buffer st)] else [])"
  by (simp_all add: init_phase_trace [OF assms])

lemma callbacks_frame_body:
  assumes "frame_body st = Inr st'"
  shows "filter is_callback (trace st') = filter is_callback (trace st) @
           [Call_restart_check (snd (restart_check (tdm_cbg st) (app_data st))),
            Call_process (safe_in_buffer st) (safe_out_buffer st)]"
  by (simp add: frame_body_trace [OF assms])

lemma running_loop_exit:
  "restart st \<noteq> TDM_NO_RESTART \<Longrightarrow> running_loop n st = (Returned, st)"
  by (cases n) simp_all

lemma outer_loop_exit:
  "restart st = TDM_SHUTDOWN \<Longrightarrow> outer_loop n st = (Returned, st)"
  by (cases n) simp_all

lemma running_loop_step:
  "restart st = TDM_NO_RESTART \<Longrightarrow> frame_body st = Inr st' \<Longrightarrow>
   running_loop (Suc n) st = running_loop n st'"
  by simp

lemma outer_loop_step:
  "restart st \<noteq> TDM_SHUTDOWN \<Longrightarrow> init_phase st = Inr st1 \<Longrightarrow>
   running_loop n st1 = (Returned, st2) \<Longrightarrow> outer_loop (Suc n) st = outer_loop n st2"
  by simp

lemma outer_loop_cut:
  "restart st \<noteq> TDM_SHUTDOWN \<Longrightarrow> init_phase st = Inr st1 \<Longrightarrow>
   running_loop n st1 = (Out_of_fuel, st2) \<Longrightarrow> outer_loop (Suc n) st = (Out_of_fuel, st2)"
  by simp

section \<open>The run of the test configuration\<close>

lemma tdm_slave_one:
  assumes "unat (arg_num_chans c) \<le> TDM_MAX_CHANS" "unat (arg_num_in c) \<le> TDM_MAX_PORTS"
    "unat (arg_num_out c) \<le> TDM_MAX_PORTS"
  obtains st1 where "init_phase (tdm_slave_init_ports (entry_state c)) = Inr st1"
    and "tdm_slave 1 c = (Out_of_fuel, st1)"
proof -
  define st0 where "st0 = tdm_slave_init_ports (entry_state c)"
  have r0: "restart st0 = TDM_NO_RESTART"
    by (simp add: st0_def tdm_slave_init_ports_eq entry_state_def)
  from init_phase_ok [OF tdm_slave_accepted(2,3) [OF assms]]
  obtain st1 where ip: "init_phase st0 = Inr st1"
    unfolding st0_def by blast
  have "restart st1 = TDM_NO_RESTART"
    using init_phase_keeps(5) [OF ip] r0 by simp
  then have "running_loop 0 st1 = (Out_of_fuel, st1)"
    by simp
  with r0 ip have "outer_loop (Suc 0) st0 = (Out_of_fuel, st1)"
    by simp
  then have "tdm_slave 1 c = (Out_of_fuel, st1)"
    by (simp add: tdm_slave_accepted(1) [OF assms] st0_def)
  with ip show ?thesis
    unfolding st0_def by (rule that)
qed

lemma test_run_ok:
  "unat (arg_num_chans (test_run signal e)) \<le> TDM_MAX_CHANS"
  "unat (arg_num_in (test_run signal e)) \<le> TDM_MAX_PORTS"
  "unat (arg_num_out (test_run signal e)) \<le> TDM_MAX_PORTS"
  by (simp_all add: test_run_def test_call_def TDM_MAX_CHANS_def TDM_MAX_PORTS_def)

lemma test_run_start:
  obtains S1 where "tdm_slave 1 (test_run signal e) = (Out_of_fuel, S1)"
    and "selector_ok S1" and "num_out S1 = 1" and "restart S1 = TDM_NO_RESTART"
    and "tdm_cbg S1 = test_cbg 0 1 signal" and "app_data S1 = 0"
    and "current_buf_no S1 = 1"
    and "fsync_time S1 = e" and "frame_len S1 = 256" and "num_bclk_cycles_offset S1 = 0"
    and "p_bclk S1 = 2" and "ptime S1 2 = e + 288"
    and "filter is_callback (trace S1) = [Call_init, Call_process (In_s, 0) (Out_s, 0)]"
proof -
  define st0 where "st0 = tdm_slave_init_ports (entry_state (test_run signal e))"
  from tdm_slave_one [OF test_run_ok [of signal e]]
  obtain S1 where ip: "init_phase st0 = Inr S1"
    and run: "tdm_slave 1 (test_run signal e) = (Out_of_fuel, S1)"
    unfolding st0_def by blast
  have f0: "num_out st0 = 1" "restart st0 = TDM_NO_RESTART" "tdm_cbg st0 = test_cbg 0 1 signal"
    "app_data st0 = 0" "current_buf_no st0 = 0" "frame_len st0 = 256" "p_bclk st0 = 2"
    "fsync_edge st0 (waits st0) = e" "safe_in_buffer st0 = (In_s, 0)"
    "safe_out_buffer st0 = (Out_s, 0)"
    by (simp_all add: st0_def tdm_slave_init_ports_eq entry_state_def test_run_def test_call_def)
  have cb0: "filter is_callback (trace st0) = []"
    by (simp add: st0_def callbacks_init_ports entry_state_def)
  have off: "offset (snd (init (tdm_cbg st0) (app_data st0) (tdm_config st0))) = 0"
    by (simp add: f0 test_cbg_def)
  have ok0: "pointers_ok st0"
    unfolding st0_def by (rule tdm_slave_accepted(2) [OF test_run_ok])
  note k = init_phase_keeps [OF ip]
  show ?thesis
  proof (rule that [of S1])
    show "tdm_slave 1 (test_run signal e) = (Out_of_fuel, S1)" by (rule run)
    show "selector_ok S1" using k(12) ok0 by simp
    show "num_out S1 = 1" using k(1) f0 by simp
    show "restart S1 = TDM_NO_RESTART" using k(5) f0 by simp
    show "tdm_cbg S1 = test_cbg 0 1 signal" using k(4) f0 by simp
    show "app_data S1 = 0"
      unfolding init_phase_app(1) [OF ip] by (simp add: f0 test_cbg_def)
    show "current_buf_no S1 = 1"
      unfolding init_phase_app(2) [OF ip] by (simp add: f0)
    show "fsync_time S1 = e" using k(8) f0 by simp
    show "frame_len S1 = 256" using k(3) f0 by simp
    show "num_bclk_cycles_offset S1 = 0" using k(10) off by simp
    show "p_bclk S1 = 2" using k(6) f0 by simp
    show "ptime S1 2 = e + 288"
      using k(11) unfolding off by (simp add: f0 TDM_PORT_BUFFER_BITS_def)
    show "filter is_callback (trace S1) = [Call_init, Call_process (In_s, 0) (Out_s, 0)]"
      unfolding callbacks_init_phase(1) [OF ip] by (simp add: cb0 f0)
  qed
qed

lemma selector_ok_safe:
  assumes "selector_ok st"
  shows "safe_in_buffer st = (In_s, unat (current_buf_no st))"
    and "safe_out_buffer st = (Out_s, unat (current_buf_no st))"
  using assms by (simp_all add: selector_ok_def)

lemma test_run_frame:
  obtains S1 S2 where "tdm_slave 1 (test_run signal e) = (Out_of_fuel, S1)"
    and "restart S1 = TDM_NO_RESTART"
    and "frame_body S1 = Inr S2"
    and "selector_ok S2" and "num_out S2 = 1" and "restart S2 = signal"
    and "current_buf_no S2 = 0"
    and "filter is_callback (trace S2) =
           [Call_init, Call_process (In_s, 0) (Out_s, 0),
            Call_restart_check signal, Call_process (In_s, 1) (Out_s, 1)]"
proof -
  obtain S1 where s1: "tdm_slave 1 (test_run signal e) = (Out_of_fuel, S1)"
    "selector_ok S1" "num_out S1 = 1" "restart S1 = TDM_NO_RESTART"
    "tdm_cbg S1 = test_cbg 0 1 signal" "app_data S1 = 0" "current_buf_no S1 = 1"
    "filter is_callback (trace S1) = [Call_init, Call_process (In_s, 0) (Out_s, 0)]"
    by (rule test_run_start [of signal e]) blast
  have "unat (num_out S1) \<le> TDM_MAX_PORTS"
    by (simp add: s1 TDM_MAX_PORTS_def)
  from frame_body_ok [OF selector_ok_pointers_ok [OF s1(2)] this]
  obtain S2 where fb: "frame_body S1 = Inr S2"
    by blast
  have sig: "snd (restart_check (tdm_cbg S1) (app_data S1)) = signal"
    by (simp add: s1 test_cbg_def)
  note k = frame_body_keeps [OF fb]
  show ?thesis
  proof (rule that [of S1 S2])
    show "tdm_slave 1 (test_run signal e) = (Out_of_fuel, S1)" by (rule s1)
    show "restart S1 = TDM_NO_RESTART" by (rule s1)
    show "frame_body S1 = Inr S2" by (rule fb)
    show "selector_ok S2" using k(11) selector_ok_pointers_ok [OF s1(2)] by simp
    show "num_out S2 = 1" using k(1) s1 by simp
    show "restart S2 = signal" using k(4) sig by simp
    show "current_buf_no S2 = 0"
      unfolding frame_body_app(2) [OF fb] by (simp add: s1)
    show "filter is_callback (trace S2) =
           [Call_init, Call_process (In_s, 0) (Out_s, 0),
            Call_restart_check signal, Call_process (In_s, 1) (Out_s, 1)]"
      unfolding callbacks_frame_body [OF fb] sig
      by (simp add: s1 selector_ok_safe [OF s1(2)])
  qed
qed

lemma frame_body_first_time:
  assumes "frame_body st = Inr st'"
  shows "first_time st' = first_time st"
proof -
  from assms obtain a M where st': "st' =
      (commit_buffers In_s Out_s ((frame_check st)\<lparr>app_data := a, mem := M,
              trace := trace (frame_check st) @
                [Call_process (safe_in_buffer st) (safe_out_buffer st)]\<rparr>))
           \<lparr>trace := trace st @
              [Port_in_when_pinseq (p_fsync st) 1,
               Call_restart_check (snd (restart_check (tdm_cbg st) (app_data st))),
               Call_process (safe_in_buffer st) (safe_out_buffer st),
               Enter_commit_buffers, Enter_preload_data] @
              map (preload_event st') [0 ..< unat (num_out st)]\<rparr>"
    by (rule frame_body_shape)
  show ?thesis
    by (subst st') (simp add: commit_buffers_eq frame_check_eq)
qed

lemma test_run_restart:
  obtains S3 where "tdm_slave 2 (test_run TDM_RESTART e) = (Out_of_fuel, S3)"
    and "selector_ok S3" and "num_out S3 = 1" and "restart S3 = TDM_RESTART"
    and "first_time S3" and "current_buf_no S3 = 1"
    and "filter is_callback (trace S3) =
           [Call_init, Call_process (In_s, 0) (Out_s, 0),
            Call_restart_check TDM_RESTART, Call_process (In_s, 1) (Out_s, 1),
            Call_init, Call_process (In_s, 0) (Out_s, 0)]"
proof -
  obtain S1 S2 where s: "tdm_slave 1 (test_run TDM_RESTART e) = (Out_of_fuel, S1)"
    "restart S1 = TDM_NO_RESTART" "frame_body S1 = Inr S2"
    "selector_ok S2" "num_out S2 = 1" "restart S2 = TDM_RESTART" "current_buf_no S2 = 0"
    "filter is_callback (trace S2) =
           [Call_init, Call_process (In_s, 0) (Out_s, 0),
            Call_restart_check TDM_RESTART, Call_process (In_s, 1) (Out_s, 1)]"
    by (rule test_run_frame [of TDM_RESTART e]) blast
  define st0 where "st0 = tdm_slave_init_ports (entry_state (test_run TDM_RESTART e))"
  from tdm_slave_one [OF test_run_ok [of TDM_RESTART e]]
  obtain S1' where ip0: "init_phase st0 = Inr S1'"
    and run1: "tdm_slave 1 (test_run TDM_RESTART e) = (Out_of_fuel, S1')"
    unfolding st0_def by blast
  from run1 s(1) have "S1' = S1" by simp
  with ip0 have ip0: "init_phase st0 = Inr S1" by simp
  have r0: "restart st0 \<noteq> TDM_SHUTDOWN" "first_time st0"
    by (simp_all add: st0_def tdm_slave_init_ports_eq entry_state_def)
  have n2: "unat (num_out S2) \<le> TDM_MAX_PORTS"
    by (simp add: s TDM_MAX_PORTS_def)
  from init_phase_ok [OF selector_ok_pointers_ok [OF s(4)] n2]
  obtain S3 where ip2: "init_phase S2 = Inr S3"
    by blast
  note k = init_phase_keeps [OF ip2]
  have r3: "restart S3 = TDM_RESTART"
    using k(5) s by simp
  have inner1: "running_loop (Suc 0) S1 = (Returned, S2)"
    using s(2,3,6) by (simp add: running_loop_exit)
  have inner2: "running_loop 0 S3 = (Returned, S3)"
    using r3 by simp
  have "outer_loop (Suc (Suc 0)) st0 = outer_loop (Suc 0) S2"
    using r0(1) ip0 inner1 by (rule outer_loop_step)
  also have "\<dots> = outer_loop 0 S3"
    using s(6) ip2 inner2 by simp
  also have "\<dots> = (Out_of_fuel, S3)"
    using r3 by simp
  finally have run: "tdm_slave 2 (test_run TDM_RESTART e) = (Out_of_fuel, S3)"
    by (simp add: tdm_slave_accepted(1) [OF test_run_ok] st0_def numeral_2_eq_2)
  have ft: "first_time S2"
    using frame_body_first_time [OF s(3)] init_phase_keeps(7) [OF ip0] r0(2) by simp
  show ?thesis
  proof (rule that [of S3])
    show "tdm_slave 2 (test_run TDM_RESTART e) = (Out_of_fuel, S3)" by (rule run)
    show "selector_ok S3" using k(12) selector_ok_pointers_ok [OF s(4)] by simp
    show "num_out S3 = 1" using k(1) s by simp
    show "restart S3 = TDM_RESTART" by (rule r3)
    show "first_time S3" using k(7) ft by simp
    show "current_buf_no S3 = 1"
      unfolding init_phase_app(2) [OF ip2] by (simp add: s)
    show "filter is_callback (trace S3) =
           [Call_init, Call_process (In_s, 0) (Out_s, 0),
            Call_restart_check TDM_RESTART, Call_process (In_s, 1) (Out_s, 1),
            Call_init, Call_process (In_s, 0) (Out_s, 0)]"
      unfolding callbacks_init_phase(1) [OF ip2]
      by (simp add: s selector_ok_safe [OF s(4)])
  qed
qed

section \<open>What one call of the transport moves\<close>

lemma IN16_of_OUT16:
  "IN16 0 (snd (OUT16 x0 x1)) = (take_bit 16 x0, take_bit 16 x1)"
proof -
  define P :: u32 where "P = push_bit 16 (take_bit 16 x0) OR take_bit 16 x1"
  have hi: "drop_bit 16 P = take_bit 16 x0"
    unfolding P_def by (rule hi_of_pair)
  have lo: "take_bit 16 P = take_bit 16 x1"
    unfolding P_def by (rule lo_of_pair)
  have w: "bitrev (snd (OUT16 x0 x1)) = P"
    by (simp add: OUT16_eq bitrev_bitrev P_def)
  show ?thesis
    by (simp add: IN16_eq w hi lo)
qed

lemma init_phase_hw:
  assumes "init_phase st = Inr st'"
  shows "p_din st' = p_din st" and "din st' = din st" and "reads st' = reads st"
    and "p_dout st' = p_dout st"
    and "working_in_buffer st' = (In_s, unat (current_buf_no st))"
proof -
  from assms obtain st5 where p: "init_prime st = Inr st5"
    and st': "st' = (init_arm st5)\<lparr>trace := trace (init_arm st5) @ Enter_preload_data #
                  map (preload_event (init_arm st5)) [0 ..< unat (num_out st5)]\<rparr>"
    by (rule init_phase_shape)
  from p obtain a M where st5: "st5 =
      st\<lparr>num_bclk_cycles_offset := offset (snd (init (tdm_cbg st) (app_data st) (tdm_config st))),
         app_data := a,
         tdm_config := snd (init (tdm_cbg st) (app_data st) (tdm_config st)),
         mem := M,
         trace := trace st @
           [Interrupt_mask_all, Call_init,
            if slave_bclk_polarity (snd (init (tdm_cbg st) (app_data st) (tdm_config st)))
                 = TDM_SLAVE_SAMPLE_ON_BCLK_FALLING
            then Port_set_invert (p_bclk st) else Port_set_no_invert (p_bclk st)] @
           (if 0 < num_out st
            then [Call_process (safe_in_buffer st) (safe_out_buffer st)] else [])\<rparr>"
    using init_prime_shape by blast
  show "p_din st' = p_din st"
    by (subst st') (simp add: init_arm_eq st5)
  show "din st' = din st"
    by (subst st') (simp add: init_arm_eq st5)
  show "reads st' = reads st"
    by (subst st') (simp add: init_arm_eq st5)
  show "p_dout st' = p_dout st"
    by (subst st') (simp add: init_arm_eq st5)
  show "working_in_buffer st' = (In_s, unat (current_buf_no st))"
    by (subst st') (simp add: init_arm_eq st5)
qed

lemma tdm_isr_effect:
  assumes "tdm_isr st = Inr st'"
  shows "(d, i) = working_in_buffer st \<and> l = 0 \<and> ch < 2 \<or> mem st' d i l ch = mem st d i l ch"
    and "num_in st \<noteq> 0 \<Longrightarrow>
         mem st' (fst (working_in_buffer st)) (snd (working_in_buffer st)) 0 0
           = fst (IN16 0 (din st (p_din st 0) (reads st (p_din st 0))))
         \<and> mem st' (fst (working_in_buffer st)) (snd (working_in_buffer st)) 0 1
           = snd (IN16 0 (din st (p_din st 0) (reads st (p_din st 0))))"
    and "filter is_port_in (drop (length (trace st)) (trace st')) =
           (if num_in st = 0 then []
            else [Port_in (p_din st 0) (din st (p_din st 0) (reads st (p_din st 0)))])"
    and "reads st' = (if num_in st = 0 then reads st
                      else (reads st)(p_din st 0 := Suc (reads st (p_din st 0))))"
proof -
  show "(d, i) = working_in_buffer st \<and> l = 0 \<and> ch < 2 \<or> mem st' d i l ch = mem st d i l ch"
    using assms
    by (cases "num_in st = 0"; cases "working_in_buffer st")
       (auto simp add: tdm_isr_no_input tdm_isr_input split: if_splits)
  show "mem st' (fst (working_in_buffer st)) (snd (working_in_buffer st)) 0 0
           = fst (IN16 0 (din st (p_din st 0) (reads st (p_din st 0))))
         \<and> mem st' (fst (working_in_buffer st)) (snd (working_in_buffer st)) 0 1
           = snd (IN16 0 (din st (p_din st 0) (reads st (p_din st 0))))" if "num_in st \<noteq> 0"
    using assms that
    by (auto simp add: tdm_isr_input split: if_splits)
  show "filter is_port_in (drop (length (trace st)) (trace st')) =
           (if num_in st = 0 then []
            else [Port_in (p_din st 0) (din st (p_din st 0) (reads st (p_din st 0)))])"
    using assms
    by (cases "num_in st = 0") (auto simp add: tdm_isr_no_input tdm_isr_input split: if_splits)
  show "reads st' = (if num_in st = 0 then reads st
                      else (reads st)(p_din st 0 := Suc (reads st (p_din st 0))))"
    using assms
    by (cases "num_in st = 0") (auto simp add: tdm_isr_no_input tdm_isr_input split: if_splits)
qed

lemma preload_data_effect:
  assumes "preload_data st = Inr st'"
  shows "mem st' = mem st"
    and "drop (length (trace st)) (trace st') =
           Enter_preload_data # map (preload_event st) [0 ..< unat (num_out st)]"
  using assms by (auto simp add: preload_data_eq split: if_splits)

section \<open>Two runs that differ in the configured offset: step by step\<close>

lemma with_offset_simps [simp]:
  "restart_check (with_offset N B) = restart_check B"
  "process (with_offset N B) = process B"
  "init (with_offset N B) a cfg =
     (fst (init B a (cfg\<lparr>offset := 0\<rparr>)), (snd (init B a (cfg\<lparr>offset := 0\<rparr>)))\<lparr>offset := N\<rparr>)"
  by (simp_all add: with_offset_def)

text \<open>The test application with the offset \<open>N\<close> is the one with any other offset, made to configure \<open>N\<close>.\<close>

lemma with_offset_test_cbg:
  "with_offset N (test_cbg M frames signal) = test_cbg N frames signal"
  by (simp add: with_offset_def test_cbg_def)

lemma offset_run_test_call:
  "offset_run N (test_call (test_cbg M frames signal) n_out n_in n_chans e)
     = test_call (test_cbg N frames signal) n_out n_in n_chans e"
  by (simp add: offset_run_def test_call_def with_offset_test_cbg)

lemma rel_entry:
  "same_but_offset N (arg_tdm_cbg c) (entry_state (offset_run N c)) (entry_state (offset_run 0 c))"
  by (simp add: same_but_offset_def entry_state_def offset_run_def)

lemma rel_init_ports:
  assumes "same_but_offset N B sN s0"
  shows "same_but_offset N B (tdm_slave_init_ports sN) (tdm_slave_init_ports s0)"
  using assms
  by (simp add: same_but_offset_def tdm_slave_init_ports_eq map_concat o_def)

lemma rel_init_config:
  assumes "same_but_offset N B sN s0"
  shows "same_but_offset N B (init_config sN) (init_config s0)"
    and "num_bclk_cycles_offset (init_config sN) = N"
    and "num_bclk_cycles_offset (init_config s0) = 0"
  using assms
  by (simp_all add: same_but_offset_def init_config_eq)

lemma rel_commit:
  assumes "same_but_offset N B sN s0"
  shows "same_but_offset N B (commit_buffers In_s Out_s sN) (commit_buffers In_s Out_s s0)"
  using assms
  by (simp add: same_but_offset_def commit_buffers_eq)

lemma rel_frame_check:
  assumes "same_but_offset N B sN s0"
  shows "same_but_offset N B (frame_check sN) (frame_check s0)"
  using assms
  by (simp add: same_but_offset_def frame_check_eq)

lemma rel_call_process:
  assumes "same_but_offset N B sN s0"
    and "call_process sN = Inr sN'" and "call_process s0 = Inr s0'"
  shows "same_but_offset N B sN' s0'"
    and "num_bclk_cycles_offset sN' = num_bclk_cycles_offset sN"
    and "num_bclk_cycles_offset s0' = num_bclk_cycles_offset s0"
  using assms
  by (auto simp add: same_but_offset_def call_process_def deref_def store_def emit_def Let_def
      split: if_splits prod.splits)

lemma rel_init_arm:
  assumes "same_but_offset N B sN s0"
    and "num_bclk_cycles_offset sN = N" and "num_bclk_cycles_offset s0 = 0"
  shows "same_but_offset N B (init_arm sN) (init_arm s0)"
    and "num_bclk_cycles_offset (init_arm sN) = N"
    and "num_bclk_cycles_offset (init_arm s0) = 0"
  using assms
  by (simp_all add: same_but_offset_def init_arm_eq map_concat o_def fold_upd_same
      add.commute add.left_commute)

lemma rel_preload:
  assumes "same_but_offset N B sN s0"
    and "num_bclk_cycles_offset sN = N" and "num_bclk_cycles_offset s0 = 0"
    and "preload_data sN = Inr sN'" and "preload_data s0 = Inr s0'"
  shows "same_but_offset N B sN' s0'"
    and "num_bclk_cycles_offset sN' = N"
    and "num_bclk_cycles_offset s0' = 0"
  using assms
  by (auto simp add: same_but_offset_def preload_data_eq preload_event_def
      add.commute add.left_commute split: if_splits)

lemma rel_pointers_ok:
  assumes "same_but_offset N B sN s0"
  shows "pointers_ok sN = pointers_ok s0"
    and "num_out sN = num_out s0"
    and "restart sN = restart s0"
  using assms by (simp_all add: same_but_offset_def pointers_ok_def)

lemma rel_init_phase:
  assumes R: "same_but_offset N B sN s0"
    and N: "init_phase sN = Inr sN'" and Z: "init_phase s0 = Inr s0'"
  shows "same_but_offset N B sN' s0'"
    and "num_bclk_cycles_offset sN' = N"
    and "num_bclk_cycles_offset s0' = 0"
proof -
  from N obtain tN where pN: "init_prime sN = Inr tN" and qN: "preload_data (init_arm tN) = Inr sN'"
    by (auto simp add: init_phase_def split: sum.splits)
  from Z obtain t0 where p0: "init_prime s0 = Inr t0" and q0: "preload_data (init_arm t0) = Inr s0'"
    by (auto simp add: init_phase_def split: sum.splits)
  note c = rel_init_config [OF R]
  have n: "num_out (init_config sN) = num_out (init_config s0)"
    using c(1) by (rule rel_pointers_ok(2))
  have t: "same_but_offset N B tN t0 \<and> num_bclk_cycles_offset tN = N
           \<and> num_bclk_cycles_offset t0 = 0"
  proof (cases "0 < num_out (init_config s0)")
    case False
    with pN p0 n c show ?thesis
      by (simp add: init_prime_def Let_def)
  next
    case True
    with pN p0 n have "call_process (init_config sN) = Inr tN"
      "call_process (init_config s0) = Inr t0"
      by (simp_all add: init_prime_def Let_def)
    from rel_call_process [OF c(1) this] c(2,3) show ?thesis
      by simp
  qed
  then have t1: "same_but_offset N B tN t0" and t2: "num_bclk_cycles_offset tN = N"
    and t3: "num_bclk_cycles_offset t0 = 0"
    by simp_all
  note a = rel_init_arm [OF t1 t2 t3]
  from rel_preload [OF a qN q0]
  show "same_but_offset N B sN' s0'"
    and "num_bclk_cycles_offset sN' = N"
    and "num_bclk_cycles_offset s0' = 0"
    by simp_all
qed

lemma rel_frame_body:
  assumes R: "same_but_offset N B sN s0"
    and o: "num_bclk_cycles_offset sN = N" "num_bclk_cycles_offset s0 = 0"
    and N: "frame_body sN = Inr sN'" and Z: "frame_body s0 = Inr s0'"
  shows "same_but_offset N B sN' s0'"
    and "num_bclk_cycles_offset sN' = N"
    and "num_bclk_cycles_offset s0' = 0"
proof -
  from N obtain tN where pN: "call_process (frame_check sN) = Inr tN"
    and qN: "preload_data (commit_buffers In_s Out_s tN) = Inr sN'"
    by (auto simp add: frame_body_def split: sum.splits)
  from Z obtain t0 where p0: "call_process (frame_check s0) = Inr t0"
    and q0: "preload_data (commit_buffers In_s Out_s t0) = Inr s0'"
    by (auto simp add: frame_body_def split: sum.splits)
  note c = rel_call_process [OF rel_frame_check [OF R] pN p0]
  have oN: "num_bclk_cycles_offset (commit_buffers In_s Out_s tN) = N"
    using c(2) o(1) by (simp add: commit_buffers_eq frame_check_eq)
  have o0: "num_bclk_cycles_offset (commit_buffers In_s Out_s t0) = 0"
    using c(3) o(2) by (simp add: commit_buffers_eq frame_check_eq)
  from rel_preload [OF rel_commit [OF c(1)] oN o0 qN q0]
  show "same_but_offset N B sN' s0'"
    and "num_bclk_cycles_offset sN' = N"
    and "num_bclk_cycles_offset s0' = 0"
    by simp_all
qed

lemma rel_running_loop:
  assumes "same_but_offset N B sN s0"
    and "num_bclk_cycles_offset sN = N" "num_bclk_cycles_offset s0 = 0"
    and "pointers_ok s0" "unat (num_out s0) \<le> TDM_MAX_PORTS"
  shows "fst (running_loop n sN) = fst (running_loop n s0)
       \<and> same_but_offset N B (snd (running_loop n sN)) (snd (running_loop n s0))"
  using assms
proof (induction n arbitrary: sN s0)
  case 0
  then show ?case
    using rel_pointers_ok(3) [OF "0.prems"(1)] by simp
next
  case (Suc n)
  note r = rel_pointers_ok [OF Suc.prems(1)]
  show ?case
  proof (cases "restart s0 = TDM_NO_RESTART")
    case False
    with Suc.prems(1) r(3) show ?thesis by simp
  next
    case True
    from frame_body_ok [OF Suc.prems(4,5)] obtain s0' where f0: "frame_body s0 = Inr s0'"
      by blast
    have "pointers_ok sN" "unat (num_out sN) \<le> TDM_MAX_PORTS"
      using r Suc.prems(4,5) by simp_all
    from frame_body_ok [OF this] obtain sN' where fN: "frame_body sN = Inr sN'"
      by blast
    note k = rel_frame_body [OF Suc.prems(1,2,3) fN f0]
    have ok: "pointers_ok s0'" "unat (num_out s0') \<le> TDM_MAX_PORTS"
      using frame_body_keeps(1,11) [OF f0] Suc.prems(4,5) by (simp_all add: selector_ok_pointers_ok)
    from Suc.IH [OF k ok] True r(3) fN f0 show ?thesis
      by simp
  qed
qed

lemma rel_outer_loop:
  assumes "same_but_offset N B sN s0"
    and "pointers_ok s0" "unat (num_out s0) \<le> TDM_MAX_PORTS"
  shows "fst (outer_loop n sN) = fst (outer_loop n s0)
       \<and> same_but_offset N B (snd (outer_loop n sN)) (snd (outer_loop n s0))"
  using assms
proof (induction n arbitrary: sN s0)
  case 0
  then show ?case
    using rel_pointers_ok(3) [OF "0.prems"(1)] by simp
next
  case (Suc n)
  note r = rel_pointers_ok [OF Suc.prems(1)]
  show ?case
  proof (cases "restart s0 \<noteq> TDM_SHUTDOWN")
    case False
    with Suc.prems(1) r(3) show ?thesis by simp
  next
    case True
    from init_phase_ok [OF Suc.prems(2,3)] obtain s0' where i0: "init_phase s0 = Inr s0'"
      by blast
    have "pointers_ok sN" "unat (num_out sN) \<le> TDM_MAX_PORTS"
      using r Suc.prems(2,3) by simp_all
    from init_phase_ok [OF this] obtain sN' where iN: "init_phase sN = Inr sN'"
      by blast
    note k = rel_init_phase [OF Suc.prems(1) iN i0]
    have ok: "pointers_ok s0'" "unat (num_out s0') \<le> TDM_MAX_PORTS"
      using init_phase_keeps(1,12) [OF i0] Suc.prems(2,3) by (simp_all add: selector_ok_pointers_ok)
    note l = rel_running_loop [OF k ok, of n]
    note v = running_loop_inv [OF ok, of n]
    obtain q0 t0 where run0: "running_loop n s0' = (q0, t0)"
      by (cases "running_loop n s0'")
    obtain qN tN where runN: "running_loop n sN' = (qN, tN)"
      by (cases "running_loop n sN'")
    from l run0 runN have q: "qN = q0" and t: "same_but_offset N B tN t0"
      by simp_all
    show ?thesis
    proof (cases "q0 = Returned")
      case False
      with q t run0 runN True r(3) iN i0 show ?thesis
        by (cases q0) simp_all
    next
      case ret: True
      have ok2: "pointers_ok t0" "unat (num_out t0) \<le> TDM_MAX_PORTS"
        using v run0 ok by simp_all
      from Suc.IH [OF t ok2] q ret run0 runN True r(3) iN i0 show ?thesis
        by simp
    qed
  qed
qed

lemma rel_tdm_slave:
  "fst (tdm_slave n (offset_run N c)) = fst (tdm_slave n (offset_run 0 c))
   \<and> same_but_offset N (arg_tdm_cbg c) (snd (tdm_slave n (offset_run N c)))
        (snd (tdm_slave n (offset_run 0 c)))"
proof (cases "unat (arg_num_chans c) \<le> TDM_MAX_CHANS \<and> unat (arg_num_in c) \<le> TDM_MAX_PORTS
       \<and> unat (arg_num_out c) \<le> TDM_MAX_PORTS")
  case False
  then have "\<not> (unat (arg_num_chans (offset_run M c)) \<le> TDM_MAX_CHANS
       \<and> unat (arg_num_in (offset_run M c)) \<le> TDM_MAX_PORTS
       \<and> unat (arg_num_out (offset_run M c)) \<le> TDM_MAX_PORTS)" for M
    by (simp add: offset_run_def)
  then show ?thesis
    by (simp add: tdm_slave_rejected rel_entry)
next
  case True
  then have a: "unat (arg_num_chans (offset_run M c)) \<le> TDM_MAX_CHANS"
     "unat (arg_num_in (offset_run M c)) \<le> TDM_MAX_PORTS"
     "unat (arg_num_out (offset_run M c)) \<le> TDM_MAX_PORTS" for M
    by (simp_all add: offset_run_def)
  from rel_outer_loop [OF rel_init_ports [OF rel_entry] tdm_slave_accepted(2,3) [OF a], of n N]
  show ?thesis
    by (simp add: tdm_slave_accepted(1) [OF a])
qed

section \<open>The port times in the log\<close>

lemma init_phase_out:
  assumes "init_phase st = Inr st'"
  shows "p_dout st' = p_dout st"
    and "working_out_buffer st' = (Out_s, unat (current_buf_no st))"
proof -
  from assms obtain a M where st': 
   "st' = (init_arm (st\<lparr>num_bclk_cycles_offset := offset (snd (init (tdm_cbg st) (app_data st) (tdm_config st))),
         app_data := a,
         tdm_config := snd (init (tdm_cbg st) (app_data st) (tdm_config st)),
         mem := M,
         trace := trace st @
           [Interrupt_mask_all, Call_init,
            if slave_bclk_polarity (snd (init (tdm_cbg st) (app_data st) (tdm_config st)))
                 = TDM_SLAVE_SAMPLE_ON_BCLK_FALLING
            then Port_set_invert (p_bclk st) else Port_set_no_invert (p_bclk st)] @
           (if 0 < num_out st
            then [Call_process (safe_in_buffer st) (safe_out_buffer st)] else [])\<rparr>))
       \<lparr>trace := trace st @
           [Interrupt_mask_all, Call_init,
            if slave_bclk_polarity (snd (init (tdm_cbg st) (app_data st) (tdm_config st)))
                 = TDM_SLAVE_SAMPLE_ON_BCLK_FALLING
            then Port_set_invert (p_bclk st) else Port_set_no_invert (p_bclk st)] @
           (if 0 < num_out st
            then [Call_process (safe_in_buffer st) (safe_out_buffer st)] else []) @
           [Enter_commit_buffers, Port_clear_buffer (p_fsync st), Clock_start (bclk st),
            Port_in_when_pinseq (p_fsync st) 1,
            Triggerable_setup_interrupt_callback (p_bclk st),
            Port_set_trigger_time (p_bclk st)
              (fsync_edge st (waits st) + frame_len st
                 + offset (snd (init (tdm_cbg st) (app_data st) (tdm_config st)))
                 + TDM_PORT_BUFFER_BITS),
            Triggerable_enable_trigger (p_bclk st), Interrupt_unmask_all] @
           concat (map (\<lambda>l. [Port_clear_buffer (p_din st l),
                              Port_set_trigger_time (p_din st l)
                                (fsync_edge st (waits st) + frame_len st
                                   + offset (snd (init (tdm_cbg st) (app_data st) (tdm_config st)))
                                   + TDM_PORT_BUFFER_BITS)])
                     [0 ..< unat (num_in st)]) @
           map (\<lambda>l. Port_clear_buffer (p_dout st l)) [0 ..< unat (num_out st)] @
           Enter_preload_data # map (preload_event st') [0 ..< unat (num_out st)]\<rparr>"
    by (rule init_phase_closed)
  show "p_dout st' = p_dout st"
    by (subst st') (simp add: init_arm_eq)
  show "working_out_buffer st' = (Out_s, unat (current_buf_no st))"
    by (subst st') (simp add: init_arm_eq)
qed

lemma timed_arms:
  "filter is_timed (concat (map (\<lambda>l. [Port_clear_buffer (f l), Port_set_trigger_time (g l) t]) ls))
     = map (\<lambda>l. Port_set_trigger_time (g l) t) ls"
  by (induction ls) simp_all

lemma timed_clears: "filter is_timed (map (\<lambda>l. Port_clear_buffer (f l)) ls) = []"
  by (induction ls) simp_all

lemma timed_preloads: "filter is_timed (map (preload_event s) ls) = map (preload_event s) ls"
  by (induction ls) (simp_all add: preload_event_def)

lemma timed_init_phase:
  assumes ip: "init_phase st = Inr st'"
    and off: "offset (snd (init (tdm_cbg st) (app_data st) (tdm_config st))) = N"
  shows "filter is_timed (drop (length (trace st)) (trace st')) =
           Port_set_trigger_time (p_bclk st)
             (fsync_edge st (waits st) + frame_len st + N + TDM_PORT_BUFFER_BITS)
           # map (\<lambda>l. Port_set_trigger_time (p_din st l)
                         (fsync_edge st (waits st) + frame_len st + N + TDM_PORT_BUFFER_BITS))
               [0 ..< unat (num_in st)]
           @ map (\<lambda>l. Port_out_at_time (p_dout st l)
                         (fsync_edge st (waits st) + frame_len st + N)
                         (snd (OUT16 (mem st' Out_s (unat (current_buf_no st)) l 0)
                                     (mem st' Out_s (unat (current_buf_no st)) l 1))))
               [0 ..< unat (num_out st)]"
proof -
  note k = init_phase_keeps [OF ip] init_phase_out [OF ip]
  have ev: "preload_event st' = (\<lambda>l. Port_out_at_time (p_dout st l)
                         (fsync_edge st (waits st) + frame_len st + N)
                         (snd (OUT16 (mem st' Out_s (unat (current_buf_no st)) l 0)
                                     (mem st' Out_s (unat (current_buf_no st)) l 1))))"
    by (rule ext) (simp add: preload_event_def k off)
  show ?thesis
    unfolding init_phase_trace [OF ip] off
    by (simp add: timed_arms timed_clears timed_preloads) (simp add: ev)
qed

lemma timed_frame_body:
  assumes fb: "frame_body st = Inr st'"
  shows "filter is_timed (drop (length (trace st)) (trace st')) =
           map (\<lambda>l. Port_out_at_time (p_dout st l)
                       (fsync_edge st (waits st) + frame_len st + num_bclk_cycles_offset st)
                       (snd (OUT16 (mem st' Out_s (unat (current_buf_no st)) l 0)
                                   (mem st' Out_s (unat (current_buf_no st)) l 1))))
               [0 ..< unat (num_out st)]"
proof -
  note k = frame_body_keeps [OF fb]
  have ev: "preload_event st' = (\<lambda>l. Port_out_at_time (p_dout st l)
                       (fsync_edge st (waits st) + frame_len st + num_bclk_cycles_offset st)
                       (snd (OUT16 (mem st' Out_s (unat (current_buf_no st)) l 0)
                                   (mem st' Out_s (unat (current_buf_no st)) l 1))))"
    by (rule ext) (simp add: preload_event_def k)
  show ?thesis
    unfolding frame_body_trace [OF fb]
    by (simp add: timed_preloads) (simp add: ev)
qed

lemma offset_run_ok:
  "unat (arg_num_chans (offset_run N (test_run signal e))) \<le> TDM_MAX_CHANS"
  "unat (arg_num_in (offset_run N (test_run signal e))) \<le> TDM_MAX_PORTS"
  "unat (arg_num_out (offset_run N (test_run signal e))) \<le> TDM_MAX_PORTS"
  using test_run_ok [of signal e] by (simp_all add: offset_run_def)

lemma offset_run_start:
  obtains S1 where "tdm_slave 1 (offset_run N (test_run signal e)) = (Out_of_fuel, S1)"
    and "init_phase (tdm_slave_init_ports (entry_state (offset_run N (test_run signal e)))) = Inr S1"
    and "pointers_ok S1" and "num_out S1 = 1"
    and "num_bclk_cycles_offset S1 = N"
    and "ptime S1 2 = e + 288 + N"
    and "Port_set_trigger_time 2 (e + 288 + N) \<in> set (trace S1)"
    and "Port_set_trigger_time 20 (e + 288 + N) \<in> set (trace S1)"
    and "Port_out_at_time 10 (e + 256 + N)
           (snd (OUT16 (mem S1 Out_s 0 0 0) (mem S1 Out_s 0 0 1))) \<in> set (trace S1)"
proof -
  define st0 where "st0 = tdm_slave_init_ports (entry_state (offset_run N (test_run signal e)))"
  from tdm_slave_one [OF offset_run_ok [of N signal e]]
  obtain S1 where ip: "init_phase st0 = Inr S1"
    and run: "tdm_slave 1 (offset_run N (test_run signal e)) = (Out_of_fuel, S1)"
    unfolding st0_def by blast
  have f0: "num_out st0 = 1" "num_in st0 = 1"
    "tdm_cbg st0 = with_offset N (test_cbg 0 1 signal)"
    "current_buf_no st0 = 0" "frame_len st0 = 256" "p_bclk st0 = 2"
    "fsync_edge st0 (waits st0) = e" "p_din st0 = (\<lambda>l. 20 + l)" "p_dout st0 = (\<lambda>l. 10 + l)"
    by (simp_all add: st0_def tdm_slave_init_ports_eq entry_state_def offset_run_def
        test_run_def test_call_def)
  have off: "offset (snd (init (tdm_cbg st0) (app_data st0) (tdm_config st0))) = N"
    by (simp add: f0)
  have ok0: "pointers_ok st0"
    unfolding st0_def by (rule tdm_slave_accepted(2) [OF offset_run_ok])
  note k = init_phase_keeps [OF ip]
  note t = timed_init_phase [OF ip off]
  have tr: "set (filter is_timed (drop (length (trace st0)) (trace S1))) \<subseteq> set (trace S1)"
    using set_drop_subset [of "length (trace st0)" "trace S1"] by auto
  have tt: "filter is_timed (drop (length (trace st0)) (trace S1)) =
     [Port_set_trigger_time 2 (e + 288 + N), Port_set_trigger_time 20 (e + 288 + N),
      Port_out_at_time 10 (e + 256 + N) (snd (OUT16 (mem S1 Out_s 0 0 0) (mem S1 Out_s 0 0 1)))]"
    unfolding t by (simp add: f0 TDM_PORT_BUFFER_BITS_def)
  show ?thesis
  proof (rule that [of S1])
    show "tdm_slave 1 (offset_run N (test_run signal e)) = (Out_of_fuel, S1)" by (rule run)
    show "init_phase (tdm_slave_init_ports (entry_state (offset_run N (test_run signal e)))) = Inr S1"
      using ip unfolding st0_def .
    show "pointers_ok S1" using k(12) ok0 by (simp add: selector_ok_pointers_ok)
    show "num_out S1 = 1" using k(1) f0 by simp
    show "num_bclk_cycles_offset S1 = N" using k(10) off by simp
    show "ptime S1 2 = e + 288 + N"
      using k(11) unfolding off by (simp add: f0 TDM_PORT_BUFFER_BITS_def)
    show "Port_set_trigger_time 2 (e + 288 + N) \<in> set (trace S1)"
      using tr unfolding tt by simp
    show "Port_set_trigger_time 20 (e + 288 + N) \<in> set (trace S1)"
      using tr unfolding tt by simp
    show "Port_out_at_time 10 (e + 256 + N)
           (snd (OUT16 (mem S1 Out_s 0 0 0) (mem S1 Out_s 0 0 1))) \<in> set (trace S1)"
      using tr unfolding tt by simp
  qed
qed

section \<open>A second call of the driver\<close>

text \<open>
  What holds of every commit of a call, whatever the call finds in the selector: the
  \<open>n + 1\<close>-th commit leaves the pointers at different elements of the right double
  buffers, with one index for both directions, and flips the selector once. It exchanges
  working and safe if it is not the first commit of the call, or if the call found the
  selector at 0.
\<close>

lemma commit_buffers_in_a_call:
  "let before = (commit_buffers In_s Out_s ^^ n) (entry_state c);
       after = commit_buffers In_s Out_s before
   in fst (working_in_buffer after) = In_s \<and> fst (safe_in_buffer after) = In_s
    \<and> fst (working_out_buffer after) = Out_s \<and> fst (safe_out_buffer after) = Out_s
    \<and> snd (working_in_buffer after) < 2 \<and> snd (safe_in_buffer after) < 2
    \<and> snd (working_out_buffer after) < 2 \<and> snd (safe_out_buffer after) < 2
    \<and> working_in_buffer after \<noteq> safe_in_buffer after
    \<and> working_out_buffer after \<noteq> safe_out_buffer after
    \<and> snd (working_in_buffer after) = snd (working_out_buffer after)
    \<and> snd (safe_in_buffer after) = snd (safe_out_buffer after)
    \<and> current_buf_no after = current_buf_no before XOR 1
    \<and> current_buf_no after \<noteq> current_buf_no before
    \<and> (0 < n \<or> \<not> buf_no_flipped c \<longrightarrow>
           working_in_buffer after = safe_in_buffer before
         \<and> safe_in_buffer after = working_in_buffer before
         \<and> working_out_buffer after = safe_out_buffer before
         \<and> safe_out_buffer after = working_out_buffer before)
    \<and> fst (working_in_buffer (snd (tdm_slave m r))) = In_s
    \<and> fst (safe_in_buffer (snd (tdm_slave m r))) = In_s
    \<and> fst (working_out_buffer (snd (tdm_slave m r))) = Out_s
    \<and> fst (safe_out_buffer (snd (tdm_slave m r))) = Out_s
    \<and> snd (working_in_buffer (snd (tdm_slave m r))) < 2
    \<and> snd (safe_in_buffer (snd (tdm_slave m r))) < 2
    \<and> snd (working_out_buffer (snd (tdm_slave m r))) < 2
    \<and> snd (safe_out_buffer (snd (tdm_slave m r))) < 2
    \<and> working_in_buffer (snd (tdm_slave m r)) \<noteq> safe_in_buffer (snd (tdm_slave m r))
    \<and> working_out_buffer (snd (tdm_slave m r)) \<noteq> safe_out_buffer (snd (tdm_slave m r))
    \<and> snd (working_in_buffer (snd (tdm_slave m r)))
        = snd (working_out_buffer (snd (tdm_slave m r)))
    \<and> snd (safe_in_buffer (snd (tdm_slave m r))) = snd (safe_out_buffer (snd (tdm_slave m r)))"
  unfolding Let_def
  by (intro conjI impI commit_buffers_step [OF pointers_ok_commits]
      commit_buffers_swap [OF selector_ok_commits]
      pointers_ok_distinct [OF tdm_slave_pointers_ok]
      pointers_ok_ptrs(1,2,3,4) [OF tdm_slave_pointers_ok])

lemma two_frame_run_ok:
  "unat (arg_num_chans (next_call S two_frame_run)) \<le> TDM_MAX_CHANS"
  "unat (arg_num_in (next_call S two_frame_run)) \<le> TDM_MAX_PORTS"
  "unat (arg_num_out (next_call S two_frame_run)) \<le> TDM_MAX_PORTS"
  "unat (arg_num_chans two_frame_run) \<le> TDM_MAX_CHANS"
  "unat (arg_num_in two_frame_run) \<le> TDM_MAX_PORTS"
  "unat (arg_num_out two_frame_run) \<le> TDM_MAX_PORTS"
  by (simp_all add: next_call_def two_frame_run_def test_call_def TDM_MAX_CHANS_def TDM_MAX_PORTS_def)

lemma selector_ok_working:
  assumes "selector_ok st"
  shows "working_in_buffer st = (In_s, unat (current_buf_no st XOR 1))"
    and "working_out_buffer st = (Out_s, unat (current_buf_no st XOR 1))"
  using assms by (simp_all add: selector_ok_def)

lemma two_frame_run_start:
  assumes "c = two_frame_run \<or> c = next_call S two_frame_run"
  obtains S1 where "tdm_slave 1 c = (Out_of_fuel, S1)"
    and "init_phase (tdm_slave_init_ports (entry_state c)) = Inr S1"
    and "selector_ok S1" and "num_out S1 = 1" and "restart S1 = TDM_NO_RESTART"
    and "tdm_cbg S1 = test_cbg 0 2 TDM_SHUTDOWN" and "app_data S1 = 0"
    and "current_buf_no S1 = current_buf_no (entry_state c) XOR 1"
    and "filter is_callback (trace S1) = [Call_init, Call_process (In_s, 0) (Out_s, 0)]"
proof -
  define st0 where "st0 = tdm_slave_init_ports (entry_state c)"
  have okc: "unat (arg_num_chans c) \<le> TDM_MAX_CHANS" "unat (arg_num_in c) \<le> TDM_MAX_PORTS"
    "unat (arg_num_out c) \<le> TDM_MAX_PORTS"
    using assms two_frame_run_ok by auto
  from tdm_slave_one [OF okc]
  obtain S1 where ip: "init_phase st0 = Inr S1"
    and run: "tdm_slave 1 c = (Out_of_fuel, S1)"
    unfolding st0_def by blast
  have f0: "num_out st0 = 1" "restart st0 = TDM_NO_RESTART"
    "tdm_cbg st0 = test_cbg 0 2 TDM_SHUTDOWN" "app_data st0 = 0"
    "safe_in_buffer st0 = (In_s, 0)" "safe_out_buffer st0 = (Out_s, 0)"
    "current_buf_no st0 = current_buf_no (entry_state c)"
    using assms
    by (auto simp add: st0_def tdm_slave_init_ports_eq entry_state_def next_call_def
        two_frame_run_def test_call_def)
  have cb0: "filter is_callback (trace st0) = []"
    by (simp add: st0_def callbacks_init_ports entry_state_def)
  have ok0: "pointers_ok st0"
    unfolding st0_def by (rule tdm_slave_accepted(2) [OF okc])
  note k = init_phase_keeps [OF ip]
  show ?thesis
  proof (rule that [of S1])
    show "tdm_slave 1 c = (Out_of_fuel, S1)" by (rule run)
    show "init_phase (tdm_slave_init_ports (entry_state c)) = Inr S1"
      using ip unfolding st0_def .
    show "selector_ok S1" using k(12) ok0 by simp
    show "num_out S1 = 1" using k(1) f0 by simp
    show "restart S1 = TDM_NO_RESTART" using k(5) f0 by simp
    show "tdm_cbg S1 = test_cbg 0 2 TDM_SHUTDOWN" using k(4) f0 by simp
    show "app_data S1 = 0"
      unfolding init_phase_app(1) [OF ip] by (simp add: f0 test_cbg_def)
    show "current_buf_no S1 = current_buf_no (entry_state c) XOR 1"
      unfolding init_phase_app(2) [OF ip] by (simp add: f0)
    show "filter is_callback (trace S1) = [Call_init, Call_process (In_s, 0) (Out_s, 0)]"
      unfolding callbacks_init_phase(1) [OF ip] by (simp add: cb0 f0)
  qed
qed

lemma two_frame_run_returns:
  obtains S3 where "tdm_slave 3 two_frame_run = (Returned, S3)" and "current_buf_no S3 = 1"
proof -
  define st0 where "st0 = tdm_slave_init_ports (entry_state two_frame_run)"
  obtain S1 where s1: "init_phase st0 = Inr S1"
    "selector_ok S1" "num_out S1 = 1" "restart S1 = TDM_NO_RESTART"
    "tdm_cbg S1 = test_cbg 0 2 TDM_SHUTDOWN" "app_data S1 = 0"
    "current_buf_no S1 = current_buf_no (entry_state two_frame_run) XOR 1"
    unfolding st0_def by (rule two_frame_run_start [of two_frame_run]) blast+
  have b1: "current_buf_no S1 = 1"
    unfolding s1(7) by (simp add: entry_state_def two_frame_run_def test_call_def)
  have n1: "unat (num_out S1) \<le> TDM_MAX_PORTS"
    by (simp add: s1 TDM_MAX_PORTS_def)
  from frame_body_ok [OF selector_ok_pointers_ok [OF s1(2)] n1]
  obtain S2 where fb1: "frame_body S1 = Inr S2"
    by blast
  note k1 = frame_body_keeps [OF fb1]
  have s2: "selector_ok S2" "num_out S2 = 1" "restart S2 = TDM_NO_RESTART"
    "tdm_cbg S2 = test_cbg 0 2 TDM_SHUTDOWN"
    using k1(11) selector_ok_pointers_ok [OF s1(2)] k1(1) k1(4) k1(7)
    by (simp_all add: s1 test_cbg_def)
  have a2: "app_data S2 = Suc 0"
    unfolding frame_body_app(1) [OF fb1] by (simp add: s1 test_cbg_def)
  have b2: "current_buf_no S2 = 0"
    unfolding frame_body_app(2) [OF fb1] by (simp add: b1)
  have n2: "unat (num_out S2) \<le> TDM_MAX_PORTS"
    by (simp add: s2 TDM_MAX_PORTS_def)
  from frame_body_ok [OF selector_ok_pointers_ok [OF s2(1)] n2]
  obtain S3 where fb2: "frame_body S2 = Inr S3"
    by blast
  note k2 = frame_body_keeps [OF fb2]
  have r3: "restart S3 = TDM_SHUTDOWN"
    using k2(4) by (simp add: s2 a2 test_cbg_def)
  have b3: "current_buf_no S3 = 1"
    unfolding frame_body_app(2) [OF fb2] by (simp add: b2)
  have "running_loop (Suc (Suc 0)) S1 = running_loop (Suc 0) S2"
    using s1(4) fb1 by (rule running_loop_step)
  also have "\<dots> = running_loop 0 S3"
    using s2(3) fb2 by (rule running_loop_step)
  also have "\<dots> = (Returned, S3)"
    using r3 by (simp add: running_loop_exit)
  finally have inner: "running_loop (Suc (Suc 0)) S1 = (Returned, S3)" .
  have r0: "restart st0 \<noteq> TDM_SHUTDOWN"
    by (simp add: st0_def tdm_slave_init_ports_eq entry_state_def)
  have "outer_loop (Suc (Suc (Suc 0))) st0 = outer_loop (Suc (Suc 0)) S3"
    using r0 s1(1) inner by (rule outer_loop_step)
  also have "\<dots> = (Returned, S3)"
    using r3 by (rule outer_loop_exit)
  finally have "tdm_slave 3 two_frame_run = (Returned, S3)"
    by (simp add: tdm_slave_accepted(1) [OF two_frame_run_ok(4,5,6)] st0_def numeral_3_eq_3)
  then show ?thesis
    using b3 by (rule that)
qed

lemma call_process_mem:
  assumes "call_process st = Inr st'"
  shows "mem st' d k =
    (if (d, k) = safe_out_buffer st
     then snd (snd (process (tdm_cbg st) (app_data st) (num_out st) (num_in st) (num_chans st)
          (num_data_bits st)
          (mem st (fst (safe_in_buffer st)) (snd (safe_in_buffer st)))
          (mem st (fst (safe_out_buffer st)) (snd (safe_out_buffer st)))))
     else if (d, k) = safe_in_buffer st
     then fst (snd (process (tdm_cbg st) (app_data st) (num_out st) (num_in st) (num_chans st)
          (num_data_bits st)
          (mem st (fst (safe_in_buffer st)) (snd (safe_in_buffer st)))
          (mem st (fst (safe_out_buffer st)) (snd (safe_out_buffer st)))))
     else mem st d k)"
proof -
  obtain di ki where si: "safe_in_buffer st = (di, ki)"
    by (cases "safe_in_buffer st")
  obtain dz kz where so: "safe_out_buffer st = (dz, kz)"
    by (cases "safe_out_buffer st")
  obtain a rx' tx' where r:
    "process (tdm_cbg st) (app_data st) (num_out st) (num_in st) (num_chans st)
          (num_data_bits st) (mem st di ki) (mem st dz kz) = (a, rx', tx')"
    by (rule prod_cases3)
  have b: "ki < 2" "kz < 2"
    using assms call_process_trap [of st] by (auto simp add: si so)
  have "call_process st =
     Inr (store (dz, kz) tx' (store (di, ki) rx'
            (emit (Call_process (di, ki) (dz, kz)) (st\<lparr>app_data := a\<rparr>))))"
    using b r by (simp add: call_process_def deref_def si so)
  with assms have st': "st' = store (dz, kz) tx' (store (di, ki) rx'
            (emit (Call_process (di, ki) (dz, kz)) (st\<lparr>app_data := a\<rparr>)))"
    by simp
  have "mem st' d k =
    (if (d, k) = (dz, kz) then tx' else if (d, k) = (di, ki) then rx' else mem st d k)"
    unfolding st' by (simp add: store_def emit_def)
  then show ?thesis
    by (simp add: si so r)
qed

lemma init_phase_mem:
  assumes ip: "init_phase st = Inr st'" and n: "0 < num_out st"
  shows "mem st' d k =
    (if (d, k) = safe_out_buffer st
     then snd (snd (process (tdm_cbg st) (fst (init (tdm_cbg st) (app_data st) (tdm_config st)))
          (num_out st) (num_in st) (num_chans st) (num_data_bits st)
          (mem st (fst (safe_in_buffer st)) (snd (safe_in_buffer st)))
          (mem st (fst (safe_out_buffer st)) (snd (safe_out_buffer st)))))
     else if (d, k) = safe_in_buffer st
     then fst (snd (process (tdm_cbg st) (fst (init (tdm_cbg st) (app_data st) (tdm_config st)))
          (num_out st) (num_in st) (num_chans st) (num_data_bits st)
          (mem st (fst (safe_in_buffer st)) (snd (safe_in_buffer st)))
          (mem st (fst (safe_out_buffer st)) (snd (safe_out_buffer st)))))
     else mem st d k)"
proof -
  from ip obtain st5 where p: "init_prime st = Inr st5"
    and q: "preload_data (init_arm st5) = Inr st'"
    by (auto simp add: init_phase_def split: sum.splits)
  from q have m: "mem st' = mem st5"
    by (auto simp add: preload_data_eq init_arm_eq split: if_splits)
  from p n have "call_process (init_config st) = Inr st5"
    by (simp add: init_prime_def Let_def init_config_eq)
  from call_process_mem [OF this, of d k] show ?thesis
    unfolding m by (simp add: init_config_eq)
qed

lemma timed_init_ports:
  "filter is_timed (trace (tdm_slave_init_ports st)) = filter is_timed (trace st)"
proof -
  have a: "filter is_timed (concat (map (\<lambda>l. [Port_start_buffered (f l) 32, Port_set_clock (f l) b,
                           Port_clear_buffer (f l), Port_out (f l) 0]) ls)) = []" for f b ls
    by (induction ls) simp_all
  have b: "filter is_timed (concat (map (\<lambda>l. [Port_start_buffered (f l) 32, Port_set_clock (f l) b,
                           Port_clear_buffer (f l)]) ls)) = []" for f b ls
    by (induction ls) simp_all
  show ?thesis
    by (simp add: tdm_slave_init_ports_eq a b)
qed

lemma init_phase_appends:
  assumes "init_phase st = Inr st'"
  shows "trace st' = trace st @ drop (length (trace st)) (trace st')"
  by (simp add: init_phase_trace [OF assms])

lemma two_frame_run_first_output:
  assumes c: "c = two_frame_run \<or> c = next_call S two_frame_run"
    and ip: "init_phase (tdm_slave_init_ports (entry_state c)) = Inr S1"
  shows "filter is_timed (trace S1) =
           [Port_set_trigger_time 2 388, Port_set_trigger_time 20 388,
            Port_out_at_time 10 356
              (if buf_no_flipped c then 0 else snd (OUT16 0x12345678 0x89ABCDEF))]"
proof -
  define st0 where "st0 = tdm_slave_init_ports (entry_state c)"
  have f0: "num_out st0 = 1" "num_in st0 = 1"
    "tdm_cbg st0 = test_cbg 0 2 TDM_SHUTDOWN" "app_data st0 = 0"
    "safe_in_buffer st0 = (In_s, 0)" "safe_out_buffer st0 = (Out_s, 0)"
    "current_buf_no st0 = (if buf_no_flipped c then 1 else 0)"
    "frame_len st0 = 256" "p_bclk st0 = 2" "num_chans st0 = 16"
    "fsync_edge st0 (waits st0) = 100" "p_din st0 = (\<lambda>l. 20 + l)" "p_dout st0 = (\<lambda>l. 10 + l)"
    "mem st0 = (\<lambda>d k l ch. 0)"
    using c
    by (auto simp add: st0_def tdm_slave_init_ports_eq entry_state_def next_call_def
        two_frame_run_def test_call_def)
  have t0: "filter is_timed (trace st0) = []"
    by (simp add: st0_def timed_init_ports entry_state_def)
  have ip0: "init_phase st0 = Inr S1"
    using ip unfolding st0_def .
  have off: "offset (snd (init (tdm_cbg st0) (app_data st0) (tdm_config st0))) = 0"
    by (simp add: f0 test_cbg_def)
  have n: "0 < num_out st0"
    by (simp add: f0)
  have m0: "mem S1 Out_s 0 0 0 = 0x12345678" "mem S1 Out_s 0 0 (Suc 0) = 0x89ABCDEF"
    unfolding init_phase_mem [OF ip0 n] by (simp_all add: f0 test_cbg_def test_data_def)
  have m1: "mem S1 Out_s (Suc 0) 0 0 = 0" "mem S1 Out_s (Suc 0) 0 (Suc 0) = 0"
    unfolding init_phase_mem [OF ip0 n] by (simp_all add: f0 test_cbg_def)
  have "word_reverse (0 :: u32) = 0"
    by (rule bit_word_eqI) (simp add: bit_word_reverse_iff)
  then have z: "snd (OUT16 0 0) = 0"
    by (simp add: OUT16_eq bitrev_def)
  have "filter is_timed (trace S1) =
          filter is_timed (trace st0) @ filter is_timed (drop (length (trace st0)) (trace S1))"
    by (subst init_phase_appends [OF ip0]) simp
  also have "\<dots> = [Port_set_trigger_time 2 388, Port_set_trigger_time 20 388,
            Port_out_at_time 10 356
              (if buf_no_flipped c then 0 else snd (OUT16 0x12345678 0x89ABCDEF))]"
    unfolding t0 timed_init_phase [OF ip0 off]
    by (simp add: f0 m0 m1 z TDM_PORT_BUFFER_BITS_def)
  finally show ?thesis .
qed

section \<open>The claims\<close>

text \<open>
  C1. For every pair of samples \<open>x0\<close>, \<open>x1\<close>, unpacking with \<^verbatim>\<open>IN16\<close> the word that
  \<^verbatim>\<open>OUT16\<close> packed from them gives back \<open>x0\<close> and \<open>x1\<close> in the low 16 bits, whatever
  the first operand \<open>X\<close> of \<^verbatim>\<open>IN16\<close> held; with \<open>X = 0\<close>, as in the interrupt handler,
  the upper 16 bits of both results are zero.
\<close>

theorem IN16_OUT16_roundtrip:
  "take_bit 16 (fst (IN16 X (snd (OUT16 x0 x1)))) = take_bit 16 x0 \<and>
   take_bit 16 (snd (IN16 X (snd (OUT16 x0 x1)))) = take_bit 16 x1 \<and>
   IN16 0 (snd (OUT16 x0 x1)) = (take_bit 16 x0, take_bit 16 x1)"
proof -
  define P :: u32 where "P = push_bit 16 (take_bit 16 x0) OR take_bit 16 x1"
  have hi: "drop_bit 16 P = take_bit 16 x0"
    unfolding P_def by (rule hi_of_pair)
  have lo: "take_bit 16 P = take_bit 16 x1"
    unfolding P_def by (rule lo_of_pair)
  have w: "bitrev (snd (OUT16 x0 x1)) = P"
    by (simp add: OUT16_eq bitrev_bitrev P_def)
  have a: "take_bit 16 (push_bit 16 (drop_bit 16 X) OR take_bit 16 x0 :: u32) = take_bit 16 x0"
    by (rule bit_eqI) (auto simp add: bit_simps)
  have b: "take_bit 16 (push_bit 16 (take_bit 16 X) OR take_bit 16 x1 :: u32) = take_bit 16 x1"
    by (rule bit_eqI) (auto simp add: bit_simps)
  have f: "fst (IN16 X (snd (OUT16 x0 x1))) = push_bit 16 (drop_bit 16 X) OR take_bit 16 x0"
    by (simp add: IN16_eq w hi)
  have s: "snd (IN16 X (snd (OUT16 x0 x1))) = push_bit 16 (take_bit 16 X) OR take_bit 16 x1"
    by (simp add: IN16_eq w lo)
  have c1: "take_bit 16 (fst (IN16 X (snd (OUT16 x0 x1)))) = take_bit 16 x0"
    unfolding f by (rule a)
  have c2: "take_bit 16 (snd (IN16 X (snd (OUT16 x0 x1)))) = take_bit 16 x1"
    unfolding s by (rule b)
  have c3: "IN16 0 (snd (OUT16 x0 x1)) = (take_bit 16 x0, take_bit 16 x1)"
    by (simp add: IN16_eq w hi lo)
  from c1 c2 c3 show ?thesis
    by (intro conjI)
qed

text \<open>
  C2 (the code departs from the claim). The claim has the working and the safe buffer
  exchange their roles on every commit. The selector \<^verbatim>\<open>current_buf_no\<close> is a static of
  \<^verbatim>\<open>commit_buffers\<close> and keeps its value when \<^verbatim>\<open>tdm_slave\<close> returns, while
  \<^verbatim>\<open>tdm_main_loop\<close> sets the pointers anew at every call, working at \<^verbatim>\<open>buffer[1]\<close> and
  safe at \<^verbatim>\<open>buffer[0]\<close>, which is the complement of what the first commit assigns only if
  the selector is 0. The test application that leaves at the second frame makes three
  commits, so its call returns with the selector at 1. A second call of \<^verbatim>\<open>tdm_slave\<close>
  then starts with the selector at 1, and its first commit leaves working at
  \<^verbatim>\<open>buffer[1]\<close> and safe at \<^verbatim>\<open>buffer[0]\<close> in both directions: the roles are not
  exchanged. In the first call the start sequence sends the buffer that \<^verbatim>\<open>process\<close> has
  just filled (the word packed from the test pattern); in the second call \<^verbatim>\<open>process\<close>
  fills \<^verbatim>\<open>buffer[0]\<close> as before, but the start sequence sends \<^verbatim>\<open>buffer[1]\<close>, the word 0.
\<close>

theorem commit_buffers_after_reentry:
  "fst (tdm_slave 3 two_frame_run) = Returned
   \<and> current_buf_no (snd (tdm_slave 3 two_frame_run)) = 1
   \<and> filter is_callback (trace (snd (tdm_slave 1 two_frame_run)))
        = [Call_init, Call_process (In_s, 0) (Out_s, 0)]
   \<and> working_out_buffer (snd (tdm_slave 1 two_frame_run)) = (Out_s, 0)
   \<and> filter is_timed (trace (snd (tdm_slave 1 two_frame_run)))
        = [Port_set_trigger_time 2 388, Port_set_trigger_time 20 388,
           Port_out_at_time 10 356 (snd (OUT16 0x12345678 0x89ABCDEF))]
   \<and> (let again = next_call (snd (tdm_slave 3 two_frame_run)) two_frame_run;
          before = entry_state again;
          after = commit_buffers In_s Out_s before
      in current_buf_no before = 1 \<and> current_buf_no after = 0
       \<and> working_in_buffer before = (In_s, 1) \<and> safe_in_buffer before = (In_s, 0)
       \<and> working_out_buffer before = (Out_s, 1) \<and> safe_out_buffer before = (Out_s, 0)
       \<and> working_in_buffer after = (In_s, 1) \<and> safe_in_buffer after = (In_s, 0)
       \<and> working_out_buffer after = (Out_s, 1) \<and> safe_out_buffer after = (Out_s, 0)
       \<and> filter is_callback (trace (snd (tdm_slave 1 again)))
            = [Call_init, Call_process (In_s, 0) (Out_s, 0)]
       \<and> working_out_buffer (snd (tdm_slave 1 again)) = (Out_s, 1)
       \<and> safe_out_buffer (snd (tdm_slave 1 again)) = (Out_s, 0)
       \<and> filter is_timed (trace (snd (tdm_slave 1 again)))
            = [Port_set_trigger_time 2 388, Port_set_trigger_time 20 388,
               Port_out_at_time 10 356 0])"
proof -
  obtain S3 where s3: "tdm_slave 3 two_frame_run = (Returned, S3)" "current_buf_no S3 = 1"
    by (rule two_frame_run_returns)
  define again where "again = next_call S3 two_frame_run"
  have fl: "buf_no_flipped again" "\<not> buf_no_flipped two_frame_run"
    by (simp_all add: again_def next_call_def s3 two_frame_run_def test_call_def)
  have e: "current_buf_no (entry_state again) = 1"
    "working_in_buffer (entry_state again) = (In_s, 1)"
    "safe_in_buffer (entry_state again) = (In_s, 0)"
    "working_out_buffer (entry_state again) = (Out_s, 1)"
    "safe_out_buffer (entry_state again) = (Out_s, 0)"
    by (simp_all add: entry_state_def fl)
  have c: "current_buf_no (commit_buffers In_s Out_s (entry_state again)) = 0"
    "working_in_buffer (commit_buffers In_s Out_s (entry_state again)) = (In_s, 1)"
    "safe_in_buffer (commit_buffers In_s Out_s (entry_state again)) = (In_s, 0)"
    "working_out_buffer (commit_buffers In_s Out_s (entry_state again)) = (Out_s, 1)"
    "safe_out_buffer (commit_buffers In_s Out_s (entry_state again)) = (Out_s, 0)"
    by (simp_all add: commit_buffers_eq e)
  have ca: "again = two_frame_run \<or> again = next_call S3 two_frame_run"
    by (simp add: again_def)
  obtain T1 where t1: "tdm_slave 1 again = (Out_of_fuel, T1)"
    "init_phase (tdm_slave_init_ports (entry_state again)) = Inr T1"
    "selector_ok T1"
    "current_buf_no T1 = current_buf_no (entry_state again) XOR 1"
    "filter is_callback (trace T1) = [Call_init, Call_process (In_s, 0) (Out_s, 0)]"
    using ca by (rule two_frame_run_start [of again S3]) blast
  have tb: "current_buf_no T1 = 0"
    unfolding t1(4) e by simp
  have tw: "working_out_buffer T1 = (Out_s, 1)" "safe_out_buffer T1 = (Out_s, 0)"
    using selector_ok_working(2) [OF t1(3)] selector_ok_safe(2) [OF t1(3)] by (simp_all add: tb)
  have tt: "filter is_timed (trace T1) =
      [Port_set_trigger_time 2 388, Port_set_trigger_time 20 388, Port_out_at_time 10 356 0]"
    using two_frame_run_first_output [OF ca t1(2)] fl(1) by simp
  have cf: "two_frame_run = two_frame_run \<or> two_frame_run = next_call S3 two_frame_run"
    by simp
  obtain F1 where f1: "tdm_slave 1 two_frame_run = (Out_of_fuel, F1)"
    "init_phase (tdm_slave_init_ports (entry_state two_frame_run)) = Inr F1"
    "selector_ok F1"
    "current_buf_no F1 = current_buf_no (entry_state two_frame_run) XOR 1"
    "filter is_callback (trace F1) = [Call_init, Call_process (In_s, 0) (Out_s, 0)]"
    using cf by (rule two_frame_run_start [of two_frame_run S3]) blast
  have fb: "current_buf_no F1 = 1"
    unfolding f1(4) by (simp add: entry_state_def fl)
  have fw: "working_out_buffer F1 = (Out_s, 0)"
    using selector_ok_working(2) [OF f1(3)] by (simp add: fb)
  have ft: "filter is_timed (trace F1) =
      [Port_set_trigger_time 2 388, Port_set_trigger_time 20 388,
       Port_out_at_time 10 356 (snd (OUT16 0x12345678 0x89ABCDEF))]"
    using two_frame_run_first_output [OF cf f1(2)] fl(2) by simp
  show ?thesis
    unfolding s3 fst_conv snd_conv Let_def again_def [symmetric] t1(1) f1(1)
    using s3(2) e c t1(5) tw tt f1(5) fw ft by simp
qed

text \<open>
  C3 (the code departs from the claim). The claim has the handler read one word from the
  port of every configured input line and unpack it into channels 0 and 1 of that line.
  The loop of \<^verbatim>\<open>tdm_isr\<close> ends in an unconditional \<^verbatim>\<open>break\<close>, so only line 0 is served.
  In the run with two input lines, at the first firing after the start: the handler
  returns, the only word read comes from port 20 (line 0), port 21 (line 1) has not been
  read, channels 0 and 1 of line 1 of the working input buffer are what they were, and
  line 0 holds the two unpacked samples.
\<close>

theorem tdm_isr_skips_second_line:
  "\<not> isl (tdm_isr (snd (tdm_slave 1 two_line_run)))
   \<and> num_in (snd (tdm_slave 1 two_line_run)) = 2
   \<and> p_din (snd (tdm_slave 1 two_line_run)) 0 = 20
   \<and> p_din (snd (tdm_slave 1 two_line_run)) 1 = 21
   \<and> working_in_buffer (snd (tdm_slave 1 two_line_run)) = (In_s, 0)
   \<and> filter is_port_in (drop (length (trace (snd (tdm_slave 1 two_line_run))))
                                 (trace (projr (tdm_isr (snd (tdm_slave 1 two_line_run))))))
       = [Port_in 20 (snd (OUT16 0x12345678 0x89ABCDEF))]
   \<and> reads (projr (tdm_isr (snd (tdm_slave 1 two_line_run)))) 21 = 0
   \<and> mem (projr (tdm_isr (snd (tdm_slave 1 two_line_run)))) In_s 0 1 0
       = mem (snd (tdm_slave 1 two_line_run)) In_s 0 1 0
   \<and> mem (projr (tdm_isr (snd (tdm_slave 1 two_line_run)))) In_s 0 1 1
       = mem (snd (tdm_slave 1 two_line_run)) In_s 0 1 1
   \<and> mem (projr (tdm_isr (snd (tdm_slave 1 two_line_run)))) In_s 0 0 0 = 0x5678
   \<and> mem (projr (tdm_isr (snd (tdm_slave 1 two_line_run)))) In_s 0 0 1 = 0xCDEF"
proof -
  have ok: "unat (arg_num_chans two_line_run) \<le> TDM_MAX_CHANS"
    "unat (arg_num_in two_line_run) \<le> TDM_MAX_PORTS"
    "unat (arg_num_out two_line_run) \<le> TDM_MAX_PORTS"
    by (simp_all add: two_line_run_def test_call_def TDM_MAX_CHANS_def TDM_MAX_PORTS_def)
  define st0 where "st0 = tdm_slave_init_ports (entry_state two_line_run)"
  from tdm_slave_one [OF ok] obtain S where ip: "init_phase st0 = Inr S"
    and run: "tdm_slave 1 two_line_run = (Out_of_fuel, S)"
    unfolding st0_def by blast
  have f0: "num_in st0 = 2" "p_din st0 = (\<lambda>l. 20 + l)" "reads st0 = (\<lambda>p. 0)"
    "din st0 = (\<lambda>p k. snd (OUT16 0x12345678 0x89ABCDEF))" "current_buf_no st0 = 0"
    by (simp_all add: st0_def tdm_slave_init_ports_eq entry_state_def two_line_run_def
        test_call_def)
  have f: "num_in S = 2" "p_din S = (\<lambda>l. 20 + l)" "reads S = (\<lambda>p. 0)"
    "din S = (\<lambda>p k. snd (OUT16 0x12345678 0x89ABCDEF))" "working_in_buffer S = (In_s, 0)"
    using init_phase_keeps(2) [OF ip] init_phase_hw [OF ip] by (simp_all add: f0)
  have "\<exists>st2. tdm_isr S = Inr st2"
    by (rule tdm_isr_total) (simp add: f)
  then obtain st2 where t: "tdm_isr S = Inr st2"
    by blast
  note e = tdm_isr_effect [OF t]
  have r: "reads st2 21 = 0"
    unfolding e(4) by (simp add: f)
  have m: "mem st2 In_s 0 1 0 = mem S In_s 0 1 0" "mem st2 In_s 0 1 1 = mem S In_s 0 1 1"
    using e(1) [of In_s 0 1 0] e(1) [of In_s 0 1 1] by (simp_all add: f)
  have w: "mem st2 In_s 0 0 0 = 0x5678" "mem st2 In_s 0 0 1 = 0xCDEF"
    using e(2) by (simp_all add: f IN16_of_OUT16)
  have p: "filter is_port_in (drop (length (trace S)) (trace st2))
       = [Port_in 20 (snd (OUT16 0x12345678 0x89ABCDEF))]"
    unfolding e(3) by (simp add: f)
  from t f r m w p show ?thesis
    unfolding run by simp
qed

text \<open>
  C4 (amended). Timestamps are 32-bit words. Each firing of the handler, from a state
  with a valid working pointer, returns and sets the trigger of the bit-clock port to the
  previous trigger time plus \<^verbatim>\<open>frame_len\<close> modulo \<open>2 ^ 32\<close>; after \<open>k\<close> firings the
  trigger is the first one plus \<open>k\<close> frame lengths, so no frame is skipped; the new
  time is not below the previous one whenever the sum does not pass \<open>2 ^ 32\<close>; and in
  every state of a run of \<^verbatim>\<open>tdm_slave\<close> the frame length is
  \<^verbatim>\<open>num_chans * num_data_bits\<close> (modulo \<open>2 ^ 32\<close>).
\<close>

theorem tdm_isr_next_trigger:
  assumes "snd (working_in_buffer st) < 2"
  shows "\<exists>st'. fire k st = Inr st'
           \<and> ptime st' (p_bclk st) = ptime st (p_bclk st) + of_nat k * frame_len st
           \<and> (\<exists>st1. tdm_isr st = Inr st1
                \<and> ptime st1 (p_bclk st) = ptime st (p_bclk st) + frame_len st
                \<and> unat (ptime st1 (p_bclk st))
                     = (unat (ptime st (p_bclk st)) + unat (frame_len st)) mod 2 ^ 32
                \<and> (unat (ptime st (p_bclk st)) + unat (frame_len st) < 2 ^ 32
                     \<longrightarrow> ptime st (p_bclk st) \<le> ptime st1 (p_bclk st)))
           \<and> frame_len (snd (tdm_slave n c)) = arg_num_chans c * arg_num_data_bits c"
proof -
  from fire_total [OF assms] obtain st' where f: "fire k st = Inr st'"
    by blast
  from tdm_isr_total [OF assms] obtain st1 where one: "tdm_isr st = Inr st1"
    by blast
  have p1: "ptime st1 (p_bclk st) = ptime st (p_bclk st) + frame_len st"
    by (simp add: tdm_isr_keeps(1) [OF one])
  have u: "unat (ptime st1 (p_bclk st))
             = (unat (ptime st (p_bclk st)) + unat (frame_len st)) mod 2 ^ 32"
    unfolding p1 by (simp add: unat_word_ariths)
  have m: "ptime st (p_bclk st) \<le> ptime st1 (p_bclk st)"
    if "unat (ptime st (p_bclk st)) + unat (frame_len st) < 2 ^ 32"
    using that u by (simp add: word_le_nat_alt)
  have e: "frame_len (snd (tdm_slave n c)) = arg_num_chans c * arg_num_data_bits c"
    by (rule tdm_slave_frame_len)
  from f fire_trigger [OF f] one p1 u m e show ?thesis
    by blast
qed

text \<open>
  The claim as stated, that the trigger time never decreases, fails where the sum wraps:
  with the first frame-sync edge at \<^verbatim>\<open>0xFFFFFE00\<close> and frames of 256 bit clocks, the
  handler is armed for \<^verbatim>\<open>0xFFFFFF20\<close> and its first firing reschedules it for
  \<^verbatim>\<open>0x20\<close>.
\<close>

theorem tdm_isr_trigger_wraps:
  "\<not> isl (tdm_isr (snd (tdm_slave 1 (test_run TDM_NO_RESTART 0xFFFFFE00))))
   \<and> frame_len (snd (tdm_slave 1 (test_run TDM_NO_RESTART 0xFFFFFE00))) = 256
   \<and> ptime (snd (tdm_slave 1 (test_run TDM_NO_RESTART 0xFFFFFE00)))
           (p_bclk (snd (tdm_slave 1 (test_run TDM_NO_RESTART 0xFFFFFE00)))) = 0xFFFFFF20
   \<and> ptime (projr (tdm_isr (snd (tdm_slave 1 (test_run TDM_NO_RESTART 0xFFFFFE00)))))
           (p_bclk (snd (tdm_slave 1 (test_run TDM_NO_RESTART 0xFFFFFE00)))) = 0x20
   \<and> ptime (projr (tdm_isr (snd (tdm_slave 1 (test_run TDM_NO_RESTART 0xFFFFFE00)))))
           (p_bclk (snd (tdm_slave 1 (test_run TDM_NO_RESTART 0xFFFFFE00))))
       < ptime (snd (tdm_slave 1 (test_run TDM_NO_RESTART 0xFFFFFE00)))
           (p_bclk (snd (tdm_slave 1 (test_run TDM_NO_RESTART 0xFFFFFE00))))"
proof -
  obtain S1 where s: "tdm_slave 1 (test_run TDM_NO_RESTART 0xFFFFFE00) = (Out_of_fuel, S1)"
    "selector_ok S1" "frame_len S1 = 256" "p_bclk S1 = 2" "ptime S1 2 = 0xFFFFFE00 + 288"
    by (rule test_run_start [of TDM_NO_RESTART "0xFFFFFE00"]) blast
  from tdm_isr_total [OF selector_ok_ptrs(3) [OF s(2)]]
  obtain st' where one: "tdm_isr S1 = Inr st'"
    by blast
  have p: "ptime st' 2 = 0x20"
    unfolding tdm_isr_keeps(1) [OF one] by (simp add: s)
  from one p s(3,4,5) show ?thesis
    unfolding s(1) by simp
qed

text \<open>The amended statement at the start of the test run, for three firings.\<close>

theorem tdm_isr_next_trigger_witness:
  "snd (working_in_buffer (snd (tdm_slave 1 (test_run TDM_NO_RESTART 100)))) < 2
   \<and> ptime (snd (tdm_slave 1 (test_run TDM_NO_RESTART 100))) 2 = 388
   \<and> unat (ptime (snd (tdm_slave 1 (test_run TDM_NO_RESTART 100))) 2)
       + unat (frame_len (snd (tdm_slave 1 (test_run TDM_NO_RESTART 100)))) < 2 ^ 32
   \<and> (\<exists>st'. fire 3 (snd (tdm_slave 1 (test_run TDM_NO_RESTART 100))) = Inr st'
          \<and> ptime st' 2 = 388 + 3 * 256)
   \<and> (\<exists>st1. tdm_isr (snd (tdm_slave 1 (test_run TDM_NO_RESTART 100))) = Inr st1
          \<and> ptime st1 2 = 644
          \<and> ptime (snd (tdm_slave 1 (test_run TDM_NO_RESTART 100))) 2 \<le> ptime st1 2)"
proof -
  obtain S1 where s: "tdm_slave 1 (test_run TDM_NO_RESTART 100) = (Out_of_fuel, S1)"
    "selector_ok S1" "frame_len S1 = 256" "p_bclk S1 = 2" "ptime S1 2 = 100 + 288"
    by (rule test_run_start [of TDM_NO_RESTART 100]) blast
  note w = selector_ok_ptrs(3) [OF s(2)]
  have small: "unat (ptime S1 2) + unat (frame_len S1) < 2 ^ 32"
    by (simp add: s)
  from tdm_isr_next_trigger [OF w, of 3]
  obtain st' st1 where st': "fire 3 S1 = Inr st'"
    "ptime st' (p_bclk S1) = ptime S1 (p_bclk S1) + of_nat 3 * frame_len S1"
    "tdm_isr S1 = Inr st1"
    "ptime st1 (p_bclk S1) = ptime S1 (p_bclk S1) + frame_len S1"
    "unat (ptime S1 (p_bclk S1)) + unat (frame_len S1) < 2 ^ 32
       \<longrightarrow> ptime S1 (p_bclk S1) \<le> ptime st1 (p_bclk S1)"
    by blast
  have a: "ptime st' 2 = 388 + 3 * 256"
    using st'(2) by (simp add: s)
  have b: "ptime st1 2 = 644"
    using st'(4) by (simp add: s)
  have c: "ptime S1 2 \<le> ptime st1 2"
    using st'(5) small by (simp add: s(4))
  from st'(1) a have A: "\<exists>st'. fire 3 S1 = Inr st' \<and> ptime st' 2 = 388 + 3 * 256"
    by blast
  from st'(3) b c have B: "\<exists>st1. tdm_isr S1 = Inr st1 \<and> ptime st1 2 = 644
          \<and> ptime S1 2 \<le> ptime st1 2"
    by blast
  have p: "ptime S1 2 = 388"
    by (simp add: s)
  from w p small A B show ?thesis
    unfolding s(1) snd_conv by (intro conjI)
qed

text \<open>
  C5. Let \<open>st\<close> be the state at the top of the inner loop (the loop is running, and
  the pointers and \<^verbatim>\<open>num_out\<close> are as \<^verbatim>\<open>tdm_slave\<close> leaves them), and let
  \<^verbatim>\<open>restart_check\<close> answer \<^verbatim>\<open>TDM_SHUTDOWN\<close> in this frame. Then the frame completes,
  the inner loop returns after this one iteration whatever fuel is left, the outer loop
  returns at once with the same state, and all that was logged since the top of the loop
  is this frame: the wait for frame sync, the call of \<^verbatim>\<open>restart_check\<close>, the call of
  \<^verbatim>\<open>process\<close>, the commit and the preload. Nothing of a next frame follows.
\<close>

theorem shutdown_ends_the_run:
  assumes "pointers_ok st" and "unat (num_out st) \<le> TDM_MAX_PORTS"
    and "restart st = TDM_NO_RESTART"
    and "snd (restart_check (tdm_cbg st) (app_data st)) = TDM_SHUTDOWN"
  shows "\<exists>st'. frame_body st = Inr st'
           \<and> running_loop (Suc n) st = (Returned, st')
           \<and> outer_loop m st' = (Returned, st')
           \<and> trace st' = trace st @
                [Port_in_when_pinseq (p_fsync st) 1, Call_restart_check TDM_SHUTDOWN,
                 Call_process (safe_in_buffer st) (safe_out_buffer st),
                 Enter_commit_buffers, Enter_preload_data] @
                map (preload_event st') [0 ..< unat (num_out st)]"
proof -
  from frame_body_ok [OF assms(1,2)] obtain st' where fb: "frame_body st = Inr st'"
    by blast
  have r: "restart st' = TDM_SHUTDOWN"
    using frame_body_keeps(4) [OF fb] assms(4) by simp
  then have "running_loop n st' = (Returned, st')"
    by (simp add: running_loop_exit)
  with assms(3) fb have inner: "running_loop (Suc n) st = (Returned, st')"
    by simp
  have outer: "outer_loop m st' = (Returned, st')"
    using r by (rule outer_loop_exit)
  from fb inner outer frame_body_trace [OF fb] assms(4) show ?thesis
    by simp
qed

text \<open>
  In the test run whose application answers \<^verbatim>\<open>TDM_SHUTDOWN\<close> at the first frame, the
  state after the start satisfies the hypotheses, and the callbacks of the whole run are
  \<^verbatim>\<open>init\<close>, the first \<^verbatim>\<open>process\<close>, \<^verbatim>\<open>restart_check\<close> and the \<^verbatim>\<open>process\<close> of that frame.
\<close>

theorem shutdown_ends_the_run_witness:
  "pointers_ok (snd (tdm_slave 1 (test_run TDM_SHUTDOWN 100)))
   \<and> restart (snd (tdm_slave 1 (test_run TDM_SHUTDOWN 100))) = TDM_NO_RESTART
   \<and> snd (restart_check (tdm_cbg (snd (tdm_slave 1 (test_run TDM_SHUTDOWN 100))))
                          (app_data (snd (tdm_slave 1 (test_run TDM_SHUTDOWN 100))))) = TDM_SHUTDOWN
   \<and> (\<exists>st'. frame_body (snd (tdm_slave 1 (test_run TDM_SHUTDOWN 100))) = Inr st'
          \<and> running_loop (Suc 3) (snd (tdm_slave 1 (test_run TDM_SHUTDOWN 100))) = (Returned, st')
          \<and> outer_loop 3 st' = (Returned, st')
          \<and> filter is_callback (trace st') =
               [Call_init, Call_process (In_s, 0) (Out_s, 0),
                Call_restart_check TDM_SHUTDOWN, Call_process (In_s, 1) (Out_s, 1)])"
proof -
  obtain S1 where s1: "tdm_slave 1 (test_run TDM_SHUTDOWN 100) = (Out_of_fuel, S1)"
    "selector_ok S1" "num_out S1 = 1" "restart S1 = TDM_NO_RESTART"
    "tdm_cbg S1 = test_cbg 0 1 TDM_SHUTDOWN" "app_data S1 = 0" "current_buf_no S1 = 1"
    "filter is_callback (trace S1) = [Call_init, Call_process (In_s, 0) (Out_s, 0)]"
    by (rule test_run_start [of TDM_SHUTDOWN 100]) blast
  have n: "unat (num_out S1) \<le> TDM_MAX_PORTS"
    by (simp add: s1 TDM_MAX_PORTS_def)
  have sig: "snd (restart_check (tdm_cbg S1) (app_data S1)) = TDM_SHUTDOWN"
    by (simp add: s1 test_cbg_def)
  note p1 = selector_ok_pointers_ok [OF s1(2)]
  from shutdown_ends_the_run [OF p1 n s1(4) sig, of 3 3]
  obtain st' where st': "frame_body S1 = Inr st'" "running_loop (Suc 3) S1 = (Returned, st')"
    "outer_loop 3 st' = (Returned, st')"
    "trace st' = trace S1 @
                [Port_in_when_pinseq (p_fsync S1) 1, Call_restart_check TDM_SHUTDOWN,
                 Call_process (safe_in_buffer S1) (safe_out_buffer S1),
                 Enter_commit_buffers, Enter_preload_data] @
                map (preload_event st') [0 ..< unat (num_out S1)]"
    by blast
  have cb: "filter is_callback (trace st') =
               [Call_init, Call_process (In_s, 0) (Out_s, 0),
                Call_restart_check TDM_SHUTDOWN, Call_process (In_s, 1) (Out_s, 1)]"
    unfolding st'(4) by (simp add: s1(7,8) selector_ok_safe [OF s1(2)])
  from p1 s1(4) sig st'(1,2,3) cb show ?thesis
    unfolding s1(1) by auto
qed

text \<open>
  C6 (amended). Every pass of the outer loop that is not stopped by \<^verbatim>\<open>TDM_SHUTDOWN\<close>
  starts with the start sequence, whatever \<^verbatim>\<open>first_time\<close> and \<^verbatim>\<open>restart\<close> hold, and
  the start sequence calls \<^verbatim>\<open>process\<close> exactly once if \<^verbatim>\<open>num_out > 0\<close> and not at all
  if \<^verbatim>\<open>num_out = 0\<close>; it leaves \<^verbatim>\<open>first_time\<close> as it was. So the first call of
  \<^verbatim>\<open>process\<close> is made on every entry, the first and those after a restart, and
  receive-only configurations never get it.
\<close>

theorem priming_call_on_every_init:
  assumes "pointers_ok st" and "unat (num_out st) \<le> TDM_MAX_PORTS"
  shows "\<exists>st'. init_phase st = Inr st'
           \<and> filter is_process (drop (length (trace st)) (trace st')) =
               (if 0 < num_out st
                then [Call_process (safe_in_buffer st) (safe_out_buffer st)] else [])
           \<and> first_time st' = first_time st
           \<and> (restart st \<noteq> TDM_SHUTDOWN \<longrightarrow>
                outer_loop (Suc n) st =
                  (case running_loop n st' of
                     (Returned, st2) \<Rightarrow> outer_loop n st2
                   | (r, st2) \<Rightarrow> (r, st2)))"
proof -
  from init_phase_ok [OF assms] obtain st' where ip: "init_phase st = Inr st'"
    by blast
  from ip callbacks_init_phase(2) [OF ip] init_phase_keeps(7) [OF ip] show ?thesis
    by simp
qed

text \<open>
  The claim as stated, that the call is not made again after a restart, fails: in the
  test run whose application answers \<^verbatim>\<open>TDM_RESTART\<close> at the first frame, the callbacks
  logged are \<^verbatim>\<open>init\<close>, \<^verbatim>\<open>process\<close>, \<^verbatim>\<open>restart_check\<close>, the \<^verbatim>\<open>process\<close> of the frame,
  and then \<^verbatim>\<open>init\<close> and \<^verbatim>\<open>process\<close> again.
\<close>

theorem priming_call_after_restart:
  "filter is_callback (trace (snd (tdm_slave 2 (test_run TDM_RESTART 100)))) =
     [Call_init, Call_process (In_s, 0) (Out_s, 0),
      Call_restart_check TDM_RESTART, Call_process (In_s, 1) (Out_s, 1),
      Call_init, Call_process (In_s, 0) (Out_s, 0)]"
proof -
  obtain S3 where "tdm_slave 2 (test_run TDM_RESTART 100) = (Out_of_fuel, S3)"
    and "filter is_callback (trace S3) =
           [Call_init, Call_process (In_s, 0) (Out_s, 0),
            Call_restart_check TDM_RESTART, Call_process (In_s, 1) (Out_s, 1),
            Call_init, Call_process (In_s, 0) (Out_s, 0)]"
    by (rule test_run_restart [of 100]) blast
  then show ?thesis by simp
qed

text \<open>The amended statement at the state that run reaches, after the restart.\<close>

theorem priming_call_on_every_init_witness:
  "pointers_ok (snd (tdm_slave 2 (test_run TDM_RESTART 100)))
   \<and> unat (num_out (snd (tdm_slave 2 (test_run TDM_RESTART 100)))) \<le> TDM_MAX_PORTS
   \<and> restart (snd (tdm_slave 2 (test_run TDM_RESTART 100))) = TDM_RESTART
   \<and> (\<exists>st'. init_phase (snd (tdm_slave 2 (test_run TDM_RESTART 100))) = Inr st'
          \<and> filter is_process (drop (length (trace (snd (tdm_slave 2 (test_run TDM_RESTART 100)))))
                                   (trace st')) =
              [Call_process (In_s, 1) (Out_s, 1)]
          \<and> outer_loop (Suc 0) (snd (tdm_slave 2 (test_run TDM_RESTART 100))) =
              (case running_loop 0 st' of
                 (Returned, st2) \<Rightarrow> outer_loop 0 st2
               | (r, st2) \<Rightarrow> (r, st2)))"
proof -
  obtain S3 where s: "tdm_slave 2 (test_run TDM_RESTART 100) = (Out_of_fuel, S3)"
    "selector_ok S3" "num_out S3 = 1" "restart S3 = TDM_RESTART" "current_buf_no S3 = 1"
    by (rule test_run_restart [of 100]) blast
  have n: "unat (num_out S3) \<le> TDM_MAX_PORTS"
    by (simp add: s TDM_MAX_PORTS_def)
  note p3 = selector_ok_pointers_ok [OF s(2)]
  from priming_call_on_every_init [OF p3 n, of 0]
  obtain st' where st': "init_phase S3 = Inr st'"
    "filter is_process (drop (length (trace S3)) (trace st')) =
       (if 0 < num_out S3 then [Call_process (safe_in_buffer S3) (safe_out_buffer S3)] else [])"
    "restart S3 \<noteq> TDM_SHUTDOWN \<longrightarrow>
       outer_loop (Suc 0) S3 =
         (case running_loop 0 st' of
            (Returned, st2) \<Rightarrow> outer_loop 0 st2
          | (r, st2) \<Rightarrow> (r, st2))"
    by blast
  have "filter is_process (drop (length (trace S3)) (trace st')) =
          [Call_process (In_s, 1) (Out_s, 1)]"
    unfolding st'(2) by (simp add: s(3,5) selector_ok_safe [OF s(2)])
  moreover have "outer_loop (Suc 0) S3 =
         (case running_loop 0 st' of
            (Returned, st2) \<Rightarrow> outer_loop 0 st2
          | (r, st2) \<Rightarrow> (r, st2))"
    using st'(3) s(4) by simp
  ultimately have "\<exists>st'. init_phase S3 = Inr st'
          \<and> filter is_process (drop (length (trace S3)) (trace st')) =
              [Call_process (In_s, 1) (Out_s, 1)]
          \<and> outer_loop (Suc 0) S3 =
              (case running_loop 0 st' of
                 (Returned, st2) \<Rightarrow> outer_loop 0 st2
               | (r, st2) \<Rightarrow> (r, st2))"
    using st'(1) by blast
  with p3 s(4) n show ?thesis
    unfolding s(1) by simp
qed

text \<open>
  C7 (amended). The start sequence, from a state with valid pointers, returns; the
  frame-sync time it records is the time of the awaited edge, the offset is the one
  \<^verbatim>\<open>init\<close> configured, and after the wait it sets up the interrupt, sets the trigger of
  the bit-clock port and enables it, the trigger time being frame-sync time plus frame
  length plus offset plus \<^verbatim>\<open>TDM_PORT_BUFFER_BITS\<close>, which is 32, modulo \<open>2 ^ 32\<close>.
\<close>

theorem first_trigger_time:
  assumes "pointers_ok st" and "unat (num_out st) \<le> TDM_MAX_PORTS"
  shows "\<exists>st'. init_phase st = Inr st'
           \<and> fsync_time st' = fsync_edge st (waits st)
           \<and> num_bclk_cycles_offset st' = offset (tdm_config st')
           \<and> ptime st' (p_bclk st')
               = fsync_time st' + frame_len st' + offset (tdm_config st') + TDM_PORT_BUFFER_BITS
           \<and> (\<exists>pre post. drop (length (trace st)) (trace st') =
                 pre @ [Port_in_when_pinseq (p_fsync st) 1,
                        Triggerable_setup_interrupt_callback (p_bclk st),
                        Port_set_trigger_time (p_bclk st)
                          (fsync_time st' + frame_len st' + offset (tdm_config st')
                             + TDM_PORT_BUFFER_BITS),
                        Triggerable_enable_trigger (p_bclk st)] @ post)
           \<and> TDM_PORT_BUFFER_BITS = 32"
proof -
  from init_phase_ok [OF assms] obtain st' where ip: "init_phase st = Inr st'"
    by blast
  note k = init_phase_keeps [OF ip]
  have a: "fsync_time st' = fsync_edge st (waits st)"
    by (rule k(8))
  have b: "num_bclk_cycles_offset st' = offset (tdm_config st')"
    unfolding k(9) by (rule k(10))
  have c: "ptime st' (p_bclk st')
               = fsync_time st' + frame_len st' + offset (tdm_config st') + TDM_PORT_BUFFER_BITS"
    unfolding k(6) k(11) k(8) k(9) k(3) by (rule refl)
  have d: "drop (length (trace st)) (trace st') =
     ([Interrupt_mask_all, Call_init,
            if slave_bclk_polarity (snd (init (tdm_cbg st) (app_data st) (tdm_config st)))
                 = TDM_SLAVE_SAMPLE_ON_BCLK_FALLING
            then Port_set_invert (p_bclk st) else Port_set_no_invert (p_bclk st)] @
           (if 0 < num_out st
            then [Call_process (safe_in_buffer st) (safe_out_buffer st)] else []) @
           [Enter_commit_buffers, Port_clear_buffer (p_fsync st), Clock_start (bclk st)])
       @ [Port_in_when_pinseq (p_fsync st) 1,
                        Triggerable_setup_interrupt_callback (p_bclk st),
                        Port_set_trigger_time (p_bclk st)
                          (fsync_time st' + frame_len st' + offset (tdm_config st')
                             + TDM_PORT_BUFFER_BITS),
                        Triggerable_enable_trigger (p_bclk st)]
       @ (Interrupt_unmask_all #
           concat (map (\<lambda>l. [Port_clear_buffer (p_din st l),
                              Port_set_trigger_time (p_din st l)
                                (fsync_edge st (waits st) + frame_len st
                                   + offset (snd (init (tdm_cbg st) (app_data st) (tdm_config st)))
                                   + TDM_PORT_BUFFER_BITS)])
                     [0 ..< unat (num_in st)]) @
           map (\<lambda>l. Port_clear_buffer (p_dout st l)) [0 ..< unat (num_out st)] @
           Enter_preload_data # map (preload_event st') [0 ..< unat (num_out st)])"
    unfolding k(8) k(9) k(3) init_phase_trace [OF ip] by simp
  have e: "TDM_PORT_BUFFER_BITS = 32"
    by (simp add: TDM_PORT_BUFFER_BITS_def)
  show ?thesis
    apply (rule exI [of _ st'])
    apply (intro conjI)
         apply (rule ip)
        apply (rule a)
       apply (rule b)
      apply (rule c)
     apply (rule exI, rule exI, rule d)
    apply (rule e)
    done
qed

text \<open>
  The claim as stated leaves out the 32 bit clocks of \<^verbatim>\<open>TDM_PORT_BUFFER_BITS\<close>: in the
  test run, with the edge at 100, frames of 256 and offset 0, the trigger is set to 388,
  not to 356.
\<close>

theorem first_trigger_counterexample:
  "ptime (snd (tdm_slave 1 (test_run TDM_NO_RESTART 100)))
         (p_bclk (snd (tdm_slave 1 (test_run TDM_NO_RESTART 100)))) = 388
   \<and> fsync_time (snd (tdm_slave 1 (test_run TDM_NO_RESTART 100)))
       + frame_len (snd (tdm_slave 1 (test_run TDM_NO_RESTART 100)))
       + num_bclk_cycles_offset (snd (tdm_slave 1 (test_run TDM_NO_RESTART 100))) = 356"
proof -
  obtain S1 where s: "tdm_slave 1 (test_run TDM_NO_RESTART 100) = (Out_of_fuel, S1)"
    "fsync_time S1 = 100" "frame_len S1 = 256" "num_bclk_cycles_offset S1 = 0"
    "p_bclk S1 = 2" "ptime S1 2 = 100 + 288"
    by (rule test_run_start [of TDM_NO_RESTART 100]) blast
  then show ?thesis by simp
qed

text \<open>The amended statement at the start of the test run.\<close>

theorem first_trigger_time_witness:
  "pointers_ok (tdm_slave_init_ports (entry_state (test_run TDM_NO_RESTART 100)))
   \<and> unat (num_out (tdm_slave_init_ports (entry_state (test_run TDM_NO_RESTART 100))))
        \<le> TDM_MAX_PORTS
   \<and> (\<exists>st'. init_phase (tdm_slave_init_ports (entry_state (test_run TDM_NO_RESTART 100))) = Inr st'
          \<and> fsync_time st' = 100 \<and> frame_len st' = 256 \<and> offset (tdm_config st') = 0
          \<and> ptime st' (p_bclk st') = 388)"
proof -
  define st0 where "st0 = tdm_slave_init_ports (entry_state (test_run TDM_NO_RESTART 100))"
  have ok: "pointers_ok st0" and n: "unat (num_out st0) \<le> TDM_MAX_PORTS"
    unfolding st0_def by (rule tdm_slave_accepted(2,3) [OF test_run_ok])+
  have f0: "fsync_edge st0 (waits st0) = 100" "frame_len st0 = 256"
    "tdm_cbg st0 = test_cbg 0 1 TDM_NO_RESTART"
    by (simp_all add: st0_def tdm_slave_init_ports_eq entry_state_def test_run_def test_call_def)
  from first_trigger_time [OF ok n] obtain st' where st': "init_phase st0 = Inr st'"
    "fsync_time st' = fsync_edge st0 (waits st0)"
    "ptime st' (p_bclk st')
       = fsync_time st' + frame_len st' + offset (tdm_config st') + TDM_PORT_BUFFER_BITS"
    "TDM_PORT_BUFFER_BITS = 32"
    by blast
  have fl: "frame_len st' = 256"
    using init_phase_keeps(3) [OF st'(1)] f0 by simp
  have off: "offset (tdm_config st') = 0"
    unfolding init_phase_keeps(9) [OF st'(1)] by (simp add: f0 test_cbg_def)
  have p: "ptime st' (p_bclk st') = 388"
    unfolding st'(3) st'(2) st'(4) f0 fl off by simp
  have t: "fsync_time st' = 100"
    unfolding st'(2) by (rule f0)
  from st'(1) t fl off p have "\<exists>st'. init_phase st0 = Inr st'
          \<and> fsync_time st' = 100 \<and> frame_len st' = 256 \<and> offset (tdm_config st') = 0
          \<and> ptime st' (p_bclk st') = 388"
    by blast
  with ok n show ?thesis
    unfolding st0_def by (intro conjI)
qed

text \<open>
  C8 (amended). Take any call of \<^verbatim>\<open>tdm_slave\<close> and run it twice, with the same arguments,
  hardware and application, once with the application configuring the offset \<open>N\<close> and
  once configuring 0. For every amount of fuel the two runs end the same way, and the log
  of the first is the log of the second with every port time moved \<open>N\<close> later, modulo
  \<open>2 ^ 32\<close>: the time of every \<^verbatim>\<open>port_out_at_time\<close> of \<^verbatim>\<open>preload_data\<close>, and the time of
  every \<^verbatim>\<open>port_set_trigger_time\<close> of the start sequence as well. The calls, their order,
  the ports and the words are the same, and so are the sample buffers, the application
  data and every other field of the state; the timestamp register of each port holds the
  same time in both runs or the time \<open>N\<close> later (\<open>same_but_offset\<close>).

  The times themselves, in the run that configures \<open>N\<close>: the start sequence from a state
  \<open>st\<close> of that run sets the trigger of the bit-clock port and of every input port to
  the time of the awaited frame-sync edge plus the frame length plus \<open>N\<close> plus
  \<^verbatim>\<open>TDM_PORT_BUFFER_BITS\<close>, and queues one word for every output line at the time of the
  edge plus the frame length plus \<open>N\<close>; a frame from a state \<open>fr\<close> of that run queues one
  word for every output line at the time of its own edge plus the frame length plus
  \<open>N\<close>; and these are all the port times they log.
\<close>

theorem offset_moves_preload_and_trigger_times:
  assumes "tdm_cbg st = with_offset N B" and "pointers_ok st"
    and "unat (num_out st) \<le> TDM_MAX_PORTS"
    and "num_bclk_cycles_offset fr = N" and "pointers_ok fr"
    and "unat (num_out fr) \<le> TDM_MAX_PORTS"
  shows "fst (tdm_slave n (offset_run N c)) = fst (tdm_slave n (offset_run 0 c))
       \<and> trace (snd (tdm_slave n (offset_run N c)))
           = map (shift_time N) (trace (snd (tdm_slave n (offset_run 0 c))))
       \<and> same_but_offset N (arg_tdm_cbg c) (snd (tdm_slave n (offset_run N c)))
           (snd (tdm_slave n (offset_run 0 c)))
       \<and> (\<exists>st'. init_phase st = Inr st' \<and> num_bclk_cycles_offset st' = N
            \<and> filter is_timed (drop (length (trace st)) (trace st')) =
                Port_set_trigger_time (p_bclk st)
                  (fsync_edge st (waits st) + frame_len st + N + TDM_PORT_BUFFER_BITS)
                # map (\<lambda>l. Port_set_trigger_time (p_din st l)
                              (fsync_edge st (waits st) + frame_len st + N + TDM_PORT_BUFFER_BITS))
                    [0 ..< unat (num_in st)]
                @ map (\<lambda>l. Port_out_at_time (p_dout st l)
                              (fsync_edge st (waits st) + frame_len st + N)
                              (snd (OUT16 (mem st' Out_s (unat (current_buf_no st)) l 0)
                                          (mem st' Out_s (unat (current_buf_no st)) l 1))))
                    [0 ..< unat (num_out st)])
       \<and> (\<exists>fr'. frame_body fr = Inr fr' \<and> num_bclk_cycles_offset fr' = N
            \<and> filter is_timed (drop (length (trace fr)) (trace fr')) =
                map (\<lambda>l. Port_out_at_time (p_dout fr l)
                            (fsync_edge fr (waits fr) + frame_len fr + N)
                            (snd (OUT16 (mem fr' Out_s (unat (current_buf_no fr)) l 0)
                                        (mem fr' Out_s (unat (current_buf_no fr)) l 1))))
                    [0 ..< unat (num_out fr)])"
proof -
  note two = rel_tdm_slave [of n N c]
  from two have a: "fst (tdm_slave n (offset_run N c)) = fst (tdm_slave n (offset_run 0 c))"
    by simp
  from two have b: "same_but_offset N (arg_tdm_cbg c) (snd (tdm_slave n (offset_run N c)))
           (snd (tdm_slave n (offset_run 0 c)))"
    by simp
  then have t: "trace (snd (tdm_slave n (offset_run N c)))
           = map (shift_time N) (trace (snd (tdm_slave n (offset_run 0 c))))"
    by (simp add: same_but_offset_def)
  from init_phase_ok [OF assms(2,3)] obtain st' where ip: "init_phase st = Inr st'"
    by blast
  have off: "offset (snd (init (tdm_cbg st) (app_data st) (tdm_config st))) = N"
    by (simp add: assms(1))
  have oi: "num_bclk_cycles_offset st' = N"
    using init_phase_keeps(10) [OF ip] off by simp
  from frame_body_ok [OF assms(5,6)] obtain fr' where fb: "frame_body fr = Inr fr'"
    by blast
  have ob: "num_bclk_cycles_offset fr' = N"
    using frame_body_keeps(6) [OF fb] assms(4) by simp
  note i = timed_init_phase [OF ip off]
  note f = timed_frame_body [OF fb, unfolded assms(4)]
  from ip oi i have I: "\<exists>st'. init_phase st = Inr st' \<and> num_bclk_cycles_offset st' = N
            \<and> filter is_timed (drop (length (trace st)) (trace st')) =
                Port_set_trigger_time (p_bclk st)
                  (fsync_edge st (waits st) + frame_len st + N + TDM_PORT_BUFFER_BITS)
                # map (\<lambda>l. Port_set_trigger_time (p_din st l)
                              (fsync_edge st (waits st) + frame_len st + N + TDM_PORT_BUFFER_BITS))
                    [0 ..< unat (num_in st)]
                @ map (\<lambda>l. Port_out_at_time (p_dout st l)
                              (fsync_edge st (waits st) + frame_len st + N)
                              (snd (OUT16 (mem st' Out_s (unat (current_buf_no st)) l 0)
                                          (mem st' Out_s (unat (current_buf_no st)) l 1))))
                    [0 ..< unat (num_out st)]"
    by blast
  from fb ob f have F: "\<exists>fr'. frame_body fr = Inr fr' \<and> num_bclk_cycles_offset fr' = N
            \<and> filter is_timed (drop (length (trace fr)) (trace fr')) =
                map (\<lambda>l. Port_out_at_time (p_dout fr l)
                            (fsync_edge fr (waits fr) + frame_len fr + N)
                            (snd (OUT16 (mem fr' Out_s (unat (current_buf_no fr)) l 0)
                                        (mem fr' Out_s (unat (current_buf_no fr)) l 1))))
                    [0 ..< unat (num_out fr)]"
    by blast
  from a t b I F show ?thesis
    by (intro conjI)
qed

text \<open>
  The claim as stated, that nothing but the output preload timestamp moves, fails: in
  the test run with the first edge at 100, the trigger time set on the bit-clock port
  (port 2) and on the input port (port 20) is 393 with the offset 5 and 388 with the
  offset 0.
\<close>

theorem offset_moves_trigger_times_too:
  "ptime (snd (tdm_slave 1 (offset_run 5 (test_run TDM_NO_RESTART 100)))) 2 = 393
   \<and> ptime (snd (tdm_slave 1 (offset_run 0 (test_run TDM_NO_RESTART 100)))) 2 = 388
   \<and> Port_set_trigger_time 2 393 \<in> set (trace (snd (tdm_slave 1 (offset_run 5 (test_run TDM_NO_RESTART 100)))))
   \<and> Port_set_trigger_time 2 388 \<in> set (trace (snd (tdm_slave 1 (offset_run 0 (test_run TDM_NO_RESTART 100)))))
   \<and> Port_set_trigger_time 20 393 \<in> set (trace (snd (tdm_slave 1 (offset_run 5 (test_run TDM_NO_RESTART 100)))))
   \<and> Port_set_trigger_time 20 388 \<in> set (trace (snd (tdm_slave 1 (offset_run 0 (test_run TDM_NO_RESTART 100)))))"
proof -
  obtain SN where n: "tdm_slave 1 (offset_run 5 (test_run TDM_NO_RESTART 100)) = (Out_of_fuel, SN)"
    "ptime SN 2 = 100 + 288 + 5"
    "Port_set_trigger_time 2 (100 + 288 + 5) \<in> set (trace SN)"
    "Port_set_trigger_time 20 (100 + 288 + 5) \<in> set (trace SN)"
    by (rule offset_run_start [of 5 TDM_NO_RESTART 100]) blast
  obtain S0 where z: "tdm_slave 1 (offset_run 0 (test_run TDM_NO_RESTART 100)) = (Out_of_fuel, S0)"
    "ptime S0 2 = 100 + 288 + 0"
    "Port_set_trigger_time 2 (100 + 288 + 0) \<in> set (trace S0)"
    "Port_set_trigger_time 20 (100 + 288 + 0) \<in> set (trace S0)"
    by (rule offset_run_start [of 0 TDM_NO_RESTART 100]) blast
  from n(2,3,4) z(2,3,4) show ?thesis
    unfolding n(1) z(1) by simp
qed

text \<open>
  The amended statement for the test run with the offset 5 against the offset 0: \<open>st\<close> is
  the state before the start sequence and \<open>fr\<close> the state after it.
\<close>

theorem offset_moves_preload_and_trigger_times_witness:
  "tdm_cbg (tdm_slave_init_ports (entry_state (offset_run 5 (test_run TDM_NO_RESTART 100))))
     = with_offset 5 (test_cbg 0 1 TDM_NO_RESTART)
   \<and> pointers_ok (tdm_slave_init_ports (entry_state (offset_run 5 (test_run TDM_NO_RESTART 100))))
   \<and> unat (num_out (tdm_slave_init_ports (entry_state (offset_run 5 (test_run TDM_NO_RESTART 100)))))
        \<le> TDM_MAX_PORTS
   \<and> num_bclk_cycles_offset (snd (tdm_slave 1 (offset_run 5 (test_run TDM_NO_RESTART 100)))) = 5
   \<and> pointers_ok (snd (tdm_slave 1 (offset_run 5 (test_run TDM_NO_RESTART 100))))
   \<and> unat (num_out (snd (tdm_slave 1 (offset_run 5 (test_run TDM_NO_RESTART 100))))) \<le> TDM_MAX_PORTS
   \<and> fst (tdm_slave 3 (offset_run 5 (test_run TDM_NO_RESTART 100)))
       = fst (tdm_slave 3 (offset_run 0 (test_run TDM_NO_RESTART 100)))
   \<and> trace (snd (tdm_slave 3 (offset_run 5 (test_run TDM_NO_RESTART 100))))
       = map (shift_time 5) (trace (snd (tdm_slave 3 (offset_run 0 (test_run TDM_NO_RESTART 100)))))
   \<and> (\<exists>st'. init_phase (tdm_slave_init_ports (entry_state (offset_run 5 (test_run TDM_NO_RESTART 100))))
               = Inr st'
          \<and> filter is_timed
              (drop (length (trace (tdm_slave_init_ports
                                      (entry_state (offset_run 5 (test_run TDM_NO_RESTART 100))))))
                    (trace st')) =
              [Port_set_trigger_time 2 393, Port_set_trigger_time 20 393,
               Port_out_at_time 10 361 (snd (OUT16 (mem st' Out_s 0 0 0) (mem st' Out_s 0 0 1)))])
   \<and> (\<exists>fr'. frame_body (snd (tdm_slave 1 (offset_run 5 (test_run TDM_NO_RESTART 100)))) = Inr fr'
          \<and> num_bclk_cycles_offset fr' = 5)"
proof -
  define c where "c = test_run TDM_NO_RESTART 100"
  define st0 where "st0 = tdm_slave_init_ports (entry_state (offset_run 5 c))"
  obtain S1 where s: "tdm_slave 1 (offset_run 5 c) = (Out_of_fuel, S1)"
    "pointers_ok S1" "num_out S1 = 1" "num_bclk_cycles_offset S1 = 5"
    unfolding c_def by (rule offset_run_start [of 5 TDM_NO_RESTART 100]) blast
  have f0: "num_out st0 = 1" "num_in st0 = 1"
    "tdm_cbg st0 = with_offset 5 (test_cbg 0 1 TDM_NO_RESTART)"
    "current_buf_no st0 = 0" "frame_len st0 = 256" "p_bclk st0 = 2"
    "fsync_edge st0 (waits st0) = 100" "p_din st0 = (\<lambda>l. 20 + l)" "p_dout st0 = (\<lambda>l. 10 + l)"
    by (simp_all add: st0_def c_def tdm_slave_init_ports_eq entry_state_def offset_run_def
        test_run_def test_call_def)
  have ok0: "pointers_ok st0" and n0: "unat (num_out st0) \<le> TDM_MAX_PORTS"
    unfolding st0_def c_def by (rule tdm_slave_accepted(2,3) [OF offset_run_ok])+
  have n1: "unat (num_out S1) \<le> TDM_MAX_PORTS"
    by (simp add: s TDM_MAX_PORTS_def)
  note inst = offset_moves_preload_and_trigger_times [OF f0(3) ok0 n0 s(4) s(2) n1, of 3 c]
  from inst have a: "fst (tdm_slave 3 (offset_run 5 c)) = fst (tdm_slave 3 (offset_run 0 c))"
    and b: "trace (snd (tdm_slave 3 (offset_run 5 c)))
              = map (shift_time 5) (trace (snd (tdm_slave 3 (offset_run 0 c))))"
    by simp_all
  from inst obtain st' where st': "init_phase st0 = Inr st'"
    "filter is_timed (drop (length (trace st0)) (trace st')) =
                Port_set_trigger_time (p_bclk st0)
                  (fsync_edge st0 (waits st0) + frame_len st0 + 5 + TDM_PORT_BUFFER_BITS)
                # map (\<lambda>l. Port_set_trigger_time (p_din st0 l)
                              (fsync_edge st0 (waits st0) + frame_len st0 + 5 + TDM_PORT_BUFFER_BITS))
                    [0 ..< unat (num_in st0)]
                @ map (\<lambda>l. Port_out_at_time (p_dout st0 l)
                              (fsync_edge st0 (waits st0) + frame_len st0 + 5)
                              (snd (OUT16 (mem st' Out_s (unat (current_buf_no st0)) l 0)
                                          (mem st' Out_s (unat (current_buf_no st0)) l 1))))
                    [0 ..< unat (num_out st0)]"
    by blast
  have i: "filter is_timed (drop (length (trace st0)) (trace st')) =
              [Port_set_trigger_time 2 393, Port_set_trigger_time 20 393,
               Port_out_at_time 10 361 (snd (OUT16 (mem st' Out_s 0 0 0) (mem st' Out_s 0 0 1)))]"
    unfolding st'(2) by (simp add: f0 TDM_PORT_BUFFER_BITS_def)
  from st'(1) i have I: "\<exists>st'. init_phase st0 = Inr st'
          \<and> filter is_timed (drop (length (trace st0)) (trace st')) =
              [Port_set_trigger_time 2 393, Port_set_trigger_time 20 393,
               Port_out_at_time 10 361 (snd (OUT16 (mem st' Out_s 0 0 0) (mem st' Out_s 0 0 1)))]"
    by blast
  from inst have F: "\<exists>fr'. frame_body S1 = Inr fr' \<and> num_bclk_cycles_offset fr' = 5"
    by blast
  from f0(3) ok0 n0 s(4) s(2) n1 a b I F show ?thesis
    unfolding s(1) snd_conv st0_def [symmetric] c_def [symmetric]
    by (intro conjI)
qed

text \<open>
  C9. If \<^verbatim>\<open>num_chans > 16\<close>, \<^verbatim>\<open>num_in > 4\<close> or \<^verbatim>\<open>num_out > 4\<close>, \<^verbatim>\<open>tdm_slave\<close> stops on
  the failed assertion with nothing logged: no port was touched, no callback was called
  and the application data is as it was. Otherwise no prefix of the run, however long,
  ends in a trap (neither an assertion, which is checked nowhere else, nor an access
  outside a sample buffer); the log starts with the initialisation of the ports; and in
  the state reached the interrupt handler and the preload run without leaving the sample
  buffers.
\<close>

theorem tdm_slave_checks_configuration:
  "(\<not> (unat (arg_num_chans c) \<le> TDM_MAX_CHANS \<and> unat (arg_num_in c) \<le> TDM_MAX_PORTS
        \<and> unat (arg_num_out c) \<le> TDM_MAX_PORTS)
      \<longrightarrow> fst (tdm_slave n c) = Trapped Assertion_failed
        \<and> trace (snd (tdm_slave n c)) = []
        \<and> app_data (snd (tdm_slave n c)) = the_app_data c)
   \<and> (unat (arg_num_chans c) \<le> TDM_MAX_CHANS \<and> unat (arg_num_in c) \<le> TDM_MAX_PORTS
        \<and> unat (arg_num_out c) \<le> TDM_MAX_PORTS
      \<longrightarrow> (fst (tdm_slave n c) = Returned \<or> fst (tdm_slave n c) = Out_of_fuel)
        \<and> (\<exists>evs. trace (snd (tdm_slave n c))
                    = trace (tdm_slave_init_ports (entry_state c)) @ evs)
        \<and> (\<exists>st'. tdm_isr (snd (tdm_slave n c)) = Inr st')
        \<and> (\<exists>st'. preload_data (snd (tdm_slave n c)) = Inr st'))"
proof (intro conjI impI)
  assume bad: "\<not> (unat (arg_num_chans c) \<le> TDM_MAX_CHANS \<and> unat (arg_num_in c) \<le> TDM_MAX_PORTS
        \<and> unat (arg_num_out c) \<le> TDM_MAX_PORTS)"
  show "fst (tdm_slave n c) = Trapped Assertion_failed"
    by (simp add: tdm_slave_rejected [OF bad])
  show "trace (snd (tdm_slave n c)) = []"
    by (simp add: tdm_slave_rejected [OF bad] entry_state_def)
  show "app_data (snd (tdm_slave n c)) = the_app_data c"
    by (simp add: tdm_slave_rejected [OF bad] entry_state_def)
next
  assume "unat (arg_num_chans c) \<le> TDM_MAX_CHANS \<and> unat (arg_num_in c) \<le> TDM_MAX_PORTS
        \<and> unat (arg_num_out c) \<le> TDM_MAX_PORTS"
  then have a: "unat (arg_num_chans c) \<le> TDM_MAX_CHANS" "unat (arg_num_in c) \<le> TDM_MAX_PORTS"
    "unat (arg_num_out c) \<le> TDM_MAX_PORTS"
    by simp_all
  note run = tdm_slave_accepted(1) [OF a]
  note inv = outer_loop_inv [OF tdm_slave_accepted(2,3) [OF a], of n]
  show "fst (tdm_slave n c) = Returned \<or> fst (tdm_slave n c) = Out_of_fuel"
    using inv by (simp add: run)
  show "\<exists>evs. trace (snd (tdm_slave n c)) = trace (tdm_slave_init_ports (entry_state c)) @ evs"
    unfolding run by (rule outer_loop_trace)
  have ok: "pointers_ok (snd (tdm_slave n c))"
    using inv by (simp add: run)
  show "\<exists>st'. tdm_isr (snd (tdm_slave n c)) = Inr st'"
    using pointers_ok_ptrs(3) [OF ok] by (rule tdm_isr_total)
  have "unat (num_out (snd (tdm_slave n c))) \<le> TDM_MAX_PORTS"
    using inv tdm_slave_accepted(3) [OF a] by (simp add: run)
  with pointers_ok_ptrs(4) [OF ok] show "\<exists>st'. preload_data (snd (tdm_slave n c)) = Inr st'"
    by (simp add: preload_data_eq)
qed

text \<open>With 17 channels the call is refused; the test configuration is accepted.\<close>

theorem tdm_slave_checks_configuration_witness:
  "\<not> (unat (arg_num_chans (test_call (test_cbg 0 1 TDM_SHUTDOWN) 1 1 17 100)) \<le> TDM_MAX_CHANS)
   \<and> fst (tdm_slave 5 (test_call (test_cbg 0 1 TDM_SHUTDOWN) 1 1 17 100)) = Trapped Assertion_failed
   \<and> trace (snd (tdm_slave 5 (test_call (test_cbg 0 1 TDM_SHUTDOWN) 1 1 17 100))) = []
   \<and> unat (arg_num_chans (test_run TDM_SHUTDOWN 100)) \<le> TDM_MAX_CHANS
   \<and> unat (arg_num_in (test_run TDM_SHUTDOWN 100)) \<le> TDM_MAX_PORTS
   \<and> unat (arg_num_out (test_run TDM_SHUTDOWN 100)) \<le> TDM_MAX_PORTS
   \<and> (fst (tdm_slave 5 (test_run TDM_SHUTDOWN 100)) = Returned
        \<or> fst (tdm_slave 5 (test_run TDM_SHUTDOWN 100)) = Out_of_fuel)
   \<and> (\<exists>st'. tdm_isr (snd (tdm_slave 5 (test_run TDM_SHUTDOWN 100))) = Inr st')
   \<and> (\<exists>st'. preload_data (snd (tdm_slave 5 (test_run TDM_SHUTDOWN 100))) = Inr st')"
proof -
  have bad: "\<not> (unat (arg_num_chans (test_call (test_cbg 0 1 TDM_SHUTDOWN) 1 1 17 100))
                 \<le> TDM_MAX_CHANS)"
    by (simp add: test_call_def TDM_MAX_CHANS_def)
  note good = test_run_ok [of TDM_SHUTDOWN 100]
  from bad good
    tdm_slave_checks_configuration [of "test_call (test_cbg 0 1 TDM_SHUTDOWN) 1 1 17 100" 5]
    tdm_slave_checks_configuration [of "test_run TDM_SHUTDOWN 100" 5]
  show ?thesis
    by blast
qed

text \<open>
  C10. \<^verbatim>\<open>preload_data\<close> changes no sample and logs, after its entry, exactly one output
  per output line, whose word is packed from channels 0 and 1 of that line of the working
  output buffer. The interrupt handler changes no sample other than channels 0 and 1 of
  line 0 of the working input buffer, which (if there is an input line) receive the two
  halves of the one word it reads, from the port of line 0. \<^verbatim>\<open>commit_buffers\<close> changes
  no sample. Nothing here depends on \<^verbatim>\<open>num_chans\<close>.
\<close>

theorem transport_moves_two_channels:
  "(preload_data st = Inr st1 \<longrightarrow>
      mem st1 = mem st
      \<and> drop (length (trace st)) (trace st1) =
          Enter_preload_data #
          map (\<lambda>l. Port_out_at_time (p_dout st l)
                     (fsync_time st + frame_len st + num_bclk_cycles_offset st)
                     (snd (OUT16
                        (mem st (fst (working_out_buffer st)) (snd (working_out_buffer st)) l 0)
                        (mem st (fst (working_out_buffer st)) (snd (working_out_buffer st)) l 1))))
              [0 ..< unat (num_out st)])
   \<and> (tdm_isr st = Inr st2 \<longrightarrow>
        (\<forall>d i l ch. (d, i) = working_in_buffer st \<and> l = 0 \<and> ch < 2
                     \<or> mem st2 d i l ch = mem st d i l ch)
      \<and> (num_in st \<noteq> 0 \<longrightarrow>
           mem st2 (fst (working_in_buffer st)) (snd (working_in_buffer st)) 0 0
             = fst (IN16 0 (din st (p_din st 0) (reads st (p_din st 0))))
         \<and> mem st2 (fst (working_in_buffer st)) (snd (working_in_buffer st)) 0 1
             = snd (IN16 0 (din st (p_din st 0) (reads st (p_din st 0)))))
      \<and> filter is_port_in (drop (length (trace st)) (trace st2)) =
           (if num_in st = 0 then []
            else [Port_in (p_din st 0) (din st (p_din st 0) (reads st (p_din st 0)))]))
   \<and> mem (commit_buffers ib ob st) = mem st"
proof (intro conjI impI allI)
  assume p: "preload_data st = Inr st1"
  show "mem st1 = mem st"
    by (rule preload_data_effect(1) [OF p])
  have "map (preload_event st) [0 ..< unat (num_out st)] =
          map (\<lambda>l. Port_out_at_time (p_dout st l)
                     (fsync_time st + frame_len st + num_bclk_cycles_offset st)
                     (snd (OUT16
                        (mem st (fst (working_out_buffer st)) (snd (working_out_buffer st)) l 0)
                        (mem st (fst (working_out_buffer st)) (snd (working_out_buffer st)) l 1))))
              [0 ..< unat (num_out st)]"
    by (simp add: preload_event_def)
  then show "drop (length (trace st)) (trace st1) =
          Enter_preload_data #
          map (\<lambda>l. Port_out_at_time (p_dout st l)
                     (fsync_time st + frame_len st + num_bclk_cycles_offset st)
                     (snd (OUT16
                        (mem st (fst (working_out_buffer st)) (snd (working_out_buffer st)) l 0)
                        (mem st (fst (working_out_buffer st)) (snd (working_out_buffer st)) l 1))))
              [0 ..< unat (num_out st)]"
    unfolding preload_data_effect(2) [OF p] by simp
next
  fix d i l ch
  assume t: "tdm_isr st = Inr st2"
  show "(d, i) = working_in_buffer st \<and> l = 0 \<and> ch < 2 \<or> mem st2 d i l ch = mem st d i l ch"
    by (rule tdm_isr_effect(1) [OF t])
next
  assume t: "tdm_isr st = Inr st2" and n: "num_in st \<noteq> 0"
  from tdm_isr_effect(2) [OF t n]
  show "mem st2 (fst (working_in_buffer st)) (snd (working_in_buffer st)) 0 0
             = fst (IN16 0 (din st (p_din st 0) (reads st (p_din st 0))))"
    and "mem st2 (fst (working_in_buffer st)) (snd (working_in_buffer st)) 0 1
             = snd (IN16 0 (din st (p_din st 0) (reads st (p_din st 0))))"
    by simp_all
next
  assume t: "tdm_isr st = Inr st2"
  show "filter is_port_in (drop (length (trace st)) (trace st2)) =
           (if num_in st = 0 then []
            else [Port_in (p_din st 0) (din st (p_din st 0) (reads st (p_din st 0)))])"
    by (rule tdm_isr_effect(3) [OF t])
next
  show "mem (commit_buffers ib ob st) = mem st"
    by (simp add: commit_buffers_eq)
qed

text \<open>
  With two input lines and one output line, before the start: one output, from a buffer
  of zeros; line 0 of the working input buffer receives \<^verbatim>\<open>0x5678\<close> and \<^verbatim>\<open>0xCDEF\<close>,
  channel 2 of line 0, line 1 and the other buffer stay zero.
\<close>

theorem transport_moves_two_channels_witness:
  "(\<exists>st1. preload_data (entry_state two_line_run) = Inr st1
          \<and> mem st1 = mem (entry_state two_line_run)
          \<and> drop (length (trace (entry_state two_line_run))) (trace st1) =
               [Enter_preload_data, Port_out_at_time 10 256 (snd (OUT16 0 0))])
   \<and> (\<exists>st2. tdm_isr (entry_state two_line_run) = Inr st2
          \<and> mem st2 In_s 1 0 0 = 0x5678 \<and> mem st2 In_s 1 0 1 = 0xCDEF
          \<and> mem st2 In_s 1 0 2 = 0 \<and> mem st2 In_s 1 1 0 = 0 \<and> mem st2 In_s 0 0 0 = 0
          \<and> filter is_port_in (trace st2) = [Port_in 20 (snd (OUT16 0x12345678 0x89ABCDEF))])"
proof -
  define S where "S = entry_state two_line_run"
  have f: "working_out_buffer S = (Out_s, 1)" "working_in_buffer S = (In_s, 1)"
    "num_out S = 1" "num_in S = 2" "trace S = []" "mem S = (\<lambda>d i l ch. 0)"
    "p_dout S = (\<lambda>l. 10 + l)" "p_din S = (\<lambda>l. 20 + l)" "reads S = (\<lambda>p. 0)"
    "din S = (\<lambda>p k. snd (OUT16 0x12345678 0x89ABCDEF))"
    "fsync_time S = 0" "frame_len S = 256" "num_bclk_cycles_offset S = 0"
    by (simp_all add: S_def entry_state_def two_line_run_def test_call_def)
  have "\<exists>st1. preload_data S = Inr st1"
    by (simp add: preload_data_eq f TDM_MAX_PORTS_def)
  then obtain st1 where p: "preload_data S = Inr st1"
    by blast
  have "\<exists>st2. tdm_isr S = Inr st2"
    by (rule tdm_isr_total) (simp add: f)
  then obtain st2 where t: "tdm_isr S = Inr st2"
    by blast
  note inst = transport_moves_two_channels [of S st1 st2]
  from inst p have a: "mem st1 = mem S"
    by blast
  from inst p have b: "drop (length (trace S)) (trace st1) =
          Enter_preload_data #
          map (\<lambda>l. Port_out_at_time (p_dout S l)
                     (fsync_time S + frame_len S + num_bclk_cycles_offset S)
                     (snd (OUT16
                        (mem S (fst (working_out_buffer S)) (snd (working_out_buffer S)) l 0)
                        (mem S (fst (working_out_buffer S)) (snd (working_out_buffer S)) l 1))))
              [0 ..< unat (num_out S)]"
    by blast
  have b': "drop (length (trace S)) (trace st1) =
               [Enter_preload_data, Port_out_at_time 10 256 (snd (OUT16 0 0))]"
    unfolding b by (simp add: f)
  from inst t have frame: "\<And>d i l ch. (d, i) = working_in_buffer S \<and> l = 0 \<and> ch < 2
                     \<or> mem st2 d i l ch = mem S d i l ch"
    by blast
  from inst t have w: "mem st2 (fst (working_in_buffer S)) (snd (working_in_buffer S)) 0 0
             = fst (IN16 0 (din S (p_din S 0) (reads S (p_din S 0))))"
    "mem st2 (fst (working_in_buffer S)) (snd (working_in_buffer S)) 0 1
             = snd (IN16 0 (din S (p_din S 0) (reads S (p_din S 0))))"
    by (simp_all add: f)
  from inst t have r: "filter is_port_in (drop (length (trace S)) (trace st2)) =
           (if num_in S = 0 then []
            else [Port_in (p_din S 0) (din S (p_din S 0) (reads S (p_din S 0)))])"
    by blast
  have c1: "mem st2 In_s 1 0 0 = 0x5678" "mem st2 In_s 1 0 1 = 0xCDEF"
    using w by (simp_all add: f IN16_of_OUT16)
  have c2: "mem st2 In_s 1 0 2 = 0" "mem st2 In_s 1 1 0 = 0" "mem st2 In_s 0 0 0 = 0"
    using frame [of In_s 1 0 2] frame [of In_s 1 1 0] frame [of In_s 0 0 0]
    by (simp_all add: f)
  have c3: "filter is_port_in (trace st2) = [Port_in 20 (snd (OUT16 0x12345678 0x89ABCDEF))]"
    using r by (simp add: f)
  from p a b' have A: "\<exists>st1. preload_data S = Inr st1 \<and> mem st1 = mem S
          \<and> drop (length (trace S)) (trace st1) =
               [Enter_preload_data, Port_out_at_time 10 256 (snd (OUT16 0 0))]"
    by blast
  from t c1 c2 c3 have B: "\<exists>st2. tdm_isr S = Inr st2
          \<and> mem st2 In_s 1 0 0 = 0x5678 \<and> mem st2 In_s 1 0 1 = 0xCDEF
          \<and> mem st2 In_s 1 0 2 = 0 \<and> mem st2 In_s 1 1 0 = 0 \<and> mem st2 In_s 0 0 0 = 0
          \<and> filter is_port_in (trace st2) = [Port_in 20 (snd (OUT16 0x12345678 0x89ABCDEF))]"
    by blast
  from A B show ?thesis
    unfolding S_def by (rule conjI)
qed

end
